(* ===== verification/Prelude.thy ===== *)
theory Prelude
  imports Main "HOL-Library.Word" "HOL-Library.Char_ord" "HOL-Library.List_Lexorder"
    "HOL-Library.Monad_Syntax"
begin

text \<open>
  Shared material of the development: the machine types, the C++ standard containers the
  service uses (\<open>std::map\<close> as an association list in key order) with the interface the
  components rely on, deadline-ordered queues, C strings, and the lemma collections.
\<close>

section \<open>Machine types\<close>

type_synonym byte = "8 word"
type_synonym u16 = "16 word"
type_synonym u32 = "32 word"
type_synonym i32 = "32 word"  \<comment> \<open>two's complement, read with \<open>sint\<close>\<close>
type_synonym u64 = "64 word"
type_synonym time = int  \<comment> \<open>\<open>steady_clock\<close> time points, in nanoseconds\<close>
type_synonym aid = nat  \<comment> \<open>address of an \<open>Adapter\<close> object\<close>

named_theorems flora_consts "the constants of the headers, unfolded"
named_theorems ser_defs "definitions of the serialisers and parsers"
named_theorems disp_defs "definitions of the dispatcher's operations"

section \<open>C strings\<close>

text \<open>What a \<open>const char *\<close> obtained by \<open>std::string::c_str\<close> denotes: the characters up to
  the first NUL.\<close>

definition c_str :: "string \<Rightarrow> string" where
  "c_str s = takeWhile (\<lambda>c. c \<noteq> CHR 0x00) s"

definition nul_free :: "string \<Rightarrow> bool" where
  "nul_free s \<longleftrightarrow> CHR 0x00 \<notin> set s"

lemma c_str_id [simp]: "nul_free s \<Longrightarrow> c_str s = s"
  unfolding c_str_def nul_free_def by (subst takeWhile_eq_all_conv) auto

lemma nul_free_c_str [simp]: "nul_free (c_str s)"
  unfolding c_str_def nul_free_def by (auto dest: set_takeWhileD)

lemma nul_free_Nil [simp]: "nul_free []"
  by (simp add: nul_free_def)

section \<open>\<open>std::map\<close>\<close>

text \<open>
  The interface of a map with unique keys. \<open>find\<close>, \<open>put\<close> (\<open>operator[]\<close> followed by an
  assignment) and \<open>erase\<close> are what the components call; \<open>insert\<close> of the standard library,
  which keeps an existing entry, is expressed with them.
\<close>

locale std_map =
  fixes find :: "'m \<Rightarrow> 'k \<Rightarrow> 'v option"
    and put :: "'k \<Rightarrow> 'v \<Rightarrow> 'm \<Rightarrow> 'm"
    and erase :: "'k \<Rightarrow> 'm \<Rightarrow> 'm"
    and inv :: "'m \<Rightarrow> bool"
  assumes find_put: "find (put k v m) k' = (if k' = k then Some v else find m k')"
    and find_erase: "find (erase k m) k' = (if k' = k then None else find m k')"
    and inv_put: "inv m \<Longrightarrow> inv (put k v m)"
    and inv_erase: "inv m \<Longrightarrow> inv (erase k m)"
begin

lemma find_put_same: "find (put k v m) k = Some v"
  by (simp add: find_put)

lemma find_erase_same: "find (erase k m) k = None"
  by (simp add: find_erase)

lemma find_put_other: "k' \<noteq> k \<Longrightarrow> find (put k v m) k' = find m k'"
  by (simp add: find_put)

lemma find_erase_other: "k' \<noteq> k \<Longrightarrow> find (erase k m) k' = find m k'"
  by (simp add: find_erase)

lemma find_eraseD: "find (erase k m) k' = Some v \<Longrightarrow> k' \<noteq> k \<and> find m k' = Some v"
  by (simp add: find_erase split: if_splits)

lemma find_put_neq_None: "find m k' \<noteq> None \<Longrightarrow> find (put k v m) k' \<noteq> None"
  by (simp add: find_put)

end

fun map_put :: "'k::linorder \<Rightarrow> 'v \<Rightarrow> ('k \<times> 'v) list \<Rightarrow> ('k \<times> 'v) list" where
  "map_put k v [] = [(k, v)]"
| "map_put k v ((k', v') # m) =
     (if k < k' then (k, v) # (k', v') # m
      else if k = k' then (k, v) # m
      else (k', v') # map_put k v m)"

definition map_erase :: "'k \<Rightarrow> ('k \<times> 'v) list \<Rightarrow> ('k \<times> 'v) list" where
  "map_erase k m = filter (\<lambda>p. fst p \<noteq> k) m"

definition map_insert ::
  "'k::linorder \<Rightarrow> 'v \<Rightarrow> ('k \<times> 'v) list \<Rightarrow> ('k \<times> 'v) list \<times> bool" where
  "map_insert k v m =
     (case map_of m k of None \<Rightarrow> (map_put k v m, True) | Some _ \<Rightarrow> (m, False))"

definition map_ok :: "('k::linorder \<times> 'v) list \<Rightarrow> bool" where
  "map_ok m \<longleftrightarrow> sorted_wrt (<) (map fst m)"

lemma map_put_keys: "set (map fst (map_put k v m)) = insert k (set (map fst m))"
  by (induction k v m rule: map_put.induct) auto

lemma map_of_put: "map_of (map_put k v m) k' = (if k' = k then Some v else map_of m k')"
  by (induction k v m rule: map_put.induct) auto

lemma map_of_erase: "map_of (map_erase k m) k' = (if k' = k then None else map_of m k')"
  by (induction m) (auto simp: map_erase_def)

lemma map_ok_put: "map_ok m \<Longrightarrow> map_ok (map_put k v m)"
  unfolding map_ok_def
proof (induction k v m rule: map_put.induct)
  case (2 k v k' v' m)
  then show ?case using map_put_keys [of k v m] by fastforce
qed simp

lemma map_ok_erase: "map_ok m \<Longrightarrow> map_ok (map_erase k m)"
  unfolding map_ok_def map_erase_def
  by (induction m) auto

lemma map_put_put [simp]: "map_put k v (map_put k w m) = map_put k v m"
  by (induction k w m rule: map_put.induct) auto

interpretation smap: std_map map_of map_put map_erase map_ok
  by unfold_locales (simp_all add: map_of_put map_of_erase map_ok_put map_ok_erase)

lemmas smap_simps = smap.find_put smap.find_erase

lemma map_ok_Nil [simp]: "map_ok []"
  by (simp add: map_ok_def)

lemma map_ok_distinct: "map_ok m \<Longrightarrow> distinct (map fst m)"
  unfolding map_ok_def by (simp add: strict_sorted_iff)

lemma map_ok_mem: "map_ok m \<Longrightarrow> (k, v) \<in> set m \<longleftrightarrow> map_of m k = Some v"
  using map_ok_distinct [of m] by (metis map_of_eq_Some_iff)

lemma map_erase_subset: "set (map_erase k m) \<subseteq> set m"
  by (auto simp: map_erase_def)

lemma map_erase_absent: "map_of m k = None \<Longrightarrow> map_erase k m = m"
  by (induction m) (auto simp: map_erase_def split: if_splits)

lemma map_erase_keys: "fst ` set (map_erase k m) = fst ` set m - {k}"
  by (auto simp: map_erase_def)

lemma map_insert_None: "map_of m k = None \<Longrightarrow> map_insert k v m = (map_put k v m, True)"
  by (simp add: map_insert_def)

lemma map_insert_Some: "map_of m k = Some w \<Longrightarrow> map_insert k v m = (m, False)"
  by (simp add: map_insert_def)

section \<open>Deadline-ordered queues\<close>

text \<open>
  Two lists of the service are kept in the order of a time point and drained from the front:
  the dispatcher's pending calls and the keep-alive list of the TCP poll. The loops stop at the
  first element that is not due; over an ordered list that is the same as selecting every due
  element.
\<close>

locale deadline_queue =
  fixes key :: "'a \<Rightarrow> time"
    and due :: "time \<Rightarrow> 'a \<Rightarrow> bool"
  assumes due_mono: "due t x \<Longrightarrow> key y \<le> key x \<Longrightarrow> due t y"
begin

lemma none_due_after:
  "sorted (map key (x # q)) \<Longrightarrow> \<not> due t x \<Longrightarrow> filter (due t) q = []"
  using due_mono by (fastforce simp: filter_empty_conv)

lemma takeWhile_due: "sorted (map key q) \<Longrightarrow> takeWhile (due t) q = filter (due t) q"
proof (induction q)
  case (Cons x q)
  then show ?case using none_due_after [of x q t] by simp
qed simp

lemma dropWhile_due: "sorted (map key q) \<Longrightarrow> dropWhile (due t) q = filter (\<lambda>x. \<not> due t x) q"
proof (induction q)
  case (Cons x q)
  show ?case
  proof (cases "due t x")
    case False
    with Cons.prems have "filter (due t) q = []" by (rule none_due_after)
    with False show ?thesis by (simp add: filter_empty_conv filter_id_conv)
  qed (use Cons in simp)
qed simp

lemma sorted_rest: "sorted (map key q) \<Longrightarrow> sorted (map key (dropWhile (due t) q))"
  by (metis dropWhile_eq_drop drop_map sorted_wrt_drop)

end

section \<open>Words\<close>

lemma unat_lt32: "unat (x :: 32 word) < 4294967296"
proof -
  have "unat x < 2 ^ LENGTH(32)" by (rule unsigned_less)
  then show ?thesis by simp
qed

lemma unat_sub_le: "(b :: 'a::len word) \<le> a \<Longrightarrow> unat (a - b) = unat a - unat b"
  by (simp add: unat_sub)

lemma unat_add_le: "unat (a :: 'a::len word) + unat b < 2 ^ LENGTH('a) \<Longrightarrow> unat (a + b) = unat a + unat b"
  by (simp add: unat_word_ariths)

section \<open>Lists and options\<close>

lemma takeWhile_filter_mem: "x \<in> set (takeWhile P xs) \<Longrightarrow> P x \<and> x \<in> set xs"
  by (metis set_takeWhileD)

lemma bind_eq_Some: "Option.bind m f = Some y \<longleftrightarrow> (\<exists>x. m = Some x \<and> f x = Some y)"
  by (cases m) auto

section \<open>Loops over a list\<close>

text \<open>A loop that may hit undefined behaviour.\<close>

fun iterate :: "('a \<Rightarrow> 's \<Rightarrow> 's option) \<Rightarrow> 'a list \<Rightarrow> 's \<Rightarrow> 's option" where
  "iterate f [] s = Some s"
| "iterate f (x # xs) s = Option.bind (f x s) (iterate f xs)"

lemma iterate_append: "iterate f (xs @ ys) s = Option.bind (iterate f xs s) (iterate f ys)"
proof (induction xs arbitrary: s)
  case (Cons x xs)
  then show ?case by (cases "f x s") simp_all
qed simp

end
