(* ===== verification/Protocol.thy ===== *)
theory Protocol
  imports Prelude
begin

text \<open>
  The constants of \<open>src/defs.h\<close>, \<open>include/flora-cli.h\<close>, \<open>include/flora-svc.h\<close> and
  \<open>src/sock-adap.h\<close>, and the data types the interfaces share (\<open>Response\<close>, the monitor items).
\<close>

unbundle bit_operations_syntax

section \<open>\<open>src/defs.h\<close>\<close>

definition FLORA_VERSION :: u32 where [flora_consts]: "FLORA_VERSION = 4"

definition CMD_AUTH_REQ :: i32 where [flora_consts]: "CMD_AUTH_REQ = 0"
definition CMD_SUBSCRIBE_REQ :: i32 where [flora_consts]: "CMD_SUBSCRIBE_REQ = 1"
definition CMD_UNSUBSCRIBE_REQ :: i32 where [flora_consts]: "CMD_UNSUBSCRIBE_REQ = 2"
definition CMD_POST_REQ :: i32 where [flora_consts]: "CMD_POST_REQ = 3"
definition CMD_REPLY_REQ :: i32 where [flora_consts]: "CMD_REPLY_REQ = 4"
definition CMD_DECLARE_METHOD_REQ :: i32 where [flora_consts]: "CMD_DECLARE_METHOD_REQ = 5"
definition CMD_REMOVE_METHOD_REQ :: i32 where [flora_consts]: "CMD_REMOVE_METHOD_REQ = 6"
definition CMD_CALL_REQ :: i32 where [flora_consts]: "CMD_CALL_REQ = 7"
definition CMD_PING_REQ :: i32 where [flora_consts]: "CMD_PING_REQ = 8"

definition CMD_AUTH_RESP :: i32 where [flora_consts]: "CMD_AUTH_RESP = 101"
definition CMD_POST_RESP :: i32 where [flora_consts]: "CMD_POST_RESP = 102"
definition CMD_REPLY_RESP :: i32 where [flora_consts]: "CMD_REPLY_RESP = 103"
definition CMD_CALL_RESP :: i32 where [flora_consts]: "CMD_CALL_RESP = 104"
definition CMD_MONITOR_RESP :: i32 where [flora_consts]: "CMD_MONITOR_RESP = 105"
definition CMD_PONG_RESP :: i32 where [flora_consts]: "CMD_PONG_RESP = 106"

definition MSG_HANDLER_COUNT :: i32 where [flora_consts]: "MSG_HANDLER_COUNT = 9"

definition MONITOR_LIST_ALL :: i32 where [flora_consts]: "MONITOR_LIST_ALL = 0"
definition MONITOR_LIST_ADD :: i32 where [flora_consts]: "MONITOR_LIST_ADD = 1"
definition MONITOR_LIST_REMOVE :: i32 where [flora_consts]: "MONITOR_LIST_REMOVE = 2"
definition MONITOR_SUBTYPE_NUM :: u32 where [flora_consts]: "MONITOR_SUBTYPE_NUM = 11"

definition DEFAULT_MSG_BUF_SIZE :: u32 where [flora_consts]: "DEFAULT_MSG_BUF_SIZE = 32768"
definition CLEAR_SUBSCRIPTION_TIME_THRESHOLD :: int where
  [flora_consts]: "CLEAR_SUBSCRIPTION_TIME_THRESHOLD = 10"
definition CLEAR_SUBSCRIPTION_THRESHOLD :: u32 where
  [flora_consts]: "CLEAR_SUBSCRIPTION_THRESHOLD = 50"

section \<open>\<open>include/flora-cli.h\<close>\<close>

definition FLORA_CLI_SUCCESS :: i32 where [flora_consts]: "FLORA_CLI_SUCCESS = 0"
definition FLORA_CLI_EAUTH :: i32 where [flora_consts]: "FLORA_CLI_EAUTH = - 1"
definition FLORA_CLI_EINVAL :: i32 where [flora_consts]: "FLORA_CLI_EINVAL = - 2"
definition FLORA_CLI_ECONN :: i32 where [flora_consts]: "FLORA_CLI_ECONN = - 3"
definition FLORA_CLI_ETIMEOUT :: i32 where [flora_consts]: "FLORA_CLI_ETIMEOUT = - 4"
definition FLORA_CLI_ENEXISTS :: i32 where [flora_consts]: "FLORA_CLI_ENEXISTS = - 5"
definition FLORA_CLI_EDUPID :: i32 where [flora_consts]: "FLORA_CLI_EDUPID = - 6"
definition FLORA_CLI_EINSUFF_BUF :: i32 where [flora_consts]: "FLORA_CLI_EINSUFF_BUF = - 7"
definition FLORA_CLI_ECLOSED :: i32 where [flora_consts]: "FLORA_CLI_ECLOSED = - 8"
definition FLORA_CLI_EDEADLOCK :: i32 where [flora_consts]: "FLORA_CLI_EDEADLOCK = - 9"
definition FLORA_CLI_EMONITOR :: i32 where [flora_consts]: "FLORA_CLI_EMONITOR = - 10"

definition FLORA_MSGTYPE_INSTANT :: u32 where [flora_consts]: "FLORA_MSGTYPE_INSTANT = 0"
definition FLORA_MSGTYPE_PERSIST :: u32 where [flora_consts]: "FLORA_MSGTYPE_PERSIST = 1"
definition FLORA_NUMBER_OF_MSGTYPE :: u32 where [flora_consts]: "FLORA_NUMBER_OF_MSGTYPE = 2"

definition FLORA_CLI_FLAG_MONITOR :: u32 where [flora_consts]: "FLORA_CLI_FLAG_MONITOR = 1"

text \<open>\<open>flags & FLORA_CLI_FLAG_MONITOR\<close> as a truth value.\<close>

definition is_monitor :: "u32 \<Rightarrow> bool" where
  "is_monitor flags \<longleftrightarrow> flags AND FLORA_CLI_FLAG_MONITOR \<noteq> 0"

section \<open>\<open>include/flora-svc.h\<close>\<close>

definition FLORA_DISP_FLAG_MONITOR :: u32 where [flora_consts]: "FLORA_DISP_FLAG_MONITOR = 1"
definition FLORA_POLL_SUCCESS :: i32 where [flora_consts]: "FLORA_POLL_SUCCESS = 0"
definition FLORA_POLL_ALREADY_START :: i32 where [flora_consts]: "FLORA_POLL_ALREADY_START = - 1"
definition FLORA_POLL_SYSERR :: i32 where [flora_consts]: "FLORA_POLL_SYSERR = - 2"
definition FLORA_POLL_INVAL :: i32 where [flora_consts]: "FLORA_POLL_INVAL = - 3"
definition FLORA_POLL_UNSUPP :: i32 where [flora_consts]: "FLORA_POLL_UNSUPP = - 4"

section \<open>\<open>src/sock-adap.h\<close>\<close>

definition HEADER_SIZE :: u32 where [flora_consts]: "HEADER_SIZE = 8"
definition SOCK_ADAPTER_SUCCESS :: i32 where [flora_consts]: "SOCK_ADAPTER_SUCCESS = 0"
definition SOCK_ADAPTER_ECLOSED :: i32 where [flora_consts]: "SOCK_ADAPTER_ECLOSED = - 10001"
definition SOCK_ADAPTER_ENOMORE :: i32 where [flora_consts]: "SOCK_ADAPTER_ENOMORE = - 10002"
definition SOCK_ADAPTER_EPROTO :: i32 where [flora_consts]: "SOCK_ADAPTER_EPROTO = - 10003"
definition SOCK_ADAPTER_ENOBUF :: i32 where [flora_consts]: "SOCK_ADAPTER_ENOBUF = - 10004"

section \<open>Data of the interfaces\<close>

record 'c response =
  ret_code :: i32
  resp_data :: "'c option"  \<comment> \<open>\<open>shared_ptr<Caps>\<close>, possibly null\<close>
  resp_extra :: string

text \<open>\<open>MonitorListItem\<close>; its \<open>tag\<close> is never assigned by the code (a TODO in the parsers).\<close>

record monitor_list_item =
  mli_id :: u32
  mli_pid :: i32
  mli_name :: string
  mli_flags :: u32

end
