(* ===== verification/Tag.thy ===== *)
theory Tag
  imports Protocol
begin

text \<open>
  \<open>TagHelper\<close> of \<open>src/ser-helper.h\<close>: the 64-bit tag that identifies the sender of a message.
  A tag of a unix-domain client is its process id; a tag of a TCP client holds, with the top bit
  set, the port in the high half and the IPv4 address in the low half. Hosts are little-endian.
\<close>

unbundle bit_operations_syntax

section \<open>Addresses\<close>

text \<open>The two fields of \<open>sockaddr_in\<close> the code reads, as stored: both are in network byte
  order.\<close>

record sockaddr_in =
  sin_port :: u16
  s_addr :: u32

definition htons :: "u16 \<Rightarrow> u16" where
  "htons p = push_bit 8 p OR drop_bit 8 p"

fun show_nat :: "nat \<Rightarrow> string" where
  "show_nat n = (if n < 10 then [char_of (48 + n)] else show_nat (n div 10) @ [char_of (48 + n mod 10)])"

declare show_nat.simps [simp del]

definition show_int :: "int \<Rightarrow> string" where
  "show_int i = (if i < 0 then CHR ''-'' # show_nat (nat (- i)) else show_nat (nat i))"

text \<open>\<open>inet_ntoa\<close> on a little-endian host: the bytes of the address in memory order.\<close>

definition inet_ntoa :: "u32 \<Rightarrow> string" where
  "inet_ntoa a =
     show_nat (unat (a AND 0xff)) @ ''.'' @ show_nat (unat (drop_bit 8 a AND 0xff)) @ ''.'' @
     show_nat (unat (drop_bit 16 a AND 0xff)) @ ''.'' @ show_nat (unat (drop_bit 24 a AND 0xff))"

section \<open>\<open>TagHelper\<close>\<close>

definition tag_create_addr :: "sockaddr_in \<Rightarrow> u64" where
  "tag_create_addr addr =
     push_bit 32 (ucast ((0x80000000 :: u32) OR ucast (sin_port addr))) OR ucast (s_addr addr)"

definition tag_create_pid :: "u32 \<Rightarrow> u64" where
  "tag_create_pid pid = ucast pid"

definition tag_type :: "u64 \<Rightarrow> u32" where
  "tag_type tag = (if drop_bit 32 tag AND 0x80000000 \<noteq> 0 then 1 else 0)"

definition tag_pid :: "u64 \<Rightarrow> i32" where
  "tag_pid tag = ucast (tag AND 0xffffffff)"

definition tag_ipaddr :: "u64 \<Rightarrow> string" where
  "tag_ipaddr tag = inet_ntoa (ucast (tag AND 0xffffffff))"

definition tag_port :: "u64 \<Rightarrow> u16" where
  "tag_port tag = ucast (drop_bit 32 tag AND 0xffff)"

definition tag_to_string :: "u64 \<Rightarrow> string" where
  "tag_to_string tag =
     (if tag_type tag = 0 then show_int (sint (tag_pid tag))
      else tag_ipaddr tag @ '':'' @ show_nat (unat (tag_port tag)))"

section \<open>Properties\<close>

lemma top_bit: "bit (0x80000000 :: int) n \<longleftrightarrow> n = 31"
proof -
  have "(0x80000000 :: int) = 2 ^ 31" by simp
  then show ?thesis by (auto simp only: bit_exp_iff possible_bit_def)
qed

lemma mask16: "(0xffff :: u64) = mask 16" and mask32: "(0xffffffff :: u64) = mask 32"
  by (simp_all add: mask_eq_exp_minus_1)

lemma high_bit_32: "32 \<le> n \<Longrightarrow> \<not> bit (x :: 32 word) n"
  using bit_imp_le_length [of x n] by auto

lemma tag_type_bit: "tag_type tag = (if bit tag 63 then 1 else 0)"
proof -
  have "drop_bit 32 tag AND 0x80000000 = push_bit 31 (of_bool (bit tag 63))"
    by (rule bit_word_eqI) (auto simp: bit_simps top_bit)
  then show ?thesis by (simp add: tag_type_def)
qed

lemma tag_type_addr: "tag_type (tag_create_addr addr) = 1"
  unfolding tag_type_bit tag_create_addr_def by (simp add: bit_simps top_bit)

lemma tag_port_addr: "tag_port (tag_create_addr addr) = sin_port addr"
  unfolding tag_port_def tag_create_addr_def mask16
  by (rule bit_word_eqI) (auto simp: bit_simps high_bit_32 top_bit)

lemma tag_addr_addr: "ucast (tag_create_addr addr AND 0xffffffff) = s_addr addr"
  unfolding tag_create_addr_def mask32
  by (rule bit_word_eqI) (auto simp: bit_simps)

lemma tag_type_pid: "tag_type (tag_create_pid pid) = 0"
  unfolding tag_type_bit tag_create_pid_def by (simp add: bit_simps high_bit_32)

lemma tag_pid_pid: "tag_pid (tag_create_pid pid) = pid"
  unfolding tag_pid_def tag_create_pid_def mask32
  by (rule bit_word_eqI) (auto simp: bit_simps)

lemma htons_bit:
  "bit (htons p) n \<longleftrightarrow> (if n < 8 then bit p (8 + n) else n < 16 \<and> bit p (n - 8))"
  using bit_imp_le_length [of p "8 + n"] by (auto simp: htons_def bit_simps)

lemma htons_fix: "htons p = p \<longleftrightarrow> p AND 0xff = drop_bit 8 p"
proof -
  have m: "(0xff :: u16) = mask 8" by (simp add: mask_eq_exp_minus_1)
  have "bit (p AND 0xff) n = bit (drop_bit 8 p) n \<longleftrightarrow> (n < 8 \<longrightarrow> bit p n = bit p (8 + n))" for n
    unfolding m using bit_imp_le_length [of p "8 + n"] by (auto simp: bit_simps)
  then have "p AND 0xff = drop_bit 8 p \<longleftrightarrow> (\<forall>n < 8. bit p n = bit p (8 + n))"
    by (metis bit_word_eqI)
  moreover have "htons p = p \<longleftrightarrow> (\<forall>n < 8. bit p n = bit p (8 + n))"
  proof
    assume "htons p = p"
    then show "\<forall>n < 8. bit p n = bit p (8 + n)" using htons_bit [of p] by metis
  next
    assume *: "\<forall>n < 8. bit p n = bit p (8 + n)"
    show "htons p = p"
    proof (rule bit_word_eqI)
      fix n assume "n < LENGTH(16)"
      then show "bit (htons p) n = bit p n"
        using * [rule_format, of n] * [rule_format, of "n - 8"] by (auto simp: htons_bit)
    qed
  qed
  ultimately show ?thesis by blast
qed

text \<open>A tag made from a TCP peer's address is recognised as TCP and gives back the port as
  stored and the address; a tag made from a process id is recognised as unix and gives back the
  process id, also for negative ids; so tags of the two kinds never coincide and each kind is
  injective.\<close>

lemma tag_roundtrip:
  "tag_type (tag_create_addr addr) = 1 \<and> tag_port (tag_create_addr addr) = sin_port addr \<and>
   tag_ipaddr (tag_create_addr addr) = inet_ntoa (s_addr addr) \<and>
   tag_type (tag_create_pid pid) = 0 \<and> tag_pid (tag_create_pid pid) = pid \<and>
   tag_create_addr addr \<noteq> tag_create_pid pid"
proof -
  have "tag_create_addr addr \<noteq> tag_create_pid pid"
    using tag_type_addr [of addr] tag_type_pid [of pid] by auto
  then show ?thesis
    by (simp add: tag_type_addr tag_port_addr tag_type_pid tag_pid_pid tag_ipaddr_def tag_addr_addr)
qed

text \<open>The port reported for a TCP sender is the one in network byte order: for a peer bound to
  port \<open>p\<close> (whose \<open>sin_port\<close> is \<open>htons p\<close>) the tag's port is \<open>htons p\<close>, and it is the
  number \<open>p\<close> only when the two bytes of \<open>p\<close> are equal.\<close>

lemma tag_port_network_order:
  "tag_port (tag_create_addr \<lparr>sin_port = htons p, s_addr = a\<rparr>) = htons p \<and>
   (tag_port (tag_create_addr \<lparr>sin_port = htons p, s_addr = a\<rparr>) = p
      \<longleftrightarrow> p AND 0xff = drop_bit 8 p)"
  by (simp add: tag_port_addr htons_fix)

end
