(* ===== verification/CapsLib.thy ===== *)
theory CapsLib
  imports Protocol
begin

text \<open>
  The \<open>Caps\<close> serialisation library (mutils, \<open>caps.h\<close>) is not part of the repository: it is a
  parameter of the model. \<open>caps_ops\<close> collects the operations the repository calls, over an
  abstract type \<open>'c\<close> of Caps objects; \<open>caps_laws\<close> states the documented behaviour the
  repository relies on, in terms of two observations of an object: \<open>content\<close>, all the members
  written to it, and \<open>rest\<close>, the members not read yet.
\<close>

section \<open>Operations\<close>

record 'c caps_ops =
  new_instance :: 'c
  write_i32 :: "i32 \<Rightarrow> 'c \<Rightarrow> 'c"
  write_u32 :: "u32 \<Rightarrow> 'c \<Rightarrow> 'c"
  write_u64 :: "u64 \<Rightarrow> 'c \<Rightarrow> 'c"
  write_cstr :: "string option \<Rightarrow> 'c \<Rightarrow> 'c"  \<comment> \<open>\<open>const char *\<close>, \<open>None\<close> is the null pointer\<close>
  write_string :: "string \<Rightarrow> 'c \<Rightarrow> 'c"  \<comment> \<open>\<open>std::string\<close>\<close>
  write_caps :: "'c option \<Rightarrow> 'c \<Rightarrow> 'c"  \<comment> \<open>\<open>shared_ptr<Caps>\<close>\<close>
  read_i32 :: "'c \<Rightarrow> i32 option \<times> 'c"  \<comment> \<open>\<open>None\<close>: not \<open>CAPS_SUCCESS\<close>\<close>
  read_u32 :: "'c \<Rightarrow> u32 option \<times> 'c"
  read_u64 :: "'c \<Rightarrow> u64 option \<times> 'c"
  read_string :: "'c \<Rightarrow> string option \<times> 'c"
  read_caps :: "'c \<Rightarrow> 'c option option \<times> 'c"
  serialize :: "u32 \<Rightarrow> u32 \<Rightarrow> 'c \<Rightarrow> i32 \<times> byte list"  \<comment> \<open>size, flags: result and bytes written\<close>
  caps_parse :: "byte list \<Rightarrow> 'c option"
  binary_info :: "byte list \<Rightarrow> (u32 \<times> u32) option"  \<comment> \<open>version and length\<close>
  CAPS_FLAG_NET_BYTEORDER :: u32

section \<open>Observations and laws\<close>

datatype member = MInt u32 | MLong u64 | MStr string | MCaps "member list option"

type_synonym 'c view = "'c \<Rightarrow> member list"

text \<open>Writing appends a member.\<close>

definition caps_write_laws :: "'c caps_ops \<Rightarrow> 'c view \<Rightarrow> bool" where
  "caps_write_laws C content \<longleftrightarrow>
     content (new_instance C) = [] \<and>
     (\<forall>v c. content (write_i32 C v c) = content c @ [MInt v]) \<and>
     (\<forall>v c. content (write_u32 C v c) = content c @ [MInt v]) \<and>
     (\<forall>v c. content (write_u64 C v c) = content c @ [MLong v]) \<and>
     (\<forall>s c. content (write_cstr C (Some s) c) = content c @ [MStr s]) \<and>
     (\<forall>s c. content (write_string C s c) = content c @ [MStr s]) \<and>
     (\<forall>p c. content (write_caps C p c) = content c @ [MCaps (map_option content p)])"

text \<open>Reading consumes the members in order and checks their types; integers of either sign
  share a representation. At the end of the object every read fails.\<close>

definition caps_read_laws :: "'c caps_ops \<Rightarrow> 'c view \<Rightarrow> 'c view \<Rightarrow> bool" where
  "caps_read_laws C content rest \<longleftrightarrow>
     (\<forall>c v ms. rest c = MInt v # ms \<longrightarrow> (\<exists>c'. read_i32 C c = (Some v, c') \<and> rest c' = ms)) \<and>
     (\<forall>c v ms. rest c = MInt v # ms \<longrightarrow> (\<exists>c'. read_u32 C c = (Some v, c') \<and> rest c' = ms)) \<and>
     (\<forall>c v ms. rest c = MLong v # ms \<longrightarrow> (\<exists>c'. read_u64 C c = (Some v, c') \<and> rest c' = ms)) \<and>
     (\<forall>c s ms. rest c = MStr s # ms \<longrightarrow> (\<exists>c'. read_string C c = (Some s, c') \<and> rest c' = ms)) \<and>
     (\<forall>c ms. rest c = MCaps None # ms \<longrightarrow>
        (\<exists>c'. read_caps C c = (Some None, c') \<and> rest c' = ms)) \<and>
     (\<forall>c xs ms. rest c = MCaps (Some xs) # ms \<longrightarrow>
        (\<exists>c' s. read_caps C c = (Some (Some s), c') \<and> rest c' = ms \<and> content s = xs \<and> rest s = xs)) \<and>
     (\<forall>c. rest c = [] \<longrightarrow>
        fst (read_i32 C c) = None \<and> fst (read_u32 C c) = None \<and> fst (read_u64 C c) = None \<and>
        fst (read_string C c) = None \<and> fst (read_caps C c) = None)"

text \<open>\<open>binary_info\<close> reads the eight-byte header only.\<close>

definition caps_header_law :: "'c caps_ops \<Rightarrow> bool" where
  "caps_header_law C \<longleftrightarrow>
     (\<forall>bs. 8 \<le> length bs \<longrightarrow> binary_info C bs = binary_info C (take 8 bs))"

text \<open>Serialising an object that fits gives bytes from which parsing recovers its members;
  the first eight bytes are a header that carries the length.\<close>

definition caps_wire_laws :: "'c caps_ops \<Rightarrow> 'c view \<Rightarrow> 'c view \<Rightarrow> bool" where
  "caps_wire_laws C content rest \<longleftrightarrow>
     caps_header_law C \<and>
     (\<forall>c sz flags r bs. serialize C sz flags c = (r, bs) \<longrightarrow> 0 \<le> sint r \<longrightarrow> r \<le> sz \<longrightarrow>
        length bs = unat r \<and> 8 \<le> r \<and>
        (\<exists>v. binary_info C bs = Some (v, r)) \<and>
        (\<exists>c'. caps_parse C bs = Some c' \<and> content c' = content c \<and> rest c' = content c))"

definition caps_laws :: "'c caps_ops \<Rightarrow> 'c view \<Rightarrow> 'c view \<Rightarrow> bool" where
  "caps_laws C content rest \<longleftrightarrow>
     caps_write_laws C content \<and> caps_read_laws C content rest \<and> caps_wire_laws C content rest"

text \<open>What the loops over received bytes need of the library to end: what parses is not empty.\<close>

definition caps_nonempty :: "'c caps_ops \<Rightarrow> bool" where
  "caps_nonempty C \<longleftrightarrow> caps_parse C [] = None"

lemma caps_write_simps:
  assumes "caps_laws C content rest"
  shows "content (new_instance C) = []"
    and "content (write_i32 C v c) = content c @ [MInt v]"
    and "content (write_u32 C v c) = content c @ [MInt v]"
    and "content (write_u64 C w c) = content c @ [MLong w]"
    and "content (write_cstr C (Some s) c) = content c @ [MStr s]"
    and "content (write_string C s c) = content c @ [MStr s]"
    and "content (write_caps C p c) = content c @ [MCaps (map_option content p)]"
  using assms by (simp_all add: caps_laws_def caps_write_laws_def)

lemma read_i32I:
  assumes "caps_laws C content rest" and "rest c = MInt v # ms"
  obtains c' where "read_i32 C c = (Some v, c')" and "rest c' = ms"
  using assms unfolding caps_laws_def caps_read_laws_def by blast

lemma read_u32I:
  assumes "caps_laws C content rest" and "rest c = MInt v # ms"
  obtains c' where "read_u32 C c = (Some v, c')" and "rest c' = ms"
  using assms unfolding caps_laws_def caps_read_laws_def by blast

lemma read_u64I:
  assumes "caps_laws C content rest" and "rest c = MLong v # ms"
  obtains c' where "read_u64 C c = (Some v, c')" and "rest c' = ms"
  using assms unfolding caps_laws_def caps_read_laws_def by blast

lemma read_stringI:
  assumes "caps_laws C content rest" and "rest c = MStr v # ms"
  obtains c' where "read_string C c = (Some v, c')" and "rest c' = ms"
  using assms unfolding caps_laws_def caps_read_laws_def by blast

lemma read_capsI:
  assumes "caps_laws C content rest" and "rest c = MCaps p # ms"
  obtains c' q where "read_caps C c = (Some q, c')" and "rest c' = ms"
    and "map_option content q = p" and "\<And>s. q = Some s \<Longrightarrow> rest s = content s"
proof (cases p)
  case None
  with assms obtain c' where "read_caps C c = (Some None, c')" "rest c' = ms"
    unfolding caps_laws_def caps_read_laws_def by blast
  with None that show ?thesis by force
next
  case (Some xs)
  with assms obtain c' s where "read_caps C c = (Some (Some s), c')" "rest c' = ms"
      "content s = xs" "rest s = xs"
    unfolding caps_laws_def caps_read_laws_def by blast
  with Some that show ?thesis by force
qed

lemma read_caps_end:
  assumes "caps_laws C content rest" and "rest c = []"
  shows "fst (read_caps C c) = None" and "fst (read_i32 C c) = None"
    and "fst (read_u32 C c) = None"
  using assms unfolding caps_laws_def caps_read_laws_def by blast+

lemma wireI:
  assumes "caps_laws C content rest" and "serialize C sz flags c = (r, bs)"
    and "0 \<le> sint r" and "r \<le> sz"
  shows "length bs = unat r" and "8 \<le> r"
    and "\<exists>v. binary_info C bs = Some (v, r)"
    and "\<exists>c'. caps_parse C bs = Some c' \<and> content c' = content c \<and> rest c' = content c"
  using assms unfolding caps_laws_def caps_wire_laws_def by blast+

lemma caps_laws_header: "caps_laws C content rest \<Longrightarrow> caps_header_law C"
  by (simp add: caps_laws_def caps_wire_laws_def)

lemma binary_info_prefix:
  assumes "caps_header_law C" and "8 \<le> length bs"
  shows "binary_info C (bs @ extra) = binary_info C bs"
proof -
  from assms(2) have "take 8 (bs @ extra) = take 8 bs" by simp
  then show ?thesis
    using assms unfolding caps_header_law_def by (metis le_add1 le_trans length_append)
qed

section \<open>Frames\<close>

text \<open>A complete message on the wire that a receiver with a buffer of \<open>sz\<close> bytes accepts.\<close>

definition is_frame :: "'c caps_ops \<Rightarrow> u32 \<Rightarrow> byte list \<Rightarrow> bool" where
  "is_frame C sz f \<longleftrightarrow>
     8 \<le> length f \<and>
     (case binary_info C f of None \<Rightarrow> False | Some (v, len) \<Rightarrow> unat len = length f \<and> len \<le> sz)"

text \<open>What the serialisers send is a frame.\<close>

lemma serialize_is_frame:
  assumes "caps_laws C content rest" and "serialize C sz flags c = (r, bs)"
    and "0 \<le> sint r" and "r \<le> sz"
  shows "is_frame C sz bs"
  using wireI [OF assms] assms(4) by (auto simp: is_frame_def word_le_nat_alt)

end
