(* ===== verification/Adapter.thy ===== *)
theory Adapter
  imports Tag CapsLib
begin

text \<open>
  \<open>AdapterInfo\<close> and \<open>Adapter\<close> (\<open>src/adap.h\<close>) with the only implementation of the abstract
  class, \<open>SocketAdapter\<close> (\<open>src/sock-adap.h\<close>, \<open>src/sock-adap.cc\<close>): the server side of a
  connection, its receive buffer and its framing. The kernel is a parameter: the outcome of a
  \<open>::read\<close> is an argument, the outcome of a \<open>::write\<close> is given by a function of the history of
  the I/O done so far.
\<close>

section \<open>\<open>AdapterInfo\<close>\<close>

record adapter_info =
  ai_id :: u32
  ai_pid :: i32
  ai_name :: string
  declared_methods :: "string set"
  ai_flags :: u32

text \<open>The constructor takes the next id from the static counter; \<open>pid\<close> is left unassigned
  (\<open>junk\<close> is the indeterminate value).\<close>

definition new_AdapterInfo :: "i32 \<Rightarrow> u32 \<Rightarrow> adapter_info \<times> u32" where
  "new_AdapterInfo junk idseq =
     (\<lparr>ai_id = idseq + 1, ai_pid = junk, ai_name = [], declared_methods = {}, ai_flags = 0\<rparr>,
      idseq + 1)"

definition declare_method :: "string \<Rightarrow> adapter_info \<Rightarrow> bool \<times> adapter_info" where
  "declare_method name i =
     (name \<notin> declared_methods i, i\<lparr>declared_methods := insert name (declared_methods i)\<rparr>)"

definition remove_method :: "string \<Rightarrow> adapter_info \<Rightarrow> adapter_info" where
  "remove_method name i = i\<lparr>declared_methods := declared_methods i - {name}\<rparr>"

definition has_method :: "string \<Rightarrow> adapter_info \<Rightarrow> bool" where
  "has_method name i \<longleftrightarrow> name \<in> declared_methods i"

section \<open>\<open>Adapter\<close> and \<open>SocketAdapter\<close>\<close>

text \<open>\<open>Adapter::info\<close> is null or points into the node of this adapter in one of the
  dispatcher's two maps, \<open>adapter_infos\<close> and \<open>monitors\<close>.\<close>

datatype info_ptr = InfoNull | InfoAdapter | InfoMonitor

record adapter =
  serialize_flags :: u32
  info :: info_ptr
  tag :: u64
  socketfd :: int
  buffer :: "byte list option"  \<comment> \<open>\<open>None\<close>: unmapped, the adapter is closed\<close>
  buf_size :: u32
  cur_size :: u32
  frame_begin :: u32

datatype errno = EAGAIN | EINTR | EOTHER

text \<open>What \<open>::write\<close> returns; \<open>SysErr e\<close> carries the \<open>errno\<close> the code reads afterwards.\<close>

datatype sysret = SysRet nat | SysErr errno

datatype io = IoWrite aid u32 "byte list" sysret | IoShutdown aid

type_synonym kernel = "io list \<Rightarrow> aid \<Rightarrow> u32 \<Rightarrow> byte list \<Rightarrow> sysret"

definition new_SocketAdapter :: "int \<Rightarrow> u32 \<Rightarrow> u32 \<Rightarrow> adapter" where
  "new_SocketAdapter sock bufsize flags =
     \<lparr>serialize_flags = flags, info = InfoNull, tag = 0, socketfd = sock,
      buffer = Some (replicate (unat bufsize) 0), buf_size = bufsize, cur_size = 0,
      frame_begin = 0\<rparr>"

definition close_nolock :: "aid \<Rightarrow> adapter \<Rightarrow> io list \<Rightarrow> adapter \<times> io list" where
  "close_nolock a ad log =
     (case buffer ad of
        None \<Rightarrow> (ad, log)
      | Some _ \<Rightarrow> (ad\<lparr>buffer := None\<rparr>, if 0 \<le> socketfd ad then log @ [IoShutdown a] else log))"

definition adapter_close :: "aid \<Rightarrow> adapter \<Rightarrow> io list \<Rightarrow> adapter \<times> io list" where
  "adapter_close a ad log = close_nolock a ad log"

definition closed :: "adapter \<Rightarrow> bool" where
  "closed ad \<longleftrightarrow> buffer ad = None"

text \<open>\<open>write(data, size)\<close>: 0 success, -1 socket error, -2 write timeout.\<close>

definition adapter_write ::
  "kernel \<Rightarrow> aid \<Rightarrow> u32 \<Rightarrow> byte list \<Rightarrow> adapter \<Rightarrow> io list \<Rightarrow> i32 \<times> adapter \<times> io list" where
  "adapter_write K a sz data ad log =
     (case buffer ad of
        None \<Rightarrow> (- 1, ad, log)
      | Some _ \<Rightarrow>
          (let r = K log a sz data; log = log @ [IoWrite a sz data r] in
           case r of
             SysErr e \<Rightarrow>
               (let (ad, log) = close_nolock a ad log in
                (if e = EAGAIN then - 2 else - 1, ad, log))
           | SysRet n \<Rightarrow> (0, ad, log)))"

text \<open>\<open>read\<close>: the argument is what \<open>::read(socketfd, buffer + cur_size, buf_size - cur_size)\<close>
  returns: the bytes received (none at end of file), or an error.\<close>

datatype read_result = RdData "byte list" | RdErr

definition adapter_read :: "read_result \<Rightarrow> adapter \<Rightarrow> i32 \<times> adapter" where
  "adapter_read rd ad =
     (case buffer ad of
        None \<Rightarrow> (SOCK_ADAPTER_ECLOSED, ad)
      | Some buf \<Rightarrow>
          (case rd of
             RdErr \<Rightarrow> (SOCK_ADAPTER_ECLOSED, ad)
           | RdData bs \<Rightarrow>
               (if bs = [] then (SOCK_ADAPTER_ECLOSED, ad)
                else (SOCK_ADAPTER_SUCCESS,
                      ad\<lparr>buffer := Some (take (unat (cur_size ad)) buf @ bs @
                                     drop (unat (cur_size ad) + length bs) buf),
                         cur_size := cur_size ad + word_of_nat (length bs)\<rparr>))))"

text \<open>\<open>next_frame\<close>: the code's \<open>nomore\<close> label, and the frame as the bytes it points to.\<close>

definition nomore :: "u32 \<Rightarrow> byte list \<Rightarrow> adapter \<Rightarrow> adapter" where
  "nomore sz buf ad =
     ad\<lparr>buffer := Some (if frame_begin ad < cur_size ad
                       then take (unat sz) (drop (unat (frame_begin ad)) buf) @ drop (unat sz) buf
                       else buf),
        frame_begin := 0, cur_size := sz\<rparr>"

definition next_frame :: "'c caps_ops \<Rightarrow> adapter \<Rightarrow> i32 \<times> byte list option \<times> adapter" where
  "next_frame C ad =
     (case buffer ad of
        None \<Rightarrow> (SOCK_ADAPTER_ECLOSED, None, ad)
      | Some buf \<Rightarrow>
          (let sz = cur_size ad - frame_begin ad in
           if sz < HEADER_SIZE then (SOCK_ADAPTER_ENOMORE, None, nomore sz buf ad)
           else
             (case binary_info C (drop (unat (frame_begin ad)) buf) of
                None \<Rightarrow> (SOCK_ADAPTER_EPROTO, None, ad)
              | Some (version, len) \<Rightarrow>
                  if buf_size ad < len then (SOCK_ADAPTER_ENOBUF, None, ad)
                  else if sz < len then (SOCK_ADAPTER_ENOMORE, None, nomore sz buf ad)
                  else (SOCK_ADAPTER_SUCCESS,
                        Some (take (unat len) (drop (unat (frame_begin ad)) buf)),
                        ad\<lparr>frame_begin := frame_begin ad + len\<rparr>))))"

section \<open>The interface of a closable channel\<close>

text \<open>
  The contract both ends of a connection give their users: \<open>Adapter\<close> on the server and
  \<open>Connection\<close> on the client. A closed channel stays closed and passes nothing on.
\<close>

locale closable =
  fixes is_closed :: "'s \<Rightarrow> bool"
    and shut :: "'s \<Rightarrow> 's"
    and send :: "'m \<Rightarrow> 's \<Rightarrow> 's"
    and sent :: "'s \<Rightarrow> 'e list"
  assumes closed_shut: "is_closed (shut s)"
    and shut_closed: "is_closed s \<Longrightarrow> shut s = s"
    and send_closed: "is_closed s \<Longrightarrow> send m s = s"
    and send_grows: "\<exists>es. sent (send m s) = sent s @ es"
begin

lemma shut_idem: "shut (shut s) = shut s"
  by (rule shut_closed) (rule closed_shut)

lemma fold_send_closed: "is_closed s \<Longrightarrow> fold send ms s = s"
  by (induction ms arbitrary: s) (simp_all add: send_closed)

lemma after_shut: "fold send ms (shut s) = shut s"
  by (rule fold_send_closed) (rule closed_shut)

lemma fold_send_grows: "\<exists>es. sent (fold send ms s) = sent s @ es"
proof (induction ms arbitrary: s)
  case (Cons m ms)
  from Cons.IH [of "send m s"] send_grows [of m s] show ?case by auto
qed simp

end

lemma close_nolock_closed [simp]: "closed (fst (close_nolock a ad log))"
  by (auto simp: close_nolock_def closed_def split: option.split)

lemma close_nolock_noop: "closed ad \<Longrightarrow> close_nolock a ad log = (ad, log)"
  by (auto simp: close_nolock_def closed_def)

lemma close_nolock_log: "\<exists>es. snd (close_nolock a ad log) = log @ es"
  by (auto simp: close_nolock_def split: option.split)

lemma adapter_write_closed: "closed ad \<Longrightarrow> adapter_write K a sz data ad log = (- 1, ad, log)"
  by (auto simp: adapter_write_def closed_def)

lemma adapter_write_log: "\<exists>es. snd (snd (adapter_write K a sz data ad log)) = log @ es"
  using close_nolock_log [of a ad "log @ [IoWrite a sz data (K log a sz data)]"]
  by (auto simp: adapter_write_def Let_def split: option.split sysret.split prod.splits)

interpretation adap: closable "\<lambda>s. closed (fst s)" "\<lambda>(ad, log). adapter_close a ad log"
  "\<lambda>(sz, data) (ad, log). snd (adapter_write K a sz data ad log)" snd
  for a K
  by unfold_locales
    (auto simp: adapter_close_def close_nolock_noop adapter_write_closed adapter_write_log
      split: prod.split)

section \<open>The receive buffer\<close>

definition adapter_ok :: "adapter \<Rightarrow> bool" where
  "adapter_ok ad \<longleftrightarrow>
     (case buffer ad of None \<Rightarrow> True
      | Some buf \<Rightarrow> length buf = unat (buf_size ad) \<and> frame_begin ad \<le> cur_size ad \<and>
                    cur_size ad \<le> buf_size ad)"

text \<open>The bytes received and not yet handed out as frames.\<close>

definition unread :: "adapter \<Rightarrow> byte list" where
  "unread ad =
     (case buffer ad of None \<Rightarrow> []
      | Some buf \<Rightarrow> take (unat (cur_size ad) - unat (frame_begin ad)) (drop (unat (frame_begin ad)) buf))"

lemma adapter_ok_new: "adapter_ok (new_SocketAdapter fd sz flags)"
  by (simp add: adapter_ok_def new_SocketAdapter_def)

lemma unread_new: "unread (new_SocketAdapter fd sz flags) = []"
  by (simp add: unread_def new_SocketAdapter_def)

lemma adapter_ok_close: "adapter_ok ad \<Longrightarrow> adapter_ok (fst (close_nolock a ad log))"
  by (auto simp: adapter_ok_def close_nolock_def split: option.split)

lemma adapter_ok_write: "adapter_ok ad \<Longrightarrow> adapter_ok (fst (snd (adapter_write K a sz data ad log)))"
  using adapter_ok_close [of ad a "log @ [IoWrite a sz data (K log a sz data)]"]
  by (auto simp: adapter_write_def Let_def split: option.split sysret.split prod.splits)

lemma adapter_read_ok:
  assumes "adapter_ok ad" and "\<not> closed ad" and "bs \<noteq> []"
    and "length bs \<le> unat (buf_size ad - cur_size ad)"
  shows "\<exists>ad'. adapter_read (RdData bs) ad = (SOCK_ADAPTER_SUCCESS, ad') \<and> adapter_ok ad' \<and>
    unread ad' = unread ad @ bs \<and> buf_size ad' = buf_size ad \<and> \<not> closed ad' \<and>
    frame_begin ad' = frame_begin ad \<and> info ad' = info ad"
proof -
  from assms(1,2) obtain buf where b: "buffer ad = Some buf" "length buf = unat (buf_size ad)"
      and o: "frame_begin ad \<le> cur_size ad" "cur_size ad \<le> buf_size ad"
    by (auto simp: adapter_ok_def closed_def)
  let ?n = "unat (cur_size ad)" and ?fb = "unat (frame_begin ad)"
  from assms(4) o(2) have l: "?n + length bs \<le> unat (buf_size ad)"
    by (simp add: unat_sub_le word_le_nat_alt)
  with unat_lt32 [of "buf_size ad"] have lt: "?n + length bs < 2 ^ 32" by simp
  then have "unat (word_of_nat (length bs) :: u32) = length bs" by (simp add: unat_of_nat)
  with lt have cur: "unat (cur_size ad + word_of_nat (length bs)) = ?n + length bs"
    by (subst unat_add_le) simp_all
  from o have fb: "?fb \<le> ?n" by (simp add: word_le_nat_alt)
  let ?buf = "take ?n buf @ bs @ drop (?n + length bs) buf"
  have len: "length ?buf = unat (buf_size ad)" using b l by simp
  have "take (?n + length bs - ?fb) (drop ?fb ?buf) = take (?n - ?fb) (drop ?fb buf) @ bs"
    using fb b l by (simp add: drop_take)
  then show ?thesis
    using assms(3) b len cur l o fb
    by (auto simp: adapter_read_def adapter_ok_def unread_def closed_def word_le_nat_alt)
qed

section \<open>Framing\<close>

lemma open_buffer:
  assumes "adapter_ok ad" and "\<not> closed ad"
  obtains buf where "buffer ad = Some buf" "length buf = unat (buf_size ad)"
    "unat (frame_begin ad) \<le> unat (cur_size ad)" "unat (cur_size ad) \<le> unat (buf_size ad)"
    "unat (cur_size ad - frame_begin ad) = unat (cur_size ad) - unat (frame_begin ad)"
    "unread ad = take (unat (cur_size ad) - unat (frame_begin ad)) (drop (unat (frame_begin ad)) buf)"
    "length (unread ad) = unat (cur_size ad) - unat (frame_begin ad)"
  using assms by (auto simp: adapter_ok_def closed_def unread_def word_le_nat_alt unat_sub_le)

lemma nomore_ok:
  assumes "adapter_ok ad" and "buffer ad = Some buf"
  shows "adapter_ok (nomore (cur_size ad - frame_begin ad) buf ad)"
    and "unread (nomore (cur_size ad - frame_begin ad) buf ad) = unread ad"
proof -
  from assms(2) have "\<not> closed ad" by (simp add: closed_def)
  from open_buffer [OF assms(1) this] assms(2) have b: "length buf = unat (buf_size ad)"
    "unat (frame_begin ad) \<le> unat (cur_size ad)" "unat (cur_size ad) \<le> unat (buf_size ad)"
    "unat (cur_size ad - frame_begin ad) = unat (cur_size ad) - unat (frame_begin ad)"
    "unread ad = take (unat (cur_size ad) - unat (frame_begin ad)) (drop (unat (frame_begin ad)) buf)"
    by auto
  show "adapter_ok (nomore (cur_size ad - frame_begin ad) buf ad)"
    and "unread (nomore (cur_size ad - frame_begin ad) buf ad) = unread ad"
    using b by (auto simp: adapter_ok_def nomore_def unread_def word_le_nat_alt word_less_nat_alt)
qed

lemma nomore_fields [simp]:
  "buf_size (nomore sz buf ad) = buf_size ad" "frame_begin (nomore sz buf ad) = 0"
  "cur_size (nomore sz buf ad) = sz" "closed (nomore sz buf ad) = False"
  "info (nomore sz buf ad) = info ad"
  by (simp_all add: nomore_def closed_def)

text \<open>A complete frame at the front of the unread bytes is handed out.\<close>

lemma next_frame_complete:
  assumes "caps_header_law C" and "adapter_ok ad" and "\<not> closed ad"
    and "unread ad = f @ more_bytes" and "is_frame C (buf_size ad) f"
  shows "\<exists>ad'. next_frame C ad = (SOCK_ADAPTER_SUCCESS, Some f, ad') \<and> adapter_ok ad' \<and>
    unread ad' = more_bytes \<and> buf_size ad' = buf_size ad \<and> \<not> closed ad' \<and> info ad' = info ad"
proof -
  obtain buf where b: "buffer ad = Some buf" "length buf = unat (buf_size ad)"
    "unat (frame_begin ad) \<le> unat (cur_size ad)" "unat (cur_size ad) \<le> unat (buf_size ad)"
    "unat (cur_size ad - frame_begin ad) = unat (cur_size ad) - unat (frame_begin ad)"
    "unread ad = take (unat (cur_size ad) - unat (frame_begin ad)) (drop (unat (frame_begin ad)) buf)"
    "length (unread ad) = unat (cur_size ad) - unat (frame_begin ad)"
    using open_buffer [OF assms(2,3)] by blast
  let ?fb = "unat (frame_begin ad)" and ?n = "unat (cur_size ad) - unat (frame_begin ad)"
  from assms(5) obtain v len where f: "8 \<le> length f" "binary_info C f = Some (v, len)"
      "unat len = length f" "len \<le> buf_size ad"
    by (auto simp: is_frame_def split: option.splits)
  have buf: "drop ?fb buf = f @ more_bytes @ drop ?n (drop ?fb buf)"
    by (metis append.assoc append_take_drop_id b(6) assms(4))
  have bi: "binary_info C (drop ?fb buf) = Some (v, len)"
    by (subst buf) (simp add: binary_info_prefix [OF assms(1) f(1)] f(2))
  have fr: "take (unat len) (drop ?fb buf) = f" by (subst buf) (simp add: f(3))
  have sz: "length f \<le> ?n" using b(7) assms(4) by simp
  have nb: "unat (frame_begin ad + len) = ?fb + length f"
    using sz b(3,4) f(3) unat_lt32 [of "cur_size ad"] by (subst unat_add_le) auto
  have rest: "take (?n - length f) (drop (?fb + length f) buf) = more_bytes"
  proof -
    have "drop (?fb + length f) buf = drop (length f) (drop ?fb buf)" by (simp add: add.commute)
    also have "\<dots> = more_bytes @ drop ?n (drop ?fb buf)" by (subst buf) simp
    finally show ?thesis using b(7) assms(4) by simp
  qed
  have "\<not> cur_size ad - frame_begin ad < HEADER_SIZE" "\<not> cur_size ad - frame_begin ad < len"
    using b(5) sz f(1,3) by (simp_all add: word_less_nat_alt HEADER_SIZE_def)
  then have nf: "next_frame C ad = (SOCK_ADAPTER_SUCCESS, Some f, ad\<lparr>frame_begin := frame_begin ad + len\<rparr>)"
    using b(1) bi fr f(4) by (simp add: next_frame_def Let_def leD)
  have "adapter_ok (ad\<lparr>frame_begin := frame_begin ad + len\<rparr>)"
    using b nb sz by (simp add: adapter_ok_def word_le_nat_alt)
  moreover have "unread (ad\<lparr>frame_begin := frame_begin ad + len\<rparr>) = more_bytes"
    using b(1,3) nb rest sz by (simp add: unread_def)
  ultimately show ?thesis using nf assms(3) by (simp add: closed_def)
qed

text \<open>Less than a frame stays in the buffer, moved to its start.\<close>

lemma next_frame_partial:
  assumes "caps_header_law C" and "adapter_ok ad" and "\<not> closed ad"
    and "unread ad @ q = f" and "q \<noteq> []" and "is_frame C (buf_size ad) f"
  shows "\<exists>ad'. next_frame C ad = (SOCK_ADAPTER_ENOMORE, None, ad') \<and> adapter_ok ad' \<and>
    unread ad' = unread ad \<and> buf_size ad' = buf_size ad \<and> \<not> closed ad' \<and> info ad' = info ad \<and>
    frame_begin ad' = 0 \<and> unat (cur_size ad') = length (unread ad)"
proof -
  obtain buf where b: "buffer ad = Some buf"
    "unat (cur_size ad - frame_begin ad) = unat (cur_size ad) - unat (frame_begin ad)"
    "unread ad = take (unat (cur_size ad) - unat (frame_begin ad)) (drop (unat (frame_begin ad)) buf)"
    "length (unread ad) = unat (cur_size ad) - unat (frame_begin ad)"
    using open_buffer [OF assms(2,3)] by blast
  let ?sz = "cur_size ad - frame_begin ad" and ?fb = "unat (frame_begin ad)"
  have "next_frame C ad = (SOCK_ADAPTER_ENOMORE, None, nomore ?sz buf ad)"
  proof (cases "?sz < HEADER_SIZE")
    case True
    then show ?thesis using b(1) by (simp add: next_frame_def Let_def)
  next
    case False
    then have l: "8 \<le> length (unread ad)"
      using b(2,4) by (simp add: word_less_nat_alt HEADER_SIZE_def)
    from assms(6) obtain v len where f: "binary_info C f = Some (v, len)"
        "unat len = length f" "len \<le> buf_size ad"
      by (auto simp: is_frame_def split: option.splits)
    have "drop ?fb buf = unread ad @ drop (unat ?sz) (drop ?fb buf)"
      using append_take_drop_id [of "unat ?sz" "drop ?fb buf"] b(2,3) by simp
    then have "binary_info C (drop ?fb buf) = binary_info C (unread ad)"
      using binary_info_prefix [OF assms(1) l] by metis
    then have bi: "binary_info C (drop ?fb buf) = Some (v, len)"
      using binary_info_prefix [OF assms(1) l, of q] assms(4) f(1) by simp
    from assms(4,5) f(2) have "length (unread ad) < unat len" by auto
    then have "?sz < len" "\<not> buf_size ad < len" using b(2,4) f(3) by (simp_all add: word_less_nat_alt word_le_nat_alt)
    with False bi b(1) show ?thesis by (simp add: next_frame_def Let_def)
  qed
  with nomore_ok [OF assms(2) b(1)] b(2,4) show ?thesis by simp
qed

end
