(* ===== verification/CapsRef.thy ===== *)
theory CapsRef
  imports CapsLib
begin

text \<open>
  A concrete instance of the Caps parameter, used by the witnesses only: a Caps object is its
  member list with a read position, and the wire format is an eight-byte header (length, padding)
  followed by a prefix code of the members. It shows that \<open>caps_laws\<close> can hold.
\<close>

section \<open>Byte encoding of words\<close>

definition bytes_of :: "nat \<Rightarrow> nat \<Rightarrow> byte list" where
  "bytes_of n v = map (\<lambda>i. word_of_nat (v div 256 ^ i)) [0..<n]"

fun nat_of :: "byte list \<Rightarrow> nat" where
  "nat_of [] = 0"
| "nat_of (b # bs) = unat b + 256 * nat_of bs"

lemma bytes_of_Suc: "bytes_of (Suc n) v = word_of_nat v # bytes_of n (v div 256)"
proof -
  have "[0..<Suc n] = 0 # map Suc [0..<n]" by (simp add: upt_conv_Cons map_Suc_upt)
  then show ?thesis by (simp add: bytes_of_def div_mult2_eq)
qed

lemma length_bytes_of [simp]: "length (bytes_of n v) = n"
  by (simp add: bytes_of_def)

lemma nat_of_bytes_of: "nat_of (bytes_of n v) = v mod 256 ^ n"
proof (induction n arbitrary: v)
  case 0
  then show ?case by (simp add: bytes_of_def)
next
  case (Suc n)
  have "unat (word_of_nat v :: byte) = v mod 256" by (simp add: unat_of_nat)
  with Suc show ?case by (simp add: bytes_of_Suc mod_mult2_eq)
qed

section \<open>Prefix code of members\<close>

fun enc :: "member \<Rightarrow> byte list" and encs :: "member list \<Rightarrow> byte list" where
  "enc (MInt v) = 1 # bytes_of 4 (unat v)"
| "enc (MLong v) = 2 # bytes_of 8 (unat v)"
| "enc (MStr s) = 3 # bytes_of 4 (length s) @ map (\<lambda>c. word_of_nat (of_char c)) s"
| "enc (MCaps None) = [4]"
| "enc (MCaps (Some ms)) = 5 # encs ms"
| "encs [] = [0]"
| "encs (m # ms) = enc m @ encs ms"

fun dec :: "nat \<Rightarrow> byte list \<Rightarrow> (member list \<times> byte list) option" where
  "dec 0 bs = None"
| "dec (Suc n) [] = None"
| "dec (Suc n) (b # bs) =
     (if b = 0 then Some ([], bs)
      else if b = 1 then
        map_option (apfst (Cons (MInt (word_of_nat (nat_of (take 4 bs)))))) (dec n (drop 4 bs))
      else if b = 2 then
        map_option (apfst (Cons (MLong (word_of_nat (nat_of (take 8 bs)))))) (dec n (drop 8 bs))
      else if b = 3 then
        (let l = nat_of (take 4 bs); bs = drop 4 bs in
         map_option (apfst (Cons (MStr (map (\<lambda>w. char_of (unat w)) (take l bs))))) (dec n (drop l bs)))
      else if b = 4 then map_option (apfst (Cons (MCaps None))) (dec n bs)
      else if b = 5 then
        Option.bind (dec n bs) (\<lambda>(ms, bs). map_option (apfst (Cons (MCaps (Some ms)))) (dec n bs))
      else None)"

text \<open>Strings longer than the length field are not encodable.\<close>

fun small :: "member \<Rightarrow> bool" and smalls :: "member list \<Rightarrow> bool" where
  "small (MStr s) = (length s < 2 ^ 32)"
| "small (MCaps (Some ms)) = smalls ms"
| "small _ = True"
| "smalls [] = True"
| "smalls (m # ms) = (small m \<and> smalls ms)"

lemma take_bytes_of [simp]: "take n (bytes_of n v @ bs) = bytes_of n v"
  and drop_bytes_of [simp]: "drop n (bytes_of n v @ bs) = bs"
  by simp_all

lemma word_unat_mod:
  "unat (v :: 32 word) mod 4294967296 = unat v"
  "unat (w :: 64 word) mod 18446744073709551616 = unat w"
proof -
  have "unat v < 2 ^ LENGTH(32)" and "unat w < 2 ^ LENGTH(64)" by (rule unsigned_less)+
  then show "unat v mod 4294967296 = unat v" "unat w mod 18446744073709551616 = unat w"
    by simp_all
qed

lemma word_bytes_4: "word_of_nat (nat_of (bytes_of 4 (unat (v :: 32 word)))) = v"
  by (simp add: nat_of_bytes_of word_unat_mod)

lemma word_bytes_8: "word_of_nat (nat_of (bytes_of 8 (unat (v :: 64 word)))) = v"
  by (simp add: nat_of_bytes_of word_unat_mod)

lemma char_roundtrip: "map (\<lambda>w :: byte. char_of (unat w)) (map (\<lambda>c. word_of_nat (of_char c)) s) = s"
proof -
  have "char_of (unat (word_of_nat (of_char c) :: byte)) = c" for c
    by (simp add: unat_of_nat)
  then show ?thesis by (simp add: comp_def map_idI)
qed

lemma map_enc_take: "take (length s) (map f s @ bs) = map f s"
  and map_enc_drop: "drop (length s) (map f s @ bs) = bs"
  by simp_all

lemma encs_nonempty: "encs ms \<noteq> []"
  by (induction ms) auto

lemma dec_encs: "smalls ks \<Longrightarrow> length (encs ks) \<le> n \<Longrightarrow> dec n (encs ks @ bs) = Some (ks, bs)"
proof (induction n arbitrary: ks bs)
  case 0
  then show ?case using encs_nonempty [of ks] by simp
next
  case (Suc n)
  show ?case
  proof (cases ks)
    case (Cons m ms)
    with Suc.prems have ms: "smalls ms" by simp
    show ?thesis
    proof (cases m)
      case (MInt v)
      with Cons Suc.prems have "dec n (encs ms @ bs) = Some (ms, bs)"
        by (intro Suc.IH ms) simp
      with Cons MInt show ?thesis by (simp add: word_bytes_4)
    next
      case (MLong v)
      with Cons Suc.prems have "dec n (encs ms @ bs) = Some (ms, bs)"
        by (intro Suc.IH ms) simp
      with Cons MLong show ?thesis by (simp add: word_bytes_8)
    next
      case (MStr s)
      with Cons Suc.prems have d: "dec n (encs ms @ bs) = Some (ms, bs)"
        by (intro Suc.IH ms) simp
      from MStr Cons Suc.prems have "nat_of (bytes_of 4 (length s)) = length s"
        by (simp add: nat_of_bytes_of)
      with Cons MStr d show ?thesis
        by (simp add: Let_def map_enc_take map_enc_drop char_roundtrip del: map_map)
    next
      case (MCaps p)
      show ?thesis
      proof (cases p)
        case None
        with Cons MCaps Suc.prems have "dec n (encs ms @ bs) = Some (ms, bs)"
          by (intro Suc.IH ms) simp
        with Cons MCaps None show ?thesis by simp
      next
        case (Some xs)
        with Cons MCaps Suc.prems have "dec n (encs xs @ encs ms @ bs) = Some (xs, encs ms @ bs)"
            and "dec n (encs ms @ bs) = Some (ms, bs)"
          by (auto intro!: Suc.IH)
        with Cons MCaps Some show ?thesis by simp
      qed
    qed
  qed simp
qed

section \<open>The instance\<close>

record ref_caps =
  members :: "member list"
  pos :: nat

definition ref_rest :: "ref_caps \<Rightarrow> member list" where
  "ref_rest c = drop (pos c) (members c)"

definition append_member :: "member \<Rightarrow> ref_caps \<Rightarrow> ref_caps" where
  "append_member m c = c\<lparr>members := members c @ [m]\<rparr>"

definition read_member :: "(member \<Rightarrow> 'a option) \<Rightarrow> ref_caps \<Rightarrow> 'a option \<times> ref_caps" where
  "read_member f c =
     (case ref_rest c of [] \<Rightarrow> (None, c)
      | m # _ \<Rightarrow> (case f m of None \<Rightarrow> (None, c) | Some x \<Rightarrow> (Some x, c\<lparr>pos := Suc (pos c)\<rparr>)))"

fun as_int :: "member \<Rightarrow> u32 option" where
  "as_int (MInt v) = Some v" | "as_int _ = None"

fun as_long :: "member \<Rightarrow> u64 option" where
  "as_long (MLong v) = Some v" | "as_long _ = None"

fun as_str :: "member \<Rightarrow> string option" where
  "as_str (MStr v) = Some v" | "as_str _ = None"

fun as_caps :: "member \<Rightarrow> ref_caps option option" where
  "as_caps (MCaps p) = Some (map_option (\<lambda>ms. \<lparr>members = ms, pos = 0\<rparr>) p)" | "as_caps _ = None"

definition ref_serialize :: "u32 \<Rightarrow> u32 \<Rightarrow> ref_caps \<Rightarrow> i32 \<times> byte list" where
  "ref_serialize sz flags c =
     (let n = 8 + length (encs (members c)) in
      if n < 2 ^ 31 \<and> smalls (members c)
      then (word_of_nat n, if n \<le> unat sz then bytes_of 8 n @ encs (members c) else [])
      else (- 1, []))"

definition ref_parse :: "byte list \<Rightarrow> ref_caps option" where
  "ref_parse bs =
     (if length bs < 8 then None
      else map_option (\<lambda>(ms, _). \<lparr>members = ms, pos = 0\<rparr>) (dec (length bs) (drop 8 bs)))"

definition ref_ops :: "ref_caps caps_ops" where
  "ref_ops = \<lparr>
     new_instance = \<lparr>members = [], pos = 0\<rparr>,
     write_i32 = (\<lambda>v. append_member (MInt v)),
     write_u32 = (\<lambda>v. append_member (MInt v)),
     write_u64 = (\<lambda>v. append_member (MLong v)),
     write_cstr = (\<lambda>p. case p of None \<Rightarrow> (\<lambda>c. c) | Some s \<Rightarrow> append_member (MStr s)),
     write_string = (\<lambda>s. append_member (MStr s)),
     write_caps = (\<lambda>p. append_member (MCaps (map_option members p))),
     read_i32 = read_member as_int,
     read_u32 = read_member as_int,
     read_u64 = read_member as_long,
     read_string = read_member as_str,
     read_caps = read_member as_caps,
     serialize = ref_serialize,
     caps_parse = ref_parse,
     binary_info = (\<lambda>bs. if length bs < 8 then None
                         else Some (5, word_of_nat (nat_of (take 8 bs)))),
     CAPS_FLAG_NET_BYTEORDER = 128\<rparr>"

lemma drop_Suc_Cons: "drop n xs = y # ys \<Longrightarrow> drop (Suc n) xs = ys"
  by (metis drop_Suc list.sel(3) tl_drop)

lemma read_member_Cons:
  assumes "ref_rest c = m # ms" and "f m = Some x"
  shows "\<exists>c'. read_member f c = (Some x, c') \<and> ref_rest c' = ms"
  using assms by (simp add: read_member_def ref_rest_def drop_Suc_Cons)

lemma ref_write_laws: "caps_write_laws ref_ops members"
  by (auto simp: caps_write_laws_def ref_ops_def append_member_def)

lemma ref_read_laws: "caps_read_laws ref_ops members ref_rest"
  unfolding caps_read_laws_def ref_ops_def
  by (auto simp: read_member_def ref_rest_def drop_Suc_Cons)

lemma ref_fits:
  assumes "ref_serialize sz flags c = (r, bs)" and "0 \<le> sint r" and "r \<le> sz"
  shows "smalls (members c)" and "unat r = 8 + length (encs (members c))"
    and "bs = bytes_of 8 (unat r) @ encs (members c)" and "unat r < 2 ^ 31"
proof -
  let ?n = "8 + length (encs (members c))"
  from assms(1,2) have n: "?n < 2 ^ 31" and sm: "smalls (members c)" and r: "r = word_of_nat ?n"
    by (auto simp: ref_serialize_def Let_def split: if_splits)
  from n have u: "unat r = ?n" unfolding r unat_of_nat by simp
  with assms(3) have "?n \<le> unat sz" by (simp add: word_le_nat_alt)
  with assms(1) n sm u show "smalls (members c)" "unat r = ?n" "unat r < 2 ^ 31"
      "bs = bytes_of 8 (unat r) @ encs (members c)"
    by (auto simp: ref_serialize_def Let_def split: if_splits)
qed

lemma ref_wire_laws: "caps_wire_laws ref_ops members ref_rest"
  unfolding caps_wire_laws_def
proof (intro conjI allI impI)
  show "caps_header_law ref_ops" by (simp add: caps_header_law_def ref_ops_def)
next
  fix c sz flags r bs
  assume ser: "serialize ref_ops sz flags c = (r, bs)" and r: "0 \<le> sint r" "r \<le> sz"
  then have "ref_serialize sz flags c = (r, bs)" by (simp add: ref_ops_def)
  note f = ref_fits [OF this r]
  have "nat_of (bytes_of 8 (unat r)) = unat r" using f(4) by (simp add: nat_of_bytes_of)
  then have info: "binary_info ref_ops bs = Some (5, r)"
    by (simp add: ref_ops_def f(3))
  have "dec (length bs) (encs (members c) @ []) = Some (members c, [])"
    using f(1,3) by (intro dec_encs) simp_all
  then have "caps_parse ref_ops bs = Some \<lparr>members = members c, pos = 0\<rparr>"
    by (simp add: ref_ops_def ref_parse_def f(3))
  then show "\<exists>c'. caps_parse ref_ops bs = Some c' \<and> members c' = members c \<and> ref_rest c' = members c"
    by (simp add: ref_rest_def)
  show "length bs = unat r" and "8 \<le> r"
    using f(2,3) by (simp_all add: word_le_nat_alt)
  show "\<exists>v. binary_info ref_ops bs = Some (v, r)" using info by blast
qed

lemma ref_laws: "caps_laws ref_ops members ref_rest"
  by (simp add: caps_laws_def ref_write_laws ref_read_laws ref_wire_laws)

end
