(* ===== verification/SerHelper.thy ===== *)
theory SerHelper
  imports Adapter CapsRef
begin

text \<open>
  \<open>src/ser-helper.cc\<close>: the four classes that turn protocol messages into Caps objects on the
  wire and back. A serialiser returns the length of the message, or -1 when it does not fit the
  buffer of \<open>sz\<close> bytes, with the bytes it put into that buffer; a parser works on an object
  whose command word has been read and gives \<open>None\<close> where the code returns -1.
\<close>

section \<open>Helpers\<close>

text \<open>The tail every serialiser has: the result of \<open>Caps::serialize\<close> is refused when negative
  or larger than the buffer.\<close>

definition ser_check :: "u32 \<Rightarrow> i32 \<times> byte list \<Rightarrow> i32 \<times> byte list" where
  "ser_check sz rb = (case rb of (r, bs) \<Rightarrow>
     if sint r < 0 then (- 1, bs) else if sz < r then (- 1, bs) else (r, bs))"

text \<open>\<open>if (caps->read(x) != CAPS_SUCCESS) return -1;\<close> followed by the rest of the parser.\<close>

definition rd :: "'a option \<times> 'c \<Rightarrow> ('a \<Rightarrow> 'c \<Rightarrow> 'b option) \<Rightarrow> 'b option" where
  "rd m f = (case m of (None, _) \<Rightarrow> None | (Some x, c) \<Rightarrow> f x c)"

lemma rd_simps [simp]: "rd (None, c) f = None" "rd (Some x, c) f = f x c"
  by (simp_all add: rd_def)

section \<open>\<open>RequestSerializer\<close>\<close>

definition req_serialize_auth ::
  "'c caps_ops \<Rightarrow> u32 \<Rightarrow> string option \<Rightarrow> i32 \<Rightarrow> u32 \<Rightarrow> u32 \<Rightarrow> u32 \<Rightarrow> i32 \<times> byte list" where [ser_defs]:
  "req_serialize_auth C version extra pid flags sz ser_flags =
   (let caps = new_instance C;
    caps = write_i32 C CMD_AUTH_REQ caps;
    caps = write_u32 C version caps;
    caps = write_cstr C extra caps;
    caps = write_i32 C pid caps;
    caps = write_u32 C flags caps
    in ser_check sz (serialize C sz ser_flags caps))"

definition req_serialize_subscribe ::
  "'c caps_ops \<Rightarrow> string option \<Rightarrow> u32 \<Rightarrow> u32 \<Rightarrow> i32 \<times> byte list" where [ser_defs]:
  "req_serialize_subscribe C name sz flags =
   (let caps = new_instance C;
    caps = write_i32 C CMD_SUBSCRIBE_REQ caps;
    caps = write_cstr C name caps
    in ser_check sz (serialize C sz flags caps))"

definition req_serialize_unsubscribe ::
  "'c caps_ops \<Rightarrow> string option \<Rightarrow> u32 \<Rightarrow> u32 \<Rightarrow> i32 \<times> byte list" where [ser_defs]:
  "req_serialize_unsubscribe C name sz flags =
   (let caps = new_instance C;
    caps = write_i32 C CMD_UNSUBSCRIBE_REQ caps;
    caps = write_cstr C name caps
    in ser_check sz (serialize C sz flags caps))"

definition req_serialize_declare_method ::
  "'c caps_ops \<Rightarrow> string option \<Rightarrow> u32 \<Rightarrow> u32 \<Rightarrow> i32 \<times> byte list" where [ser_defs]:
  "req_serialize_declare_method C name sz flags =
   (let caps = new_instance C;
    caps = write_i32 C CMD_DECLARE_METHOD_REQ caps;
    caps = write_cstr C name caps
    in ser_check sz (serialize C sz flags caps))"

definition req_serialize_remove_method ::
  "'c caps_ops \<Rightarrow> string option \<Rightarrow> u32 \<Rightarrow> u32 \<Rightarrow> i32 \<times> byte list" where [ser_defs]:
  "req_serialize_remove_method C name sz flags =
   (let caps = new_instance C;
    caps = write_i32 C CMD_REMOVE_METHOD_REQ caps;
    caps = write_cstr C name caps
    in ser_check sz (serialize C sz flags caps))"

definition req_serialize_post ::
  "'c caps_ops \<Rightarrow> string option \<Rightarrow> u32 \<Rightarrow> 'c option \<Rightarrow> u32 \<Rightarrow> u32 \<Rightarrow> i32 \<times> byte list" where [ser_defs]:
  "req_serialize_post C name msgtype args sz flags =
   (let caps = new_instance C;
    caps = write_i32 C CMD_POST_REQ caps;
    caps = write_u32 C msgtype caps;
    caps = write_cstr C name caps;
    caps = write_caps C args caps
    in ser_check sz (serialize C sz flags caps))"

definition req_serialize_call ::
  "'c caps_ops \<Rightarrow> string option \<Rightarrow> 'c option \<Rightarrow> string option \<Rightarrow> i32 \<Rightarrow> u32 \<Rightarrow> u32 \<Rightarrow> u32 \<Rightarrow> i32 \<times> byte list" where [ser_defs]:
  "req_serialize_call C name args target msgid timeout sz flags =
   (let caps = new_instance C;
    caps = write_i32 C CMD_CALL_REQ caps;
    caps = write_cstr C name caps;
    caps = write_cstr C target caps;
    caps = write_i32 C msgid caps;
    caps = write_u32 C timeout caps;
    caps = write_caps C args caps
    in ser_check sz (serialize C sz flags caps))"

definition req_serialize_reply ::
  "'c caps_ops \<Rightarrow> i32 \<Rightarrow> i32 \<Rightarrow> 'c option \<Rightarrow> u32 \<Rightarrow> u32 \<Rightarrow> i32 \<times> byte list" where [ser_defs]:
  "req_serialize_reply C msgid code values sz flags =
   (let caps = new_instance C;
    caps = write_i32 C CMD_REPLY_REQ caps;
    caps = write_i32 C msgid caps;
    caps = write_i32 C code caps;
    caps = write_caps C values caps
    in ser_check sz (serialize C sz flags caps))"

definition req_serialize_ping ::
  "'c caps_ops \<Rightarrow> u32 \<Rightarrow> u32 \<Rightarrow> i32 \<times> byte list" where [ser_defs]:
  "req_serialize_ping C sz flags =
   (let caps = new_instance C;
    caps = write_i32 C CMD_PING_REQ caps
    in ser_check sz (serialize C sz flags caps))"

section \<open>\<open>ResponseSerializer\<close>\<close>

definition resp_serialize_auth ::
  "'c caps_ops \<Rightarrow> i32 \<Rightarrow> u32 \<Rightarrow> u32 \<Rightarrow> u32 \<Rightarrow> i32 \<times> byte list" where [ser_defs]:
  "resp_serialize_auth C result version sz flags =
   (let caps = new_instance C;
    caps = write_i32 C CMD_AUTH_RESP caps;
    caps = write_i32 C result caps;
    caps = write_u32 C version caps
    in ser_check sz (serialize C sz flags caps))"

definition resp_serialize_post ::
  "'c caps_ops \<Rightarrow> string option \<Rightarrow> u32 \<Rightarrow> 'c option \<Rightarrow> u64 \<Rightarrow> string option \<Rightarrow> u32 \<Rightarrow> u32 \<Rightarrow> i32 \<times> byte list" where [ser_defs]:
  "resp_serialize_post C name msgtype args tg cliname sz flags =
   (let caps = new_instance C;
    caps = write_i32 C CMD_POST_RESP caps;
    caps = write_u32 C msgtype caps;
    caps = write_cstr C name caps;
    caps = write_caps C args caps;
    caps = write_u64 C tg caps;
    caps = write_cstr C cliname caps
    in ser_check sz (serialize C sz flags caps))"

definition resp_serialize_call ::
  "'c caps_ops \<Rightarrow> string option \<Rightarrow> 'c option \<Rightarrow> i32 \<Rightarrow> u64 \<Rightarrow> string option \<Rightarrow> u32 \<Rightarrow> u32 \<Rightarrow> i32 \<times> byte list" where [ser_defs]:
  "resp_serialize_call C name args msgid tg cliname sz flags =
   (let caps = new_instance C;
    caps = write_i32 C CMD_CALL_RESP caps;
    caps = write_i32 C msgid caps;
    caps = write_cstr C name caps;
    caps = write_caps C args caps;
    caps = write_u64 C tg caps;
    caps = write_cstr C cliname caps
    in ser_check sz (serialize C sz flags caps))"

text \<open>The \<open>Response *\<close> is dereferenced only for \<open>FLORA_CLI_SUCCESS\<close>; every caller that passes
  that code passes a response, so \<open>None\<close> with it does not occur.\<close>

definition resp_serialize_reply ::
  "'c caps_ops \<Rightarrow> i32 \<Rightarrow> i32 \<Rightarrow> 'c response option \<Rightarrow> u64 \<Rightarrow> u32 \<Rightarrow> u32 \<Rightarrow> i32 \<times> byte list" where [ser_defs]:
  "resp_serialize_reply C msgid rescode reply tg sz flags =
   (let caps = new_instance C;
    caps = write_i32 C CMD_REPLY_RESP caps;
    caps = write_i32 C msgid caps;
    caps = write_i32 C rescode caps;
    caps = (if rescode = FLORA_CLI_SUCCESS then
              (let caps = write_i32 C (ret_code (the reply)) caps;
                   caps = write_caps C (resp_data (the reply)) caps
               in write_cstr C (Some (c_str (resp_extra (the reply)))) caps)
            else caps);
    caps = write_u64 C tg caps
    in ser_check sz (serialize C sz flags caps))"

definition serialize_monitor_list_item :: "'c caps_ops \<Rightarrow> adapter_info \<Rightarrow> 'c" where [ser_defs]:
  "serialize_monitor_list_item C i =
   (let r = new_instance C;
    r = write_u32 C (ai_id i) r;
    r = write_i32 C (ai_pid i) r;
    r = write_string C (ai_name i) r
    in write_u32 C (ai_flags i) r)"

fun write_items :: "'c caps_ops \<Rightarrow> (aid \<times> adapter_info) list \<Rightarrow> 'c \<Rightarrow> 'c" where
  "write_items C [] p = p"
| "write_items C ((k, i) # infos) p =
     write_items C infos (write_caps C (Some (serialize_monitor_list_item C i)) p)"

definition resp_serialize_monitor_list_all ::
  "'c caps_ops \<Rightarrow> (aid \<times> adapter_info) list \<Rightarrow> u32 \<Rightarrow> u32 \<Rightarrow> i32 \<times> byte list" where [ser_defs]:
  "resp_serialize_monitor_list_all C infos sz flags =
   (let p = new_instance C;
    p = write_i32 C CMD_MONITOR_RESP p;
    p = write_i32 C MONITOR_LIST_ALL p;
    p = write_i32 C (word_of_nat (length infos)) p;
    p = write_items C infos p
    in ser_check sz (serialize C sz flags p))"

definition resp_serialize_monitor_list_add ::
  "'c caps_ops \<Rightarrow> adapter_info \<Rightarrow> u32 \<Rightarrow> u32 \<Rightarrow> i32 \<times> byte list" where [ser_defs]:
  "resp_serialize_monitor_list_add C i sz flags =
   (let p = new_instance C;
    p = write_i32 C CMD_MONITOR_RESP p;
    p = write_i32 C MONITOR_LIST_ADD p;
    p = write_caps C (Some (serialize_monitor_list_item C i)) p
    in ser_check sz (serialize C sz flags p))"

definition resp_serialize_monitor_list_remove ::
  "'c caps_ops \<Rightarrow> u32 \<Rightarrow> u32 \<Rightarrow> u32 \<Rightarrow> i32 \<times> byte list" where [ser_defs]:
  "resp_serialize_monitor_list_remove C msgid sz flags =
   (let p = new_instance C;
    p = write_i32 C CMD_MONITOR_RESP p;
    p = write_i32 C MONITOR_LIST_REMOVE p;
    p = write_u32 C msgid p
    in ser_check sz (serialize C sz flags p))"

text \<open>The detail messages of the monitor protocol are stubs: every one of these serialisers
  returns -1 without touching the buffer.\<close>

definition resp_serialize_monitor_sub_all ::
  "(aid \<times> adapter_info) list \<Rightarrow> u32 \<Rightarrow> u32 \<Rightarrow> i32" where
  "resp_serialize_monitor_sub_all infos sz flags = - 1"

definition resp_serialize_monitor_sub_add :: "u32 \<Rightarrow> string \<Rightarrow> u32 \<Rightarrow> u32 \<Rightarrow> i32" where
  "resp_serialize_monitor_sub_add msgid name sz flags = - 1"

definition resp_serialize_monitor_sub_remove :: "u32 \<Rightarrow> string \<Rightarrow> u32 \<Rightarrow> u32 \<Rightarrow> i32" where
  "resp_serialize_monitor_sub_remove msgid name sz flags = - 1"

definition resp_serialize_monitor_decl_all ::
  "(aid \<times> adapter_info) list \<Rightarrow> u32 \<Rightarrow> u32 \<Rightarrow> i32" where
  "resp_serialize_monitor_decl_all infos sz flags = - 1"

definition resp_serialize_monitor_decl_add :: "u32 \<Rightarrow> string \<Rightarrow> u32 \<Rightarrow> u32 \<Rightarrow> i32" where
  "resp_serialize_monitor_decl_add msgid name sz flags = - 1"

definition resp_serialize_monitor_decl_remove :: "u32 \<Rightarrow> string \<Rightarrow> u32 \<Rightarrow> u32 \<Rightarrow> i32" where
  "resp_serialize_monitor_decl_remove msgid name sz flags = - 1"

definition resp_serialize_monitor_post :: "u32 \<Rightarrow> string \<Rightarrow> u32 \<Rightarrow> u32 \<Rightarrow> i32" where
  "resp_serialize_monitor_post from_id name sz flags = - 1"

definition resp_serialize_monitor_call ::
  "u32 \<Rightarrow> string \<Rightarrow> string \<Rightarrow> i32 \<Rightarrow> u32 \<Rightarrow> u32 \<Rightarrow> i32" where
  "resp_serialize_monitor_call from_id name target err sz flags = - 1"

definition resp_serialize_pong ::
  "'c caps_ops \<Rightarrow> u32 \<Rightarrow> u32 \<Rightarrow> i32 \<times> byte list" where [ser_defs]:
  "resp_serialize_pong C sz flags =
   (let caps = new_instance C;
    caps = write_i32 C CMD_PONG_RESP caps
    in ser_check sz (serialize C sz flags caps))"

section \<open>\<open>RequestParser\<close>\<close>

text \<open>A missing \<open>pid\<close> or \<open>flags\<close> is not an error: older clients do not send them.\<close>

definition req_parse_auth :: "'c caps_ops \<Rightarrow> 'c \<Rightarrow> (u32 \<times> string \<times> i32 \<times> u32) option" where [ser_defs]:
  "req_parse_auth C caps =
     rd (read_u32 C caps) (\<lambda>version caps.
     rd (read_string C caps) (\<lambda>extra caps.
       (let (opid, caps) = read_i32 C caps;
            pid = (case opid of None \<Rightarrow> 0 | Some p \<Rightarrow> p);
            (oflags, caps) = read_u32 C caps;
            flags = (case oflags of None \<Rightarrow> 0 | Some f \<Rightarrow> f)
        in Some (version, extra, pid, flags))))"

definition req_parse_subscribe :: "'c caps_ops \<Rightarrow> 'c \<Rightarrow> string option" where [ser_defs]:
  "req_parse_subscribe C caps = rd (read_string C caps) (\<lambda>name caps. Some name)"

definition req_parse_unsubscribe :: "'c caps_ops \<Rightarrow> 'c \<Rightarrow> string option" where [ser_defs]:
  "req_parse_unsubscribe C caps = rd (read_string C caps) (\<lambda>name caps. Some name)"

definition req_parse_declare_method :: "'c caps_ops \<Rightarrow> 'c \<Rightarrow> string option" where [ser_defs]:
  "req_parse_declare_method C caps = rd (read_string C caps) (\<lambda>name caps. Some name)"

definition req_parse_remove_method :: "'c caps_ops \<Rightarrow> 'c \<Rightarrow> string option" where [ser_defs]:
  "req_parse_remove_method C caps = rd (read_string C caps) (\<lambda>name caps. Some name)"

definition req_parse_post :: "'c caps_ops \<Rightarrow> 'c \<Rightarrow> (string \<times> u32 \<times> 'c option) option" where [ser_defs]:
  "req_parse_post C caps =
     rd (read_u32 C caps) (\<lambda>msgtype caps.
     rd (read_string C caps) (\<lambda>name caps.
     rd (read_caps C caps) (\<lambda>args caps.
       Some (name, msgtype, args))))"

definition req_parse_call :: "'c caps_ops \<Rightarrow> 'c \<Rightarrow> (string \<times> 'c option \<times> string \<times> i32 \<times> u32) option" where [ser_defs]:
  "req_parse_call C caps =
     rd (read_string C caps) (\<lambda>name caps.
     rd (read_string C caps) (\<lambda>target caps.
     rd (read_i32 C caps) (\<lambda>msgid caps.
     rd (read_u32 C caps) (\<lambda>timeout caps.
     rd (read_caps C caps) (\<lambda>args caps.
       Some (name, args, target, msgid, timeout))))))"

definition req_parse_reply :: "'c caps_ops \<Rightarrow> 'c \<Rightarrow> (i32 \<times> i32 \<times> 'c option) option" where [ser_defs]:
  "req_parse_reply C caps =
     rd (read_i32 C caps) (\<lambda>msgid caps.
     rd (read_i32 C caps) (\<lambda>code caps.
     rd (read_caps C caps) (\<lambda>values caps.
       Some (msgid, code, values))))"

section \<open>\<open>ResponseParser\<close>\<close>

definition resp_parse_auth :: "'c caps_ops \<Rightarrow> 'c \<Rightarrow> (i32 \<times> u32) option" where [ser_defs]:
  "resp_parse_auth C caps =
     rd (read_i32 C caps) (\<lambda>result caps.
     rd (read_u32 C caps) (\<lambda>version caps.
       Some (result, version)))"

definition resp_parse_post :: "'c caps_ops \<Rightarrow> 'c \<Rightarrow> (string \<times> u32 \<times> 'c option \<times> u64 \<times> string) option" where [ser_defs]:
  "resp_parse_post C caps =
     rd (read_u32 C caps) (\<lambda>msgtype caps.
     rd (read_string C caps) (\<lambda>name caps.
     rd (read_caps C caps) (\<lambda>args caps.
     rd (read_u64 C caps) (\<lambda>tg caps.
     rd (read_string C caps) (\<lambda>cliname caps.
       Some (name, msgtype, args, tg, cliname))))))"

definition resp_parse_call :: "'c caps_ops \<Rightarrow> 'c \<Rightarrow> (string \<times> 'c option \<times> i32 \<times> u64 \<times> string) option" where [ser_defs]:
  "resp_parse_call C caps =
     rd (read_i32 C caps) (\<lambda>msgid caps.
     rd (read_string C caps) (\<lambda>name caps.
     rd (read_caps C caps) (\<lambda>args caps.
     rd (read_u64 C caps) (\<lambda>tg caps.
     rd (read_string C caps) (\<lambda>cliname caps.
       Some (name, args, msgid, tg, cliname))))))"

text \<open>The response keeps its previous fields when the call failed.\<close>

definition resp_parse_reply ::
  "'c caps_ops \<Rightarrow> 'c response \<Rightarrow> 'c \<Rightarrow> (i32 \<times> i32 \<times> 'c response \<times> u64) option" where [ser_defs]:
  "resp_parse_reply C reply caps =
     rd (read_i32 C caps) (\<lambda>msgid caps.
     rd (read_i32 C caps) (\<lambda>rescode caps.
       if rescode = FLORA_CLI_SUCCESS then
         rd (read_i32 C caps) (\<lambda>rc caps.
         rd (read_caps C caps) (\<lambda>data caps.
         rd (read_string C caps) (\<lambda>ex caps.
         rd (read_u64 C caps) (\<lambda>tg caps.
           Some (msgid, rescode, reply\<lparr>ret_code := rc, resp_data := data, resp_extra := ex\<rparr>, tg)))))
       else
         rd (read_u64 C caps) (\<lambda>tg caps. Some (msgid, rescode, reply, tg))))"

definition parse_list_item :: "'c caps_ops \<Rightarrow> 'c \<Rightarrow> monitor_list_item option" where [ser_defs]:
  "parse_list_item C sub =
     rd (read_u32 C sub) (\<lambda>msgid sub.
     rd (read_i32 C sub) (\<lambda>pid sub.
     rd (read_string C sub) (\<lambda>name sub.
     rd (read_u32 C sub) (\<lambda>flags sub.
       Some \<lparr>mli_id = msgid, mli_pid = pid, mli_name = name, mli_flags = flags\<rparr>))))"

text \<open>The loop of \<open>parse_monitor_list_all\<close> runs until \<open>read(sub)\<close> fails. The outer \<open>None\<close> is a
  loop that does not end or a null \<open>sub\<close> that is dereferenced; the inner one is the result -1.\<close>

partial_function (option) parse_list_loop ::
  "'c caps_ops \<Rightarrow> u32 \<Rightarrow> 'c \<Rightarrow> monitor_list_item list \<Rightarrow> monitor_list_item list option option" where
  "parse_list_loop C n caps infos =
     (case read_caps C caps of
        (None, _) \<Rightarrow> Some (if length infos = unat n then Some infos else None)
      | (Some None, _) \<Rightarrow> None
      | (Some (Some sub), caps) \<Rightarrow>
          (case parse_list_item C sub of
             None \<Rightarrow> Some None
           | Some item \<Rightarrow> parse_list_loop C n caps (infos @ [item])))"

definition resp_parse_monitor_list_all ::
  "'c caps_ops \<Rightarrow> 'c \<Rightarrow> monitor_list_item list option option" where [ser_defs]:
  "resp_parse_monitor_list_all C caps =
     (case read_u32 C caps of
        (None, _) \<Rightarrow> Some None
      | (Some n, caps) \<Rightarrow> if n = 0 then Some (Some []) else parse_list_loop C n caps [])"

text \<open>As above, the outer \<open>None\<close> is the dereference of a null \<open>sub\<close>.\<close>

definition resp_parse_monitor_list_add ::
  "'c caps_ops \<Rightarrow> 'c \<Rightarrow> monitor_list_item option option" where [ser_defs]:
  "resp_parse_monitor_list_add C caps =
     (case read_caps C caps of
        (None, _) \<Rightarrow> Some None
      | (Some None, _) \<Rightarrow> None
      | (Some (Some sub), caps) \<Rightarrow> Some (parse_list_item C sub))"

definition resp_parse_monitor_list_remove :: "'c caps_ops \<Rightarrow> 'c \<Rightarrow> u32 option" where [ser_defs]:
  "resp_parse_monitor_list_remove C caps = rd (read_u32 C caps) (\<lambda>msgid caps. Some msgid)"

text \<open>The parsers of the detail messages are stubs as well.\<close>

definition resp_parse_monitor_sub_all :: "'c \<Rightarrow> i32" where
  "resp_parse_monitor_sub_all caps = - 1"

definition resp_parse_monitor_sub_add :: "'c \<Rightarrow> i32" where
  "resp_parse_monitor_sub_add caps = - 1"

definition resp_parse_monitor_sub_remove :: "'c \<Rightarrow> i32" where
  "resp_parse_monitor_sub_remove caps = - 1"

definition resp_parse_monitor_decl_all :: "'c \<Rightarrow> i32" where
  "resp_parse_monitor_decl_all caps = - 1"

definition resp_parse_monitor_decl_add :: "'c \<Rightarrow> i32" where
  "resp_parse_monitor_decl_add caps = - 1"

definition resp_parse_monitor_decl_remove :: "'c \<Rightarrow> i32" where
  "resp_parse_monitor_decl_remove caps = - 1"

definition resp_parse_monitor_post :: "'c \<Rightarrow> i32" where
  "resp_parse_monitor_post caps = - 1"

definition resp_parse_monitor_call :: "'c \<Rightarrow> i32" where
  "resp_parse_monitor_call caps = - 1"

definition is_valid_msgtype :: "u32 \<Rightarrow> bool" where
  "is_valid_msgtype msgtype \<longleftrightarrow> msgtype < FLORA_NUMBER_OF_MSGTYPE"

section \<open>The messages of the protocol\<close>

text \<open>
  The specification of the encoding: the nine requests and the eight responses as data. Arguments
  that are Caps objects are compared by their members (\<open>map_request content\<close>).
\<close>

datatype 'c request =
    Auth u32 string i32 u32
  | Subscribe string
  | Unsubscribe string
  | Post string u32 "'c option"
  | Reply i32 i32 "'c option"
  | DeclareMethod string
  | RemoveMethod string
  | Call string "'c option" string i32 u32
  | Ping

fun serialize_request :: "'c caps_ops \<Rightarrow> 'c request \<Rightarrow> u32 \<Rightarrow> u32 \<Rightarrow> i32 \<times> byte list" where
  "serialize_request C (Auth version extra pid flags) sz fl =
     req_serialize_auth C version (Some extra) pid flags sz fl"
| "serialize_request C (Subscribe name) sz fl = req_serialize_subscribe C (Some name) sz fl"
| "serialize_request C (Unsubscribe name) sz fl = req_serialize_unsubscribe C (Some name) sz fl"
| "serialize_request C (Post name msgtype args) sz fl =
     req_serialize_post C (Some name) msgtype args sz fl"
| "serialize_request C (Reply msgid code values) sz fl =
     req_serialize_reply C msgid code values sz fl"
| "serialize_request C (DeclareMethod name) sz fl = req_serialize_declare_method C (Some name) sz fl"
| "serialize_request C (RemoveMethod name) sz fl = req_serialize_remove_method C (Some name) sz fl"
| "serialize_request C (Call name args target msgid timeout) sz fl =
     req_serialize_call C (Some name) args (Some target) msgid timeout sz fl"
| "serialize_request C Ping sz fl = req_serialize_ping C sz fl"

text \<open>What the service does with a message: the command word selects the parser.\<close>

definition parse_request :: "'c caps_ops \<Rightarrow> 'c \<Rightarrow> 'c request option" where
  "parse_request C caps = rd (read_i32 C caps) (\<lambda>cmd caps.
     if cmd = CMD_AUTH_REQ then map_option (\<lambda>(v, e, p, f). Auth v e p f) (req_parse_auth C caps)
     else if cmd = CMD_SUBSCRIBE_REQ then map_option Subscribe (req_parse_subscribe C caps)
     else if cmd = CMD_UNSUBSCRIBE_REQ then map_option Unsubscribe (req_parse_unsubscribe C caps)
     else if cmd = CMD_POST_REQ then map_option (\<lambda>(n, t, a). Post n t a) (req_parse_post C caps)
     else if cmd = CMD_REPLY_REQ then map_option (\<lambda>(i, c, v). Reply i c v) (req_parse_reply C caps)
     else if cmd = CMD_DECLARE_METHOD_REQ then
       map_option DeclareMethod (req_parse_declare_method C caps)
     else if cmd = CMD_REMOVE_METHOD_REQ then
       map_option RemoveMethod (req_parse_remove_method C caps)
     else if cmd = CMD_CALL_REQ then
       map_option (\<lambda>(n, a, tg, i, t). Call n a tg i t) (req_parse_call C caps)
     else if cmd = CMD_PING_REQ then Some Ping
     else None)"

datatype 'c resp_msg =
    AuthResp i32 u32
  | PostResp string u32 "'c option" u64 string
  | CallResp string "'c option" i32 u64 string
  | ReplyResp i32 i32 "'c option" string u64  \<comment> \<open>success: id, return code, data, extra, tag\<close>
  | ReplyErr i32 i32 u64  \<comment> \<open>id, error, tag\<close>
  | Pong

fun serialize_response :: "'c caps_ops \<Rightarrow> 'c resp_msg \<Rightarrow> u32 \<Rightarrow> u32 \<Rightarrow> i32 \<times> byte list" where
  "serialize_response C (AuthResp result version) sz fl = resp_serialize_auth C result version sz fl"
| "serialize_response C (PostResp name msgtype args tg cliname) sz fl =
     resp_serialize_post C (Some name) msgtype args tg (Some cliname) sz fl"
| "serialize_response C (CallResp name args msgid tg cliname) sz fl =
     resp_serialize_call C (Some name) args msgid tg (Some cliname) sz fl"
| "serialize_response C (ReplyResp msgid rc data ex tg) sz fl =
     resp_serialize_reply C msgid FLORA_CLI_SUCCESS
       (Some \<lparr>ret_code = rc, resp_data = data, resp_extra = ex\<rparr>) tg sz fl"
| "serialize_response C (ReplyErr msgid err tg) sz fl = resp_serialize_reply C msgid err None tg sz fl"
| "serialize_response C Pong sz fl = resp_serialize_pong C sz fl"

definition reply_msg :: "i32 \<times> i32 \<times> 'c response \<times> u64 \<Rightarrow> 'c resp_msg" where
  "reply_msg x = (case x of (msgid, rescode, reply, tg) \<Rightarrow>
     if rescode = FLORA_CLI_SUCCESS
     then ReplyResp msgid (ret_code reply) (resp_data reply) (resp_extra reply) tg
     else ReplyErr msgid rescode tg)"

definition parse_response :: "'c caps_ops \<Rightarrow> 'c response \<Rightarrow> 'c \<Rightarrow> 'c resp_msg option" where
  "parse_response C reply caps = rd (read_i32 C caps) (\<lambda>cmd caps.
     if cmd = CMD_AUTH_RESP then map_option (\<lambda>(r, v). AuthResp r v) (resp_parse_auth C caps)
     else if cmd = CMD_POST_RESP then
       map_option (\<lambda>(n, t, a, tg, cn). PostResp n t a tg cn) (resp_parse_post C caps)
     else if cmd = CMD_CALL_RESP then
       map_option (\<lambda>(n, a, i, tg, cn). CallResp n a i tg cn) (resp_parse_call C caps)
     else if cmd = CMD_REPLY_RESP then map_option reply_msg (resp_parse_reply C reply caps)
     else if cmd = CMD_PONG_RESP then Some Pong
     else None)"

text \<open>The messages a caller may pass: an error code is not the success code, and the extra
  string of a reply is cut at its first NUL.\<close>

fun resp_ok :: "'c resp_msg \<Rightarrow> bool" where
  "resp_ok (ReplyResp _ _ _ ex _) = nul_free ex"
| "resp_ok (ReplyErr _ err _) = (err \<noteq> FLORA_CLI_SUCCESS)"
| "resp_ok _ = True"

section \<open>Reading what was written\<close>

definition returns :: "('a \<Rightarrow> bool) \<Rightarrow> 'a option \<Rightarrow> bool" where
  "returns Q m \<longleftrightarrow> (case m of None \<Rightarrow> False | Some x \<Rightarrow> Q x)"

lemma returns_Some [simp]: "returns Q (Some x) = Q x"
  by (simp add: returns_def)

lemma returns_map_option [simp]: "returns Q (map_option f m) = returns (\<lambda>x. Q (f x)) m"
  by (cases m) (simp_all add: returns_def)

lemma returnsD: "returns Q m \<Longrightarrow> \<exists>x. m = Some x \<and> Q x"
  by (cases m) (simp_all add: returns_def)

lemma rd_i32: "\<lbrakk>caps_laws C content rest; rest c = MInt v # ms;
    \<And>c'. rest c' = ms \<Longrightarrow> returns Q (f v c')\<rbrakk> \<Longrightarrow> returns Q (rd (read_i32 C c) f)"
  by (erule (1) read_i32I) simp

lemma rd_u32: "\<lbrakk>caps_laws C content rest; rest c = MInt v # ms;
    \<And>c'. rest c' = ms \<Longrightarrow> returns Q (f v c')\<rbrakk> \<Longrightarrow> returns Q (rd (read_u32 C c) f)"
  by (erule (1) read_u32I) simp

lemma rd_u64: "\<lbrakk>caps_laws C content rest; rest c = MLong v # ms;
    \<And>c'. rest c' = ms \<Longrightarrow> returns Q (f v c')\<rbrakk> \<Longrightarrow> returns Q (rd (read_u64 C c) f)"
  by (erule (1) read_u64I) simp

lemma rd_string: "\<lbrakk>caps_laws C content rest; rest c = MStr v # ms;
    \<And>c'. rest c' = ms \<Longrightarrow> returns Q (f v c')\<rbrakk> \<Longrightarrow> returns Q (rd (read_string C c) f)"
  by (erule (1) read_stringI) simp

lemma rd_caps: "\<lbrakk>caps_laws C content rest; rest c = MCaps p # ms;
    \<And>c' q. \<lbrakk>rest c' = ms; map_option content q = p\<rbrakk> \<Longrightarrow> returns Q (f q c')\<rbrakk> \<Longrightarrow>
  returns Q (rd (read_caps C c) f)"
  by (erule (1) read_capsI) simp

lemmas rd_rules = rd_i32 rd_u32 rd_u64 rd_string rd_caps

lemma minus_one_neg: "sint (- 1 :: 32 word) < 0"
  by simp

lemma ser_check_result:
  assumes "ser_check sz rb = (r, bs)" and "0 \<le> sint r"
  shows "rb = (r, bs)" and "r \<le> sz"
  using assms minus_one_neg by (auto simp: ser_check_def split: prod.splits if_splits)

text \<open>A message that fits is recovered with all its members unread.\<close>

lemma ser_check_parse:
  assumes "ser_check sz (serialize C sz flags c) = (r, bs)" and "0 \<le> sint r"
    and "caps_laws C content rest"
  shows "\<exists>c'. caps_parse C bs = Some c' \<and> rest c' = content c"
  using wireI(4) [OF assms(3) _ assms(2)] ser_check_result [OF assms(1,2)] by blast

lemma ser_check_frame:
  assumes "ser_check sz (serialize C sz flags c) = (r, bs)" and "0 \<le> sint r"
    and "caps_laws C content rest"
  shows "is_frame C sz bs" and "length bs = unat r" and "0 < r"
proof -
  note ok = ser_check_result [OF assms(1,2)]
  show "is_frame C sz bs" by (rule serialize_is_frame [OF assms(3) ok(1) assms(2) ok(2)])
  note w = wireI [OF assms(3) ok(1) assms(2) ok(2)]
  show "length bs = unat r" by (rule w(1))
  show "0 < r" using w(2) by (simp add: word_less_nat_alt word_le_nat_alt)
qed

text \<open>Every serialiser is \<open>ser_check\<close> of the object it builds; the object's members are the
  fields of the message.\<close>

fun request_members :: "'c view \<Rightarrow> 'c request \<Rightarrow> member list" where
  "request_members v (Auth version extra pid flags) =
     [MInt CMD_AUTH_REQ, MInt version, MStr extra, MInt pid, MInt flags]"
| "request_members v (Subscribe name) = [MInt CMD_SUBSCRIBE_REQ, MStr name]"
| "request_members v (Unsubscribe name) = [MInt CMD_UNSUBSCRIBE_REQ, MStr name]"
| "request_members v (Post name msgtype args) =
     [MInt CMD_POST_REQ, MInt msgtype, MStr name, MCaps (map_option v args)]"
| "request_members v (Reply msgid code values) =
     [MInt CMD_REPLY_REQ, MInt msgid, MInt code, MCaps (map_option v values)]"
| "request_members v (DeclareMethod name) = [MInt CMD_DECLARE_METHOD_REQ, MStr name]"
| "request_members v (RemoveMethod name) = [MInt CMD_REMOVE_METHOD_REQ, MStr name]"
| "request_members v (Call name args target msgid timeout) =
     [MInt CMD_CALL_REQ, MStr name, MStr target, MInt msgid, MInt timeout,
      MCaps (map_option v args)]"
| "request_members v Ping = [MInt CMD_PING_REQ]"

lemma serialize_request_object:
  assumes "caps_laws C content rest"
  shows "\<exists>c. serialize_request C req sz fl = ser_check sz (serialize C sz fl c) \<and>
    content c = request_members content req"
  by (cases req) (auto simp: ser_defs Let_def caps_write_simps [OF assms])

fun response_members :: "'c view \<Rightarrow> 'c resp_msg \<Rightarrow> member list" where
  "response_members v (AuthResp result version) = [MInt CMD_AUTH_RESP, MInt result, MInt version]"
| "response_members v (PostResp name msgtype args tg cliname) =
     [MInt CMD_POST_RESP, MInt msgtype, MStr name, MCaps (map_option v args), MLong tg, MStr cliname]"
| "response_members v (CallResp name args msgid tg cliname) =
     [MInt CMD_CALL_RESP, MInt msgid, MStr name, MCaps (map_option v args), MLong tg, MStr cliname]"
| "response_members v (ReplyResp msgid rc data ex tg) =
     [MInt CMD_REPLY_RESP, MInt msgid, MInt FLORA_CLI_SUCCESS, MInt rc, MCaps (map_option v data),
      MStr (c_str ex), MLong tg]"
| "response_members v (ReplyErr msgid err tg) =
     [MInt CMD_REPLY_RESP, MInt msgid, MInt err, MLong tg]"
| "response_members v Pong = [MInt CMD_PONG_RESP]"

lemma serialize_response_object:
  assumes "caps_laws C content rest" and "resp_ok m"
  shows "\<exists>c. serialize_response C m sz fl = ser_check sz (serialize C sz fl c) \<and>
    content c = response_members content m"
  using assms(2) by (cases m) (auto simp: ser_defs Let_def caps_write_simps [OF assms(1)])

lemma parse_auth_members:
  assumes "rest c = [MInt version, MStr extra, MInt pid, MInt flags]" and "caps_laws C content rest"
  shows "req_parse_auth C c = Some (version, extra, pid, flags)"
proof -
  from assms obtain c1 where 1: "read_u32 C c = (Some version, c1)"
    "rest c1 = [MStr extra, MInt pid, MInt flags]" by (blast elim: read_u32I)
  with assms(2) obtain c2 where 2: "read_string C c1 = (Some extra, c2)"
    "rest c2 = [MInt pid, MInt flags]" by (blast elim: read_stringI)
  with assms(2) obtain c3 where 3: "read_i32 C c2 = (Some pid, c3)" "rest c3 = [MInt flags]"
    by (blast elim: read_i32I)
  with assms(2) obtain c4 where 4: "read_u32 C c3 = (Some flags, c4)" by (blast elim: read_u32I)
  from 1 2 3 4 show ?thesis by (simp add: req_parse_auth_def)
qed

lemma parse_request_members:
  assumes "caps_laws C content rest" and "rest caps = request_members content req"
  shows "returns (\<lambda>req'. map_request content req' = map_request content req) (parse_request C caps)"
  using assms
  by (cases req)
    (auto simp: parse_request_def ser_defs flora_consts parse_auth_members simp del: req_parse_auth_def
      intro!: rd_rules [OF assms(1)])

lemma parse_response_members:
  assumes "caps_laws C content rest" and "rest caps = response_members content m" and "resp_ok m"
  shows "returns (\<lambda>m'. map_resp_msg content m' = map_resp_msg content m)
    (parse_response C reply caps)"
  unfolding parse_response_def
  by ((cases m; insert assms(2,3);
       simp; erule rd_rules [OF assms(1)]; simp add: flora_consts ser_defs),
      ((erule rd_rules [OF assms(1)])+; simp add: reply_msg_def flora_consts)+)

text \<open>C17: Request round trip. Whatever request a client serialises with one of the nine
  \<open>RequestSerializer\<close> functions, if the result is not an error then the service, parsing the
  bytes and selecting the \<open>RequestParser\<close> function by the command word, recovers exactly that
  request.\<close>

theorem request_roundtrip:
  assumes "caps_laws C content rest" and "serialize_request C req sz fl = (r, bs)"
    and "0 \<le> sint r"
  shows "\<exists>caps req'. caps_parse C bs = Some caps \<and> parse_request C caps = Some req' \<and>
    map_request content req' = map_request content req"
proof -
  from serialize_request_object [OF assms(1)] obtain c
    where c: "serialize_request C req sz fl = ser_check sz (serialize C sz fl c)"
      "content c = request_members content req" by blast
  from ser_check_parse [OF _ assms(3,1)] assms(2) c obtain caps
    where "caps_parse C bs = Some caps" "rest caps = request_members content req" by metis
  with parse_request_members [OF assms(1)] show ?thesis by (blast dest: returnsD)
qed

text \<open>For the witnesses: when the reference instance fits a message.\<close>

lemma length_enc:
  "length (enc (MInt v)) = 5" "length (enc (MLong w)) = 9" "length (enc (MStr s)) = 5 + length s"
  by simp_all

lemma ref_fits_nonneg:
  assumes "smalls (members c)" and "8 + length (encs (members c)) \<le> unat sz" and "unat sz < 2 ^ 31"
  shows "0 \<le> sint (fst (ser_check sz (serialize ref_ops sz fl c)))"
proof -
  let ?n = "8 + length (encs (members c))"
  have n: "?n < 2 ^ 31" using assms by linarith
  then have "sint (word_of_nat ?n :: i32) = int ?n"
    using sint_sbintrunc' [of "int ?n", where 'a = 32]
    by (simp add: signed_take_bit_int_eq_self)
  moreover have "\<not> sz < word_of_nat ?n"
    using assms n by (simp add: word_less_nat_alt unat_of_nat del: of_nat_add of_nat_numeral)
  moreover have "serialize ref_ops sz fl c = (word_of_nat ?n, bytes_of 8 ?n @ encs (members c))"
    using assms n by (simp add: ref_ops_def ref_serialize_def Let_def)
  ultimately show ?thesis by (simp add: ser_check_def del: of_nat_add of_nat_numeral)
qed

lemma ref_request_nonneg:
  assumes "smalls (request_members members req)"
    and "8 + length (encs (request_members members req)) \<le> unat sz" and "unat sz < 2 ^ 31"
  shows "0 \<le> sint (fst (serialize_request ref_ops req sz fl))"
  using serialize_request_object [OF ref_laws, of req sz fl] ref_fits_nonneg assms by metis

lemma ref_response_nonneg:
  assumes "smalls (response_members members m)" and "resp_ok m"
    and "8 + length (encs (response_members members m)) \<le> unat sz" and "unat sz < 2 ^ 31"
  shows "0 \<le> sint (fst (serialize_response ref_ops m sz fl))"
  using serialize_response_object [OF ref_laws, of m sz fl] ref_fits_nonneg assms by metis

definition sample_call :: "ref_caps request" where
  "sample_call = Call ''m'' None ''t'' 7 100"

theorem request_roundtrip_witness:
  "\<exists>caps req'.
     caps_parse ref_ops (snd (serialize_request ref_ops sample_call 4096 0)) = Some caps \<and>
     parse_request ref_ops caps = Some req' \<and>
     map_request members req' = map_request members sample_call"
proof (rule request_roundtrip [OF ref_laws, where r =
      "fst (serialize_request ref_ops sample_call 4096 0)"])
  show "0 \<le> sint (fst (serialize_request ref_ops sample_call 4096 0))"
    by (rule ref_request_nonneg) (simp_all add: sample_call_def)
qed simp


definition sample_reply :: "ref_caps resp_msg" where
  "sample_reply = ReplyResp 3 0 None ''agent'' 9"


section \<open>The monitor's client list\<close>

definition list_item :: "adapter_info \<Rightarrow> monitor_list_item" where
  "list_item i =
     \<lparr>mli_id = ai_id i, mli_pid = ai_pid i, mli_name = ai_name i, mli_flags = ai_flags i\<rparr>"

definition item_members :: "adapter_info \<Rightarrow> member list" where
  "item_members i = [MInt (ai_id i), MInt (ai_pid i), MStr (ai_name i), MInt (ai_flags i)]"

lemma item_content:
  "caps_laws C content rest \<Longrightarrow> content (serialize_monitor_list_item C i) = item_members i"
  by (simp add: ser_defs Let_def caps_write_simps item_members_def)

lemma write_items_content:
  "caps_laws C content rest \<Longrightarrow>
   content (write_items C infos p) =
     content p @ map (\<lambda>(k, i). MCaps (Some (item_members i))) infos"
  by (induction C infos p rule: write_items.induct) (simp_all add: caps_write_simps item_content)

lemma parse_item:
  assumes "caps_laws C content rest" and "rest sub = item_members i"
  shows "parse_list_item C sub = Some (list_item i)"
proof -
  have "returns (\<lambda>x. x = list_item i) (parse_list_item C sub)"
    unfolding parse_list_item_def list_item_def
    by (insert assms(2) [unfolded item_members_def], (erule rd_rules [OF assms(1)])+) simp
  then show ?thesis by (auto dest: returnsD)
qed

lemma parse_loop_items:
  assumes "caps_laws C content rest"
    and "rest caps = map (\<lambda>(k, i). MCaps (Some (item_members i))) infos"
  shows "parse_list_loop C n caps acc =
    Some (let r = acc @ map (list_item \<circ> snd) infos in if length r = unat n then Some r else None)"
  using assms(2)
proof (induction infos arbitrary: caps acc)
  case Nil
  then have "fst (read_caps C caps) = None" using read_caps_end(1) [OF assms(1)] by simp
  then obtain c' where "read_caps C caps = (None, c')" by (cases "read_caps C caps") auto
  then show ?case by (simp add: parse_list_loop.simps [of C n caps acc])
next
  case (Cons ki infos)
  obtain k i where ki: "ki = (k, i)" by fastforce
  from Cons.prems ki have r: "rest caps = MCaps (Some (item_members i)) #
      map (\<lambda>(k, i). MCaps (Some (item_members i))) infos" by simp
  obtain c' q where q: "read_caps C caps = (Some q, c')"
      "rest c' = map (\<lambda>(k, i). MCaps (Some (item_members i))) infos"
      "map_option content q = Some (item_members i)" "\<And>s. q = Some s \<Longrightarrow> rest s = content s"
    using read_capsI [OF assms(1) r] by metis
  then obtain sub where sub: "q = Some sub" "rest sub = item_members i" by auto
  have "parse_list_loop C n caps acc = parse_list_loop C n c' (acc @ [list_item i])"
    by (simp add: parse_list_loop.simps [of C n caps acc] q(1) sub(1) parse_item [OF assms(1) sub(2)])
  also have "\<dots> = Some (let r = (acc @ [list_item i]) @ map (list_item \<circ> snd) infos
      in if length r = unat n then Some r else None)" by (rule Cons.IH [OF q(2)])
  finally show ?case by (simp add: ki)
qed

lemma parse_list_all:
  assumes "caps_laws C content rest" and "length infos < 2 ^ 32"
    and "rest c = MInt (word_of_nat (length infos)) # map (\<lambda>(k, i). MCaps (Some (item_members i))) infos"
  shows "resp_parse_monitor_list_all C c = Some (Some (map (list_item \<circ> snd) infos))"
proof -
  from read_u32I [OF assms(1,3)] obtain c3 where 3: "read_u32 C c = (Some (word_of_nat (length infos)), c3)"
    "rest c3 = map (\<lambda>(k, i). MCaps (Some (item_members i))) infos" .
  have n: "unat (word_of_nat (length infos) :: u32) = length infos"
    using assms(2) by (simp add: unat_of_nat)
  show ?thesis
  proof (cases "infos = []")
    case False
    with n have "word_of_nat (length infos) \<noteq> (0 :: u32)" by (metis length_0_conv unat_0)
    with 3 n show ?thesis
      by (simp add: resp_parse_monitor_list_all_def parse_loop_items [OF assms(1)])
  qed (use 3 in \<open>simp add: resp_parse_monitor_list_all_def\<close>)
qed

text \<open>The list a new monitor receives. For any set of fewer than $2^{32}$ clients that fits the
  buffer, \<open>parse_monitor_list_all\<close> on the monitor's side ends, succeeds, and yields the id, pid,
  name and flags of exactly the clients in \<open>adapter_infos\<close>, in the order of that map.\<close>

lemma monitor_list_all_roundtrip:
  assumes "caps_laws C content rest" and "length infos < 2 ^ 32"
    and "resp_serialize_monitor_list_all C infos sz fl = (r, bs)" and "0 \<le> sint r"
  shows "\<exists>caps c1 c2. caps_parse C bs = Some caps \<and> read_i32 C caps = (Some CMD_MONITOR_RESP, c1) \<and>
    read_i32 C c1 = (Some MONITOR_LIST_ALL, c2) \<and>
    resp_parse_monitor_list_all C c2 = Some (Some (map (list_item \<circ> snd) infos))"
proof -
  let ?items = "map (\<lambda>(k, i). MCaps (Some (item_members i))) infos"
  let ?c = "write_items C infos (write_i32 C (word_of_nat (length infos))
    (write_i32 C MONITOR_LIST_ALL (write_i32 C CMD_MONITOR_RESP (new_instance C))))"
  have c: "ser_check sz (serialize C sz fl ?c) = (r, bs)"
    using assms(3) by (simp add: ser_defs Let_def)
  have "content ?c =
      MInt CMD_MONITOR_RESP # MInt MONITOR_LIST_ALL # MInt (word_of_nat (length infos)) # ?items"
    by (simp add: caps_write_simps [OF assms(1)] write_items_content [OF assms(1)])
  with ser_check_parse [OF c assms(4,1)] obtain caps where 0: "caps_parse C bs = Some caps"
      "rest caps = MInt CMD_MONITOR_RESP # MInt MONITOR_LIST_ALL # MInt (word_of_nat (length infos)) # ?items"
    by auto
  from read_i32I [OF assms(1) 0(2)] obtain c1 where 1: "read_i32 C caps = (Some CMD_MONITOR_RESP, c1)"
      "rest c1 = MInt MONITOR_LIST_ALL # MInt (word_of_nat (length infos)) # ?items" .
  from read_i32I [OF assms(1) 1(2)] obtain c2 where 2: "read_i32 C c1 = (Some MONITOR_LIST_ALL, c2)"
      "rest c2 = MInt (word_of_nat (length infos)) # ?items" .
  from parse_list_all [OF assms(1,2) 2(2)] have "resp_parse_monitor_list_all C c2 = Some (Some (map (list_item \<circ> snd) infos))" .
  with 0 1 2 show ?thesis by blast
qed

definition sample_info :: adapter_info where
  "sample_info =
     \<lparr>ai_id = 5, ai_pid = 77, ai_name = ''cli'', declared_methods = {}, ai_flags = 0\<rparr>"

definition sample_infos :: "(aid \<times> adapter_info) list" where
  "sample_infos = [(3, sample_info)]"

lemma monitor_list_all_roundtrip_witness:
  "\<exists>caps c1 c2.
     caps_parse ref_ops (snd (resp_serialize_monitor_list_all ref_ops sample_infos 4096 0)) = Some caps \<and>
     read_i32 ref_ops caps = (Some CMD_MONITOR_RESP, c1) \<and>
     read_i32 ref_ops c1 = (Some MONITOR_LIST_ALL, c2) \<and>
     resp_parse_monitor_list_all ref_ops c2 = Some (Some (map (list_item \<circ> snd) sample_infos))"
proof (rule monitor_list_all_roundtrip [OF ref_laws, where r =
      "fst (resp_serialize_monitor_list_all ref_ops sample_infos 4096 0)"])
  show "0 \<le> sint (fst (resp_serialize_monitor_list_all ref_ops sample_infos 4096 0))"
    unfolding resp_serialize_monitor_list_all_def Let_def
    by (rule ref_fits_nonneg)
      (simp_all add: caps_write_simps [OF ref_laws] write_items_content [OF ref_laws]
        item_content [OF ref_laws] sample_infos_def sample_info_def item_members_def)
qed (simp_all add: sample_infos_def)

end
