(* ===== verification/Disp.thy ===== *)
theory Disp
  imports SerHelper
begin

text \<open>
  The dispatcher (\<open>src/disp.h\<close>, \<open>src/disp.cc\<close>): its state, one definition per method, and the
  loop of its thread. A method that touches an object through an invalid pointer has no result:
  the outer \<open>None\<close> of every operation is undefined behaviour of the C++ code (a null or dangling
  \<open>Adapter::info\<close>, the raw pointer of a destroyed monitor, an index outside the handler table).
  Readings of \<open>steady_clock\<close> are arguments. \<open>KLOGI\<close> and \<open>KLOGW\<close> evaluate their arguments, so the
  pointers they follow are part of the model; the debug level \<open>KLOGD\<close> is compiled out.
\<close>

section \<open>State\<close>

record pending_call =
  svrid :: i32
  cliid :: i32
  pc_sender :: aid
  pc_target :: aid
  discard_tp :: time

text \<open>\<open>idseq\<close> is the static counter of \<open>AdapterInfo\<close>. \<open>heap\<close> holds the adapter objects, which the
  dispatcher shares with the poll; \<open>poll_refs\<close> are the adapters the poll refers to. The local
  list \<open>pending_cmds\<close> of \<open>handle_cmds\<close> is split at the iterator: \<open>done_cmds\<close> before it,
  \<open>pending_cmds\<close> from it on. \<open>iolog\<close> records what was passed to the kernel.\<close>

record 'c disp =
  subscriptions :: "(string \<times> aid list) list"
  persist_msgs :: "(string \<times> 'c option) list"
  named_adapters :: "(string \<times> aid) list"
  d_buf_size :: u32
  cmd_packets :: "('c option \<times> aid) list"
  pending_calls :: "pending_call list"
  reqseq :: i32
  adapter_infos :: "(aid \<times> adapter_info) list"
  monitors :: "(aid \<times> adapter_info) list"
  d_flags :: u32
  handle_cmd_tp :: time
  clear_sub_prio :: u32
  working :: bool
  idseq :: u32
  pending_cmds :: "('c option \<times> aid) list"
  done_cmds :: "('c option \<times> aid) list"
  heap :: "aid \<Rightarrow> adapter"
  poll_refs :: "aid list"
  iolog :: "io list"

text \<open>What the dispatcher is run with: the Caps library, the kernel, and the value an unassigned
  \<open>pid\<close> happens to have.\<close>

record 'c env =
  caps :: "'c caps_ops"
  kern :: kernel
  junk :: i32

section \<open>Objects and pointers\<close>

text \<open>An adapter object exists while a \<open>shared_ptr\<close> to it does: \<open>weak_ptr::lock\<close> succeeds
  exactly then.\<close>

definition alive :: "'c disp \<Rightarrow> aid \<Rightarrow> bool" where
  "alive s a \<longleftrightarrow>
     a \<in> set (poll_refs s) \<or> a \<in> set (map snd (named_adapters s)) \<or>
     a \<in> set (map snd (cmd_packets s @ done_cmds s @ pending_cmds s)) \<or>
     a \<in> set (map pc_sender (pending_calls s)) \<or> a \<in> set (map pc_target (pending_calls s))"

definition has_info :: "'c disp \<Rightarrow> aid \<Rightarrow> bool" where
  "has_info s a \<longleftrightarrow> info (heap s a) \<noteq> InfoNull"

text \<open>\<open>*adapter->info\<close>\<close>

definition deref_info :: "'c disp \<Rightarrow> aid \<Rightarrow> adapter_info option" where
  "deref_info s a =
     (case info (heap s a) of
        InfoNull \<Rightarrow> None
      | InfoAdapter \<Rightarrow> map_of (adapter_infos s) a
      | InfoMonitor \<Rightarrow> map_of (monitors s) a)"

definition set_info :: "aid \<Rightarrow> adapter_info \<Rightarrow> 'c disp \<Rightarrow> 'c disp" where
  "set_info a i s =
     (case info (heap s a) of
        InfoNull \<Rightarrow> s
      | InfoAdapter \<Rightarrow> s\<lparr>adapter_infos := map_put a i (adapter_infos s)\<rparr>
      | InfoMonitor \<Rightarrow> s\<lparr>monitors := map_put a i (monitors s)\<rparr>)"

text \<open>\<open>adapter->info ? adapter->info->name.c_str() : ""\<close>, as the log messages have it.\<close>

definition name_or_empty :: "'c disp \<Rightarrow> aid \<Rightarrow> string option" where
  "name_or_empty s a = (if has_info s a then map_option ai_name (deref_info s a) else Some [])"

definition upd_adapter :: "aid \<Rightarrow> (adapter \<Rightarrow> adapter) \<Rightarrow> 'c disp \<Rightarrow> 'c disp" where
  "upd_adapter a f s = s\<lparr>heap := (heap s)(a := f (heap s a))\<rparr>"

text \<open>\<open>adapter->write(buffer, c)\<close> after a serialiser put \<open>c\<close> bytes into the buffer, and
  \<open>adapter->close()\<close>.\<close>

definition write_to :: "'c env \<Rightarrow> aid \<Rightarrow> i32 \<times> byte list \<Rightarrow> 'c disp \<Rightarrow> i32 \<times> 'c disp" where
  "write_to E a m s =
     (let (r, ad, log) = adapter_write (kern E) a (fst m) (snd m) (heap s a) (iolog s)
      in (r, s\<lparr>heap := (heap s)(a := ad), iolog := log\<rparr>))"

definition close_adapter :: "aid \<Rightarrow> 'c disp \<Rightarrow> 'c disp" where
  "close_adapter a s =
     (let (ad, log) = adapter_close a (heap s a) (iolog s)
      in s\<lparr>heap := (heap s)(a := ad), iolog := log\<rparr>)"

text \<open>\<open>if (adapter->write(...) == -2) KLOGW(...)\<close>: the message follows the pointers in \<open>ps\<close>.\<close>

definition log_timeout :: "i32 \<Rightarrow> aid list \<Rightarrow> 'c disp \<Rightarrow> 'c disp option" where
  "log_timeout r ps s =
     (if r = - 2 \<and> list_ex (\<lambda>p. name_or_empty s p = None) ps then None else Some s)"

section \<open>Construction, queue\<close>

definition new_Dispatcher :: "u32 \<Rightarrow> u32 \<Rightarrow> time \<Rightarrow> u32 \<Rightarrow> 'c disp" where
  "new_Dispatcher f bufsize epoch ids =
     \<lparr>subscriptions = [], persist_msgs = [], named_adapters = [],
      d_buf_size = (if DEFAULT_MSG_BUF_SIZE < bufsize then bufsize else DEFAULT_MSG_BUF_SIZE),
      cmd_packets = [], pending_calls = [], reqseq = 0, adapter_infos = [], monitors = [],
      d_flags = f, handle_cmd_tp = epoch, clear_sub_prio = 0, working = False, idseq = ids,
      pending_cmds = [], done_cmds = [], heap = (\<lambda>_. new_SocketAdapter (- 1) 0 0),
      poll_refs = [], iolog = []\<rparr>"

definition max_msg_size :: "'c disp \<Rightarrow> u32" where
  "max_msg_size s = d_buf_size s"

definition put :: "'c env \<Rightarrow> byte list \<Rightarrow> aid \<Rightarrow> 'c disp \<Rightarrow> bool \<times> 'c disp" where
  "put E data sender s =
     (case caps_parse (caps E) data of
        None \<Rightarrow> (False, s)
      | Some msg_caps \<Rightarrow> (True, s\<lparr>cmd_packets := cmd_packets s @ [(Some msg_caps, sender)]\<rparr>))"

definition erase_adapter :: "aid \<Rightarrow> 'c disp \<Rightarrow> 'c disp" where
  "erase_adapter a s =
     (if \<not> has_info s a then s else s\<lparr>cmd_packets := cmd_packets s @ [(None, a)]\<rparr>)"

definition disp_run :: "'c disp \<Rightarrow> 'c disp" where
  "disp_run s = s\<lparr>working := True\<rparr>"

definition disp_close :: "'c disp \<Rightarrow> 'c disp" where
  "disp_close s = s\<lparr>working := False\<rparr>"

definition delete_Dispatcher :: "'c disp \<Rightarrow> 'c disp" where
  "delete_Dispatcher s = disp_close (s\<lparr>subscriptions := []\<rparr>)"

section \<open>Monitors\<close>

definition write_monitor_list :: "'c env \<Rightarrow> aid \<Rightarrow> 'c disp \<Rightarrow> 'c disp" where [disp_defs]:
  "write_monitor_list E a s =
     (let m = resp_serialize_monitor_list_all (caps E) (adapter_infos s) (d_buf_size s)
                (serialize_flags (heap s a))
      in if sint (fst m) < 0 then s else snd (write_to E a m s))"

definition write_monitor_data :: "'c env \<Rightarrow> u32 \<Rightarrow> aid \<Rightarrow> 'c disp \<Rightarrow> 'c disp" where [disp_defs]:
  "write_monitor_data E flags a s = (if is_monitor flags then write_monitor_list E a s else s)"

text \<open>The keys of \<open>monitors\<close> are raw pointers: the object must exist.\<close>

definition write_monitor_list_add_to ::
  "'c env \<Rightarrow> aid \<Rightarrow> aid \<Rightarrow> 'c disp \<Rightarrow> 'c disp option" where [disp_defs]:
  "write_monitor_list_add_to E newitem monitor s =
     (case deref_info s newitem of
        None \<Rightarrow> None
      | Some i \<Rightarrow>
          if \<not> alive s monitor then None
          else
            (let m = resp_serialize_monitor_list_add (caps E) i (d_buf_size s)
                       (serialize_flags (heap s monitor))
             in Some (if sint (fst m) < 0 then s else snd (write_to E monitor m s))))"

definition write_monitor_list_remove_to ::
  "'c env \<Rightarrow> u32 \<Rightarrow> aid \<Rightarrow> 'c disp \<Rightarrow> 'c disp option" where [disp_defs]:
  "write_monitor_list_remove_to E iid monitor s =
     (if \<not> alive s monitor then None
      else
        (let m = resp_serialize_monitor_list_remove (caps E) iid (d_buf_size s)
                   (serialize_flags (heap s monitor))
         in Some (if sint (fst m) < 0 then s else snd (write_to E monitor m s))))"

definition write_monitor_list_add :: "'c env \<Rightarrow> aid \<Rightarrow> 'c disp \<Rightarrow> 'c disp option" where [disp_defs]:
  "write_monitor_list_add E newitem s =
     iterate (write_monitor_list_add_to E newitem) (map fst (monitors s)) s"

definition write_monitor_list_remove :: "'c env \<Rightarrow> u32 \<Rightarrow> 'c disp \<Rightarrow> 'c disp option" where [disp_defs]:
  "write_monitor_list_remove E iid s =
     iterate (write_monitor_list_remove_to E iid) (map fst (monitors s)) s"

section \<open>Authentication\<close>

definition add_adapter ::
  "'c env \<Rightarrow> string \<Rightarrow> u32 \<Rightarrow> i32 \<Rightarrow> aid \<Rightarrow> 'c disp \<Rightarrow> bool \<times> 'c disp" where [disp_defs]:
  "add_adapter E name flags pid a s =
     (let (named, r2) =
        (if 0 < length name then map_insert name a (named_adapters s) else (named_adapters s, True))
      in if \<not> r2 then (False, s)
         else
           (let (i, ids) = new_AdapterInfo (junk E) (idseq s);
                (infos, r1) = map_insert a i (adapter_infos s);
                s = s\<lparr>named_adapters := named, idseq := ids, adapter_infos := infos\<rparr>
            in if r1
               then (True, upd_adapter a (\<lambda>ad. ad\<lparr>info := InfoAdapter\<rparr>)
                       (s\<lparr>adapter_infos :=
                            map_put a (i\<lparr>ai_name := name, ai_flags := flags, ai_pid := pid\<rparr>) infos\<rparr>))
               else (True, s)))"

definition add_monitor :: "'c env \<Rightarrow> string \<Rightarrow> u32 \<Rightarrow> aid \<Rightarrow> 'c disp \<Rightarrow> 'c disp" where [disp_defs]:
  "add_monitor E name flags a s =
     (let (i, ids) = new_AdapterInfo (junk E) (idseq s);
          (infos, r) = map_insert a i (monitors s);
          s = s\<lparr>idseq := ids, monitors := infos\<rparr>
      in if r
         then upd_adapter a (\<lambda>ad. ad\<lparr>info := InfoMonitor\<rparr>)
                (s\<lparr>monitors := map_put a (i\<lparr>ai_name := name, ai_flags := flags\<rparr>) infos\<rparr>)
         else s)"

text \<open>The part of \<open>handle_auth_req\<close> that decides the result.\<close>

definition auth_result ::
  "'c env \<Rightarrow> u32 \<Rightarrow> string \<Rightarrow> i32 \<Rightarrow> u32 \<Rightarrow> aid \<Rightarrow> 'c disp \<Rightarrow> i32 \<times> 'c disp" where [disp_defs]:
  "auth_result E version extra pid flags a s =
     (if version < 3 then (FLORA_CLI_EAUTH, s)
      else
        (let s = (if tag (heap s a) = 0
                  then upd_adapter a (\<lambda>ad. ad\<lparr>tag := tag_create_pid pid\<rparr>) s else s)
         in if is_monitor flags then
              (if d_flags s AND FLORA_DISP_FLAG_MONITOR = 0 then (FLORA_CLI_EAUTH, s)
               else (FLORA_CLI_SUCCESS, add_monitor E extra flags a s))
            else
              (let (ok, s) = add_adapter E extra flags pid a s
               in (if ok then FLORA_CLI_SUCCESS else FLORA_CLI_EDUPID, s))))"

definition handle_auth_req :: "'c env \<Rightarrow> 'c \<Rightarrow> aid \<Rightarrow> 'c disp \<Rightarrow> (bool \<times> 'c disp) option" where [disp_defs]:
  "handle_auth_req E msg_caps a s =
     (case req_parse_auth (caps E) msg_caps of
        None \<Rightarrow> Some (False, s)
      | Some (version, extra, pid, flags) \<Rightarrow>
          (let (result, s) = auth_result E version extra pid flags a s;
               m = resp_serialize_auth (caps E) result FLORA_VERSION (d_buf_size s)
                     (serialize_flags (heap s a))
           in if sint (fst m) < 0 then Some (False, s)
              else
                (let s = snd (write_to E a m s)
                 in if result = FLORA_CLI_SUCCESS then
                      (let s = write_monitor_data E flags a s
                       in if is_monitor flags then Some (True, s)
                          else map_option (Pair True) (write_monitor_list_add E a s))
                    else Some (False, s))))"

section \<open>Subscriptions\<close>

text \<open>The loops over a list of \<open>weak_ptr\<close> that erase while they walk.\<close>

fun purge :: "(aid \<Rightarrow> bool) \<Rightarrow> aid list \<Rightarrow> aid list" where
  "purge bad [] = []"
| "purge bad (a # as) = (if bad a then purge bad as else a # purge bad as)"

fun clear_sub_loop :: "'c disp \<Rightarrow> (string \<times> aid list) list \<Rightarrow> (string \<times> aid list) list" where
  "clear_sub_loop s [] = []"
| "clear_sub_loop s ((name, as) # subs) =
     (let as = purge (\<lambda>a. \<not> alive s a) as
      in if as = [] then clear_sub_loop s subs else (name, as) # clear_sub_loop s subs)"

definition clear_sub_gabages :: "'c disp \<Rightarrow> 'c disp" where [disp_defs]:
  "clear_sub_gabages s = s\<lparr>subscriptions := clear_sub_loop s (subscriptions s)\<rparr>"

text \<open>\<open>duration_cast<seconds>\<close> truncates towards zero.\<close>

definition to_seconds :: "int \<Rightarrow> int" where
  "to_seconds d = (if d < 0 then - ((- d) div 1000000000) else d div 1000000000)"

definition check_subscriptions :: "time \<Rightarrow> 'c disp \<Rightarrow> 'c disp" where [disp_defs]:
  "check_subscriptions nowtp s =
     (if CLEAR_SUBSCRIPTION_TIME_THRESHOLD \<le> to_seconds (nowtp - handle_cmd_tp s)
      then (clear_sub_gabages s)\<lparr>clear_sub_prio := 0, handle_cmd_tp := nowtp\<rparr>
      else
        (let s = s\<lparr>clear_sub_prio := clear_sub_prio s + 1\<rparr>
         in if CLEAR_SUBSCRIPTION_THRESHOLD \<le> clear_sub_prio s
            then (clear_sub_gabages s)\<lparr>clear_sub_prio := 0, handle_cmd_tp := nowtp\<rparr>
            else s))"

definition do_erase_adapter :: "'c env \<Rightarrow> time \<Rightarrow> aid \<Rightarrow> 'c disp \<Rightarrow> 'c disp option" where [disp_defs]:
  "do_erase_adapter E nowtp a s =
     (if \<not> has_info s a then Some s
      else
        (case deref_info s a of
           None \<Rightarrow> None
         | Some i \<Rightarrow>
             (let s = (if 0 < length (ai_name i)
                       then s\<lparr>named_adapters := map_erase (ai_name i) (named_adapters s)\<rparr> else s)
              in if is_monitor (ai_flags i)
                 then Some (check_subscriptions nowtp (s\<lparr>monitors := map_erase a (monitors s)\<rparr>))
                 else
                   (case write_monitor_list_remove E (ai_id i) s of
                      None \<Rightarrow> None
                    | Some s \<Rightarrow>
                        Some (check_subscriptions nowtp
                                (s\<lparr>adapter_infos := map_erase a (adapter_infos s)\<rparr>))))))"

text \<open>\<open>subscriptions[name]\<close> creates an empty list; a request that finds its sender subscribed
  changes nothing else.\<close>

definition handle_subscribe_req ::
  "'c env \<Rightarrow> 'c \<Rightarrow> aid \<Rightarrow> 'c disp \<Rightarrow> (bool \<times> 'c disp) option" where [disp_defs]:
  "handle_subscribe_req E msg_caps a s =
     (if \<not> has_info s a then Some (False, s)
      else
        (case req_parse_subscribe (caps E) msg_caps of
           None \<Rightarrow> Some (False, s)
         | Some name \<Rightarrow>
             if deref_info s a = None then None
             else if length name = 0 then Some (False, s)
             else
               (let adapters = (case map_of (subscriptions s) name of None \<Rightarrow> [] | Some as \<Rightarrow> as);
                    s = s\<lparr>subscriptions := map_put name adapters (subscriptions s)\<rparr>
                in if list_ex (\<lambda>b. alive s b \<and> b = a) adapters then Some (True, s)
                   else
                     (let s = s\<lparr>subscriptions := map_put name (adapters @ [a]) (subscriptions s)\<rparr>
                      in case map_of (persist_msgs s) name of
                           None \<Rightarrow> Some (True, s)
                         | Some data \<Rightarrow>
                             (let m = resp_serialize_post (caps E) (Some (c_str name))
                                        FLORA_MSGTYPE_PERSIST data 0 (Some []) (d_buf_size s)
                                        (serialize_flags (heap s a))
                              in if 0 < sint (fst m)
                                 then (let (r, s) = write_to E a m s
                                       in map_option (Pair True) (log_timeout r [a] s))
                                 else Some (True, s))))))"

definition handle_unsubscribe_req ::
  "'c env \<Rightarrow> 'c \<Rightarrow> aid \<Rightarrow> 'c disp \<Rightarrow> (bool \<times> 'c disp) option" where [disp_defs]:
  "handle_unsubscribe_req E msg_caps a s =
     (if \<not> has_info s a then Some (False, s)
      else
        (case req_parse_unsubscribe (caps E) msg_caps of
           None \<Rightarrow> Some (False, s)
         | Some name \<Rightarrow>
             if deref_info s a = None then None
             else if length name = 0 then Some (False, s)
             else
               (case map_of (subscriptions s) name of
                  None \<Rightarrow> Some (True, s)
                | Some as \<Rightarrow>
                    (let as = purge (\<lambda>b. \<not> alive s b \<or> b = a) as
                     in Some (True, s\<lparr>subscriptions :=
                          (if as = [] then map_erase name (subscriptions s)
                           else map_put name as (subscriptions s))\<rparr>)))))"

section \<open>Methods\<close>

definition handle_declare_method ::
  "'c env \<Rightarrow> 'c \<Rightarrow> aid \<Rightarrow> 'c disp \<Rightarrow> (bool \<times> 'c disp) option" where [disp_defs]:
  "handle_declare_method E msg_caps a s =
     (if \<not> has_info s a then Some (False, s)
      else
        (case req_parse_declare_method (caps E) msg_caps of
           None \<Rightarrow> Some (False, s)
         | Some name \<Rightarrow>
             (case deref_info s a of
                None \<Rightarrow> None
              | Some i \<Rightarrow>
                  if length name = 0 then Some (False, s)
                  else (let (r, i) = declare_method name i in Some (r, set_info a i s)))))"

definition handle_remove_method ::
  "'c env \<Rightarrow> 'c \<Rightarrow> aid \<Rightarrow> 'c disp \<Rightarrow> (bool \<times> 'c disp) option" where [disp_defs]:
  "handle_remove_method E msg_caps a s =
     (if \<not> has_info s a then Some (False, s)
      else
        (case req_parse_remove_method (caps E) msg_caps of
           None \<Rightarrow> Some (False, s)
         | Some name \<Rightarrow>
             (case deref_info s a of
                None \<Rightarrow> None
              | Some i \<Rightarrow>
                  if length name = 0 then Some (False, s)
                  else Some (True, set_info a (remove_method name i) s))))"

section \<open>Posting\<close>

definition write_post_msg_to ::
  "'c env \<Rightarrow> i32 \<times> byte list \<Rightarrow> aid \<Rightarrow> 'c disp \<Rightarrow> 'c disp option" where [disp_defs]:
  "write_post_msg_to E m a s =
     (if \<not> alive s a then Some s
      else if deref_info s a = None then None
      else (let (r, s) = write_to E a m s in log_timeout r [a] s))"

definition write_post_msg_to_adapters ::
  "'c env \<Rightarrow> string \<Rightarrow> u32 \<Rightarrow> 'c option \<Rightarrow> u64 \<Rightarrow> u32 \<Rightarrow> aid list \<Rightarrow> string \<Rightarrow> 'c disp \<Rightarrow> 'c disp option"
  where [disp_defs]:
  "write_post_msg_to_adapters E name type args tg flags adapters sender_name s =
     (let m = resp_serialize_post (caps E) (Some (c_str name)) type args tg (Some sender_name)
                (d_buf_size s) flags
      in if sint (fst m) < 0 then Some s else iterate (write_post_msg_to E m) adapters s)"

text \<open>The loop of \<open>post_msg\<close>: what stays subscribed, the receivers in host byte order, and
  those in network byte order.\<close>

fun split_adapters :: "'c env \<Rightarrow> 'c disp \<Rightarrow> aid list \<Rightarrow> aid list \<times> aid list \<times> aid list" where
  "split_adapters E s [] = ([], [], [])"
| "split_adapters E s (a # as) =
     (let (kept, nobo, bo) = split_adapters E s as
      in if \<not> alive s a \<or> closed (heap s a) then (kept, nobo, bo)
         else if serialize_flags (heap s a) = CAPS_FLAG_NET_BYTEORDER (caps E)
         then (a # kept, nobo, a # bo)
         else (a # kept, a # nobo, bo))"

definition post_to_subscribers ::
  "'c env \<Rightarrow> string \<Rightarrow> u32 \<Rightarrow> 'c option \<Rightarrow> aid option \<Rightarrow> string \<Rightarrow> 'c disp \<Rightarrow> 'c disp option" where [disp_defs]:
  "post_to_subscribers E name type args sender cli_name s =
     (case map_of (subscriptions s) name of
        None \<Rightarrow> Some s
      | Some as \<Rightarrow>
          (let (kept, nobo, bo) = split_adapters E s as;
               tg = map_option (\<lambda>a. tag (heap s a)) sender;
               s = s\<lparr>subscriptions := map_put name kept (subscriptions s)\<rparr>
           in if sender = None \<and> kept \<noteq> [] then None
              else
                Option.bind
                  (if nobo = [] then Some s
                   else write_post_msg_to_adapters E name type args (the tg) 0 nobo cli_name s)
                (\<lambda>s. Option.bind
                  (if bo = [] then Some s
                   else write_post_msg_to_adapters E name type args (the tg)
                          (CAPS_FLAG_NET_BYTEORDER (caps E)) bo cli_name s)
                (\<lambda>s. Some (if kept = [] then s\<lparr>subscriptions := map_erase name (subscriptions s)\<rparr>
                           else s)))))"

definition post_msg ::
  "'c env \<Rightarrow> string \<Rightarrow> u32 \<Rightarrow> 'c option \<Rightarrow> aid option \<Rightarrow> 'c disp \<Rightarrow> (bool \<times> 'c disp) option" where [disp_defs]:
  "post_msg E name type args sender s =
     (if \<not> is_valid_msgtype type then Some (False, s)
      else
        (case (case sender of None \<Rightarrow> Some [] | Some a \<Rightarrow> map_option (c_str \<circ> ai_name) (deref_info s a)) of
           None \<Rightarrow> None
         | Some cli_name \<Rightarrow>
             if length name = 0 then Some (False, s)
             else
               (case post_to_subscribers E name type args sender cli_name s of
                  None \<Rightarrow> None
                | Some s \<Rightarrow>
                    Some (True, if type = FLORA_MSGTYPE_PERSIST
                                then s\<lparr>persist_msgs := map_put name args (persist_msgs s)\<rparr>
                                else s))))"

definition handle_post_req :: "'c env \<Rightarrow> 'c \<Rightarrow> aid \<Rightarrow> 'c disp \<Rightarrow> (bool \<times> 'c disp) option" where [disp_defs]:
  "handle_post_req E msg_caps a s =
     (if \<not> has_info s a then Some (False, s)
      else
        (case req_parse_post (caps E) msg_caps of
           None \<Rightarrow> Some (False, s)
         | Some (name, msgtype, args) \<Rightarrow> post_msg E name msgtype args (Some a) s))"

section \<open>Calls and replies\<close>

definition DEFAULT_CALL_TIMEOUT :: u32 where [flora_consts]: "DEFAULT_CALL_TIMEOUT = 200"

text \<open>The search for the insertion point and \<open>emplace\<close>.\<close>

fun insert_call :: "pending_call \<Rightarrow> pending_call list \<Rightarrow> pending_call list" where
  "insert_call pc [] = [pc]"
| "insert_call pc (p # ps) =
     (if discard_tp pc \<le> discard_tp p then pc # p # ps else p # insert_call pc ps)"

definition add_pending_call ::
  "time \<Rightarrow> i32 \<Rightarrow> i32 \<Rightarrow> aid \<Rightarrow> aid \<Rightarrow> u32 \<Rightarrow> 'c disp \<Rightarrow> 'c disp" where [disp_defs]:
  "add_pending_call nowtp sid cid sender target timeout s =
     (let timeout = (if timeout = 0 then DEFAULT_CALL_TIMEOUT else timeout);
          tp = nowtp + int (unat timeout) * 1000000
      in s\<lparr>pending_calls := insert_call
             \<lparr>svrid = sid, cliid = cid, pc_sender = sender, pc_target = target, discard_tp = tp\<rparr>
             (pending_calls s)\<rparr>)"

text \<open>\<open>it == end() || !it->second->info->has_method(name)\<close>: the target, if the call goes
  through; the outer \<open>None\<close> is an invalid \<open>info\<close> of the target.\<close>

definition find_callee :: "string \<Rightarrow> string \<Rightarrow> 'c disp \<Rightarrow> aid option option" where [disp_defs]:
  "find_callee target name s =
     (case map_of (named_adapters s) target of
        None \<Rightarrow> Some None
      | Some b \<Rightarrow>
          (case deref_info s b of
             None \<Rightarrow> None
           | Some i \<Rightarrow> Some (if has_method name i then Some b else None)))"

text \<open>\<open>reqseq\<close> is an \<open>int32_t\<close>; its increment past the largest value, undefined in C++, wraps
  here.\<close>

definition handle_call_req ::
  "'c env \<Rightarrow> time \<Rightarrow> 'c \<Rightarrow> aid \<Rightarrow> 'c disp \<Rightarrow> (bool \<times> 'c disp) option" where [disp_defs]:
  "handle_call_req E nowtp msg_caps a s =
     (if \<not> has_info s a then Some (False, s)
      else
        (case req_parse_call (caps E) msg_caps of
           None \<Rightarrow> Some (False, s)
         | Some (name, args, target, cid, timeout) \<Rightarrow>
             (case deref_info s a of
                None \<Rightarrow> None
              | Some i \<Rightarrow>
                  (case find_callee target name s of
                     None \<Rightarrow> None
                   | Some None \<Rightarrow>
                       (let m = resp_serialize_reply (caps E) cid FLORA_CLI_ENEXISTS None 0
                                  (d_buf_size s) (serialize_flags (heap s a))
                        in if sint (fst m) < 0 then Some (False, s)
                           else (let (r, s) = write_to E a m s
                                 in map_option (Pair True) (log_timeout r [a] s)))
                   | Some (Some b) \<Rightarrow>
                       (let sid = reqseq s + 1;
                            s = add_pending_call nowtp sid cid a b timeout (s\<lparr>reqseq := sid\<rparr>);
                            m = resp_serialize_call (caps E) (Some (c_str name)) args sid
                                  (tag (heap s a)) (Some (c_str (ai_name i))) (d_buf_size s)
                                  (serialize_flags (heap s b))
                        in if sint (fst m) < 0 then Some (False, s)
                           else (let (r, s) = write_to E b m s
                                 in map_option (Pair True) (log_timeout r [a, b] s)))))))"

definition matches :: "i32 \<Rightarrow> aid \<Rightarrow> pending_call \<Rightarrow> bool" where
  "matches sid a pc \<longleftrightarrow> svrid pc = sid \<and> pc_target pc = a"

definition handle_reply_req ::
  "'c env \<Rightarrow> 'c \<Rightarrow> aid \<Rightarrow> 'c disp \<Rightarrow> (bool \<times> 'c disp) option" where [disp_defs]:
  "handle_reply_req E msg_caps a s =
     (if \<not> has_info s a then Some (False, s)
      else
        (case req_parse_reply (caps E) msg_caps of
           None \<Rightarrow> Some (False, s)
         | Some (sid, rc, data) \<Rightarrow>
             (case deref_info s a of
                None \<Rightarrow> None
              | Some i \<Rightarrow>
                  (case dropWhile (\<lambda>pc. \<not> matches sid a pc) (pending_calls s) of
                     [] \<Rightarrow> Some (True, s)
                   | pc # after \<Rightarrow>
                       if closed (heap s (pc_sender pc)) then Some (True, s)
                       else
                         (let resp = \<lparr>ret_code = rc, resp_data = data, resp_extra = ai_name i\<rparr>;
                              m = resp_serialize_reply (caps E) (cliid pc) FLORA_CLI_SUCCESS
                                    (Some resp) (tag (heap s a)) (d_buf_size s)
                                    (serialize_flags (heap s (pc_sender pc)))
                          in if sint (fst m) < 0 then Some (False, s)
                             else if deref_info s (pc_sender pc) = None then None
                             else
                               (let (r, s') = write_to E (pc_sender pc) m s
                                in map_option
                                     (\<lambda>s. (True, s\<lparr>pending_calls :=
                                        takeWhile (\<lambda>pc. \<not> matches sid a pc) (pending_calls s) @ after\<rparr>))
                                     (log_timeout r [a, pc_sender pc] s')))))))"

definition handle_ping_req :: "'c env \<Rightarrow> 'c \<Rightarrow> aid \<Rightarrow> 'c disp \<Rightarrow> (bool \<times> 'c disp) option" where [disp_defs]:
  "handle_ping_req E msg_caps a s =
     (if \<not> has_info s a then Some (False, s)
      else
        (let m = resp_serialize_pong (caps E) (d_buf_size s) (serialize_flags (heap s a))
         in if sint (fst m) < 0 then Some (False, s)
            else (let (r, s) = write_to E a m s
                  in map_option (Pair True) (log_timeout r [a] s))))"

section \<open>Expiry of pending calls\<close>

definition pending_call_timeout :: "'c env \<Rightarrow> pending_call \<Rightarrow> 'c disp \<Rightarrow> 'c disp option" where [disp_defs]:
  "pending_call_timeout E pc s =
     (let m = resp_serialize_reply (caps E) (cliid pc) FLORA_CLI_ETIMEOUT None 0 (d_buf_size s)
                (serialize_flags (heap s (pc_sender pc)));
          (r, s) = write_to E (pc_sender pc) m s
      in log_timeout r [pc_sender pc, pc_target pc] s)"

fun discard_loop :: "'c env \<Rightarrow> time \<Rightarrow> pending_call list \<Rightarrow> 'c disp \<Rightarrow> 'c disp option" where
  "discard_loop E tp [] s = Some s"
| "discard_loop E tp (pc # pcs) s =
     (if tp < discard_tp pc then Some s
      else Option.bind (pending_call_timeout E pc s)
             (\<lambda>s. discard_loop E tp pcs (s\<lparr>pending_calls := pcs\<rparr>)))"

definition discard_pending_calls :: "'c env \<Rightarrow> time \<Rightarrow> 'c disp \<Rightarrow> 'c disp option" where [disp_defs]:
  "discard_pending_calls E tp s = discard_loop E tp (pending_calls s) s"

section \<open>The dispatcher thread\<close>

definition msg_handlers ::
  "'c env \<Rightarrow> time \<Rightarrow> ('c \<Rightarrow> aid \<Rightarrow> 'c disp \<Rightarrow> (bool \<times> 'c disp) option) list" where
  "msg_handlers E nowtp =
     [handle_auth_req E, handle_subscribe_req E, handle_unsubscribe_req E, handle_post_req E,
      handle_reply_req E, handle_declare_method E, handle_remove_method E,
      handle_call_req E nowtp, handle_ping_req E]"

text \<open>The part of \<open>handle_cmd\<close> that reads the command word and calls the handler. The check
  \<open>cmd >= MSG_HANDLER_COUNT\<close> is a signed comparison: a negative command word indexes in front of
  the table.\<close>

definition dispatch_cmd ::
  "'c env \<Rightarrow> time \<Rightarrow> time \<Rightarrow> 'c \<Rightarrow> aid \<Rightarrow> 'c disp \<Rightarrow> 'c disp option" where
  "dispatch_cmd E nowtp endtp msg_caps a s =
     (case read_i32 (caps E) msg_caps of
        (None, _) \<Rightarrow> Some (close_adapter a s)
      | (Some cmd, msg_caps) \<Rightarrow>
          if sint MSG_HANDLER_COUNT \<le> sint cmd then Some (close_adapter a s)
          else if sint cmd < 0 then None
          else
            (case (msg_handlers E nowtp ! nat (sint cmd)) msg_caps a s of
               None \<Rightarrow> None
             | Some (ok, s) \<Rightarrow>
                 Some ((if ok then s else close_adapter a s)\<lparr>handle_cmd_tp := endtp\<rparr>)))"

definition handle_cmd ::
  "'c env \<Rightarrow> time \<Rightarrow> time \<Rightarrow> 'c option \<Rightarrow> aid \<Rightarrow> 'c disp \<Rightarrow> 'c disp option" where
  "handle_cmd E nowtp endtp msg_caps a s =
     (case msg_caps of
        None \<Rightarrow> do_erase_adapter E nowtp a s
      | Some c \<Rightarrow>
          if has_info s a then
            (case deref_info s a of
               None \<Rightarrow> None
             | Some i \<Rightarrow>
                 if is_monitor (ai_flags i) then Some (close_adapter a s)
                 else dispatch_cmd E nowtp endtp c a s)
          else dispatch_cmd E nowtp endtp c a s)"

text \<open>\<open>handle_cmds\<close>, one step at a time: take the queued packets, discard expired calls when
  there are none, handle the packet at the iterator, and clear the list at its end. While it is
  handled, the packet itself is still in the list.\<close>

definition take_cmds :: "'c disp \<Rightarrow> 'c disp" where
  "take_cmds s = s\<lparr>pending_cmds := cmd_packets s @ pending_cmds s, cmd_packets := []\<rparr>"

definition step_cmd :: "'c env \<Rightarrow> time \<Rightarrow> time \<Rightarrow> 'c disp \<Rightarrow> 'c disp option" where
  "step_cmd E nowtp endtp s =
     (case pending_cmds s of
        [] \<Rightarrow> Some s
      | (m, a) # rest \<Rightarrow>
          map_option (\<lambda>s. s\<lparr>done_cmds := done_cmds s @ [(m, a)], pending_cmds := rest\<rparr>)
            (handle_cmd E nowtp endtp m a s))"

definition clear_cmds :: "'c disp \<Rightarrow> 'c disp" where
  "clear_cmds s = s\<lparr>done_cmds := [], pending_cmds := []\<rparr>"

end
