(* ===== verification/DispInv.thy ===== *)
theory DispInv
  imports Disp
begin

text \<open>
  The invariant of the dispatcher and its preservation by every operation: no handler follows an
  invalid pointer. The first part shows that writing to adapters and closing them is quiet: it
  changes nothing of the dispatcher but the log of the I/O and the adapters' being open.
\<close>

section \<open>Quiet steps\<close>

definition quiet :: "'c disp \<Rightarrow> 'c disp \<Rightarrow> bool" where
  "quiet s s' \<longleftrightarrow>
     s' = s\<lparr>heap := heap s', iolog := iolog s'\<rparr> \<and>
     (\<forall>a. info (heap s' a) = info (heap s a) \<and> tag (heap s' a) = tag (heap s a) \<and>
          serialize_flags (heap s' a) = serialize_flags (heap s a) \<and>
          (closed (heap s a) \<longrightarrow> closed (heap s' a)))"

lemma quiet_refl [simp]: "quiet s s"
  by (simp add: quiet_def)

lemma quiet_fields:
  assumes "quiet s s'"
  shows "subscriptions s' = subscriptions s" "persist_msgs s' = persist_msgs s"
    "named_adapters s' = named_adapters s" "d_buf_size s' = d_buf_size s"
    "cmd_packets s' = cmd_packets s" "pending_calls s' = pending_calls s" "reqseq s' = reqseq s"
    "adapter_infos s' = adapter_infos s" "monitors s' = monitors s" "d_flags s' = d_flags s"
    "pending_cmds s' = pending_cmds s" "done_cmds s' = done_cmds s" "poll_refs s' = poll_refs s"
    "info (heap s' a) = info (heap s a)" "tag (heap s' a) = tag (heap s a)"
    "serialize_flags (heap s' a) = serialize_flags (heap s a)"
    "closed (heap s a) \<Longrightarrow> closed (heap s' a)"
proof -
  from assms have e: "s' = s\<lparr>heap := heap s', iolog := iolog s'\<rparr>" by (simp add: quiet_def)
  show "subscriptions s' = subscriptions s" by (subst e) simp
  show "persist_msgs s' = persist_msgs s" by (subst e) simp
  show "named_adapters s' = named_adapters s" by (subst e) simp
  show "d_buf_size s' = d_buf_size s" by (subst e) simp
  show "cmd_packets s' = cmd_packets s" by (subst e) simp
  show "pending_calls s' = pending_calls s" by (subst e) simp
  show "reqseq s' = reqseq s" by (subst e) simp
  show "adapter_infos s' = adapter_infos s" by (subst e) simp
  show "monitors s' = monitors s" by (subst e) simp
  show "d_flags s' = d_flags s" by (subst e) simp
  show "pending_cmds s' = pending_cmds s" by (subst e) simp
  show "done_cmds s' = done_cmds s" by (subst e) simp
  show "poll_refs s' = poll_refs s" by (subst e) simp
qed (use assms in \<open>simp_all add: quiet_def\<close>)

lemma quiet_trans: "quiet s1 s2 \<Longrightarrow> quiet s2 s3 \<Longrightarrow> quiet s1 s3"
proof -
  assume 1: "quiet s1 s2" and 2: "quiet s2 s3"
  from 1 have e: "s2 = s1\<lparr>heap := heap s2, iolog := iolog s2\<rparr>" by (simp add: quiet_def)
  have h: "s2\<lparr>heap := h, iolog := l\<rparr> = s1\<lparr>heap := h, iolog := l\<rparr>" for h l
    by (subst e) simp
  have "s3 = s2\<lparr>heap := heap s3, iolog := iolog s3\<rparr>" using 2 by (simp add: quiet_def)
  also note h
  finally have "s3 = s1\<lparr>heap := heap s3, iolog := iolog s3\<rparr>" .
  with 1 2 show ?thesis by (simp add: quiet_def)
qed

lemma quiet_alive: "quiet s s' \<Longrightarrow> alive s' = alive s"
  by (rule ext) (simp add: alive_def quiet_fields)

lemma quiet_deref: "quiet s s' \<Longrightarrow> deref_info s' = deref_info s"
  by (rule ext) (simp add: deref_info_def quiet_fields split: info_ptr.split)

lemma quiet_has_info: "quiet s s' \<Longrightarrow> has_info s' = has_info s"
  by (rule ext) (simp add: has_info_def quiet_fields)

lemma quiet_name: "quiet s s' \<Longrightarrow> name_or_empty s' = name_or_empty s"
  by (rule ext) (simp add: name_or_empty_def quiet_has_info quiet_deref)

lemmas quiet_simps = quiet_fields(1-16) quiet_alive quiet_deref quiet_has_info quiet_name

lemma adapter_write_fields:
  "info (fst (snd (adapter_write K a sz data ad log))) = info ad"
  "tag (fst (snd (adapter_write K a sz data ad log))) = tag ad"
  "serialize_flags (fst (snd (adapter_write K a sz data ad log))) = serialize_flags ad"
  by (auto simp: adapter_write_def close_nolock_def Let_def split: option.splits sysret.splits)

lemma close_nolock_fields:
  "info (fst (close_nolock a ad log)) = info ad" "tag (fst (close_nolock a ad log)) = tag ad"
  "serialize_flags (fst (close_nolock a ad log)) = serialize_flags ad"
  by (auto simp: close_nolock_def split: option.splits)

lemma quiet_write: "quiet s (snd (write_to E a m s))"
  using adapter_write_fields [of "kern E" a "fst m" "snd m" "heap s a" "iolog s"]
    adapter_write_closed [of "heap s a" "kern E" a "fst m" "snd m" "iolog s"]
  by (auto simp: quiet_def write_to_def split: prod.splits)

lemma quiet_write_eq: "write_to E a m s = (r, s') \<Longrightarrow> quiet s s'"
  using quiet_write [of s E a m] by simp

lemma quiet_close: "quiet s (close_adapter a s)"
  using close_nolock_fields [of a "heap s a" "iolog s"]
    close_nolock_closed [of a "heap s a" "iolog s"]
  by (auto simp: quiet_def close_adapter_def adapter_close_def simp del: close_nolock_closed
      split: prod.splits)

lemma log_timeout_Some: "log_timeout r ps s = Some s' \<Longrightarrow> s' = s"
  by (simp add: log_timeout_def split: if_splits)

lemma log_timeout_ok:
  "(\<And>p. p \<in> set ps \<Longrightarrow> name_or_empty s p \<noteq> None) \<Longrightarrow> log_timeout r ps s = Some s"
  by (auto simp: log_timeout_def list_ex_iff)

lemma write_open_timeout:
  "fst (write_to E a m s) = - 2 \<Longrightarrow> \<not> closed (heap s a)"
  by (auto simp: write_to_def adapter_write_def closed_def split: option.splits)

lemma write_timeout_eagain:
  "write_to E a m s = (- 2, t) \<Longrightarrow> \<exists>l b n d. kern E l b n d = SysErr EAGAIN"
  by (auto simp: write_to_def adapter_write_def Let_def split: option.splits sysret.splits prod.splits
      if_splits)

text \<open>A loop of quiet steps is quiet.\<close>

lemma iterate_quiet:
  assumes "\<And>x s s'. x \<in> set xs \<Longrightarrow> f x s = Some s' \<Longrightarrow> quiet s s'" and "iterate f xs s = Some s'"
  shows "quiet s s'"
  using assms
proof (induction xs arbitrary: s)
  case (Cons x xs)
  then obtain t where "f x s = Some t" "iterate f xs t = Some s'" by (auto simp: bind_eq_Some)
  with Cons show ?case by (metis list.set_intros quiet_trans)
qed simp

text \<open>It has a result when every step has one in every state reached quietly.\<close>

lemma iterate_total:
  assumes "\<And>x t. x \<in> set xs \<Longrightarrow> quiet s t \<Longrightarrow> \<exists>t'. f x t = Some t' \<and> quiet t t'"
  shows "\<exists>s'. iterate f xs s = Some s' \<and> quiet s s'"
  using assms
proof (induction xs arbitrary: s)
  case (Cons x xs)
  from Cons.prems [of x s] obtain t where t: "f x s = Some t" "quiet s t" by auto
  have "\<exists>s'. iterate f xs t = Some s' \<and> quiet t s'"
  proof (rule Cons.IH)
    fix y u assume "y \<in> set xs" "quiet t u"
    with t(2) have "quiet s u" by (blast intro: quiet_trans)
    with \<open>y \<in> set xs\<close> show "\<exists>t'. f y u = Some t' \<and> quiet u t'" by (intro Cons.prems) simp_all
  qed
  with t show ?case by (auto intro: quiet_trans)
qed simp

section \<open>The invariant\<close>

text \<open>The packets still to be handled, in order.\<close>

definition queue :: "'c disp \<Rightarrow> ('c option \<times> aid) list" where
  "queue s = pending_cmds s @ cmd_packets s"

definition maps_ok :: "'c disp \<Rightarrow> bool" where
  "maps_ok s \<longleftrightarrow> map_ok (subscriptions s) \<and> map_ok (persist_msgs s) \<and> map_ok (named_adapters s) \<and>
     map_ok (adapter_infos s) \<and> map_ok (monitors s)"

text \<open>A registered name leads to an adapter whose info exists and carries that name.\<close>

definition named_ok :: "'c disp \<Rightarrow> bool" where
  "named_ok s \<longleftrightarrow>
     (\<forall>n a. map_of (named_adapters s) n = Some a \<longrightarrow>
        n \<noteq> [] \<and> info (heap s a) = InfoAdapter \<and>
        (\<exists>i. map_of (adapter_infos s) a = Some i \<and> ai_name i = n))"

text \<open>The two info maps hold the clients and the monitors.\<close>

definition infos_ok :: "'c disp \<Rightarrow> bool" where
  "infos_ok s \<longleftrightarrow>
     (\<forall>a i. map_of (adapter_infos s) a = Some i \<longrightarrow>
        info (heap s a) = InfoAdapter \<and> \<not> is_monitor (ai_flags i)) \<and>
     (\<forall>a i. map_of (monitors s) a = Some i \<longrightarrow>
        info (heap s a) = InfoMonitor \<and> is_monitor (ai_flags i))"

text \<open>Only clients subscribe, once each; only clients call and are called.\<close>

definition subs_ok :: "'c disp \<Rightarrow> bool" where
  "subs_ok s \<longleftrightarrow>
     (\<forall>n as. map_of (subscriptions s) n = Some as \<longrightarrow>
        n \<noteq> [] \<and> as \<noteq> [] \<and> distinct as \<and> (\<forall>a\<in>set as. info (heap s a) = InfoAdapter))"

definition calls_ok :: "'c disp \<Rightarrow> bool" where
  "calls_ok s \<longleftrightarrow>
     sorted (map discard_tp (pending_calls s)) \<and>
     (\<forall>pc\<in>set (pending_calls s).
        info (heap s (pc_sender pc)) = InfoAdapter \<and> info (heap s (pc_target pc)) = InfoAdapter)"

text \<open>An adapter whose info has been erased is closed, and neither the poll nor the queue
  mentions it any more.\<close>

definition gone :: "'c disp \<Rightarrow> aid \<Rightarrow> bool" where
  "gone s a \<longleftrightarrow>
     closed (heap s a) \<and> a \<notin> set (poll_refs s) \<and> a \<notin> snd ` set (queue s)"

definition valid_ok :: "'c disp \<Rightarrow> bool" where
  "valid_ok s \<longleftrightarrow> (\<forall>a. has_info s a \<longrightarrow> deref_info s a \<noteq> None \<or> gone s a)"

text \<open>The packet that erases an adapter is the last one from it, and the poll has closed and
  dropped the adapter.\<close>

fun erase_last :: "('c option \<times> aid) list \<Rightarrow> bool" where
  "erase_last [] = True"
| "erase_last ((m, a) # q) = ((m = None \<longrightarrow> a \<notin> snd ` set q) \<and> erase_last q)"

definition queue_ok :: "'c disp \<Rightarrow> bool" where
  "queue_ok s \<longleftrightarrow>
     erase_last (queue s) \<and>
     (\<forall>a. (None, a) \<in> set (queue s) \<longrightarrow> a \<notin> set (poll_refs s) \<and> closed (heap s a))"

text \<open>Whoever is registered, or has a request queued, is still with the poll or has an erase
  packet queued.\<close>

definition due_ok :: "'c disp \<Rightarrow> bool" where
  "due_ok s \<longleftrightarrow>
     (\<forall>a. a \<in> fst ` set (adapter_infos s) \<or> a \<in> fst ` set (monitors s) \<or>
          (\<exists>c. (Some c, a) \<in> set (queue s)) \<longrightarrow>
        a \<in> set (poll_refs s) \<or> (None, a) \<in> set (queue s))"

definition disp_inv :: "'c disp \<Rightarrow> bool" where
  "disp_inv s \<longleftrightarrow> maps_ok s \<and> named_ok s \<and> infos_ok s \<and> subs_ok s \<and> calls_ok s \<and> valid_ok s \<and>
     queue_ok s \<and> due_ok s"

lemmas inv_defs = maps_ok_def named_ok_def infos_ok_def subs_ok_def calls_ok_def valid_ok_def
  gone_def queue_ok_def due_ok_def queue_def

lemma disp_invD:
  assumes "disp_inv s"
  shows "maps_ok s" "named_ok s" "infos_ok s" "subs_ok s" "calls_ok s" "valid_ok s" "queue_ok s"
    "due_ok s"
  using assms by (simp_all add: disp_inv_def)

lemma disp_invI:
  "\<lbrakk>maps_ok s; named_ok s; infos_ok s; subs_ok s; calls_ok s; valid_ok s; queue_ok s; due_ok s\<rbrakk>
   \<Longrightarrow> disp_inv s"
  by (simp add: disp_inv_def)

lemma inv_new: "disp_inv (new_Dispatcher f bufsize epoch ids)"
  by (intro disp_invI)
    (simp_all add: inv_defs new_Dispatcher_def has_info_def new_SocketAdapter_def)

lemma inv_quiet:
  assumes q: "quiet s s'" and i: "disp_inv s"
  shows "disp_inv s'"
proof (rule disp_invI)
  note d = disp_invD [OF i] and c = quiet_fields(17) [OF q]
  show "maps_ok s'" using d(1) by (simp add: maps_ok_def quiet_simps [OF q])
  show "named_ok s'" using d(2) by (simp add: named_ok_def quiet_simps [OF q])
  show "infos_ok s'" using d(3) by (simp add: infos_ok_def quiet_simps [OF q])
  show "subs_ok s'" using d(4) by (simp add: subs_ok_def quiet_simps [OF q])
  show "calls_ok s'" using d(5) by (simp add: calls_ok_def quiet_simps [OF q])
  show "valid_ok s'" using d(6) c
    by (simp add: valid_ok_def gone_def queue_def quiet_simps [OF q]) blast
  show "queue_ok s'" using d(7) c by (simp add: queue_ok_def queue_def quiet_simps [OF q])
  show "due_ok s'" using d(8) by (simp add: due_ok_def queue_def quiet_simps [OF q])
qed

text \<open>Consequences the handlers need.\<close>

lemma inv_open_info:
  assumes "disp_inv s" and "has_info s a" and "\<not> closed (heap s a)"
  shows "deref_info s a \<noteq> None"
  using assms by (auto simp: disp_inv_def valid_ok_def gone_def)

lemma inv_queued_info:
  assumes "disp_inv s" and "has_info s a" and "a \<in> snd ` set (queue s)"
  shows "deref_info s a \<noteq> None"
  using assms by (auto simp: disp_inv_def valid_ok_def gone_def)

lemma inv_named_info:
  assumes "disp_inv s" and "map_of (named_adapters s) n = Some a"
  obtains i where "deref_info s a = Some i" and "ai_name i = n"
    and "map_of (adapter_infos s) a = Some i" and "info (heap s a) = InfoAdapter"
proof -
  from disp_invD(2) [OF assms(1)] assms(2) obtain i where
    i: "info (heap s a) = InfoAdapter" "map_of (adapter_infos s) a = Some i" "ai_name i = n"
    unfolding named_ok_def by blast
  show ?thesis by (rule that [of i]) (simp_all add: deref_info_def i)
qed

lemma alive_poll: "a \<in> set (poll_refs s) \<Longrightarrow> alive s a"
  by (simp add: alive_def)

lemma alive_queued: "a \<in> snd ` set (queue s) \<Longrightarrow> alive s a"
  unfolding alive_def queue_def by auto

lemma alive_queue: "(m, a) \<in> set (queue s) \<Longrightarrow> alive s a"
  by (rule alive_queued) (force intro: rev_image_eqI)

lemma inv_monitor_alive:
  assumes "disp_inv s" and "a \<in> fst ` set (monitors s)"
  shows "alive s a"
  using disp_invD(8) [OF assms(1), unfolded due_ok_def, rule_format, of a] assms(2)
  by (blast intro: alive_poll alive_queue)

lemma name_or_empty_ok: "deref_info s a \<noteq> None \<Longrightarrow> name_or_empty s a \<noteq> None"
  by (simp add: name_or_empty_def)

lemma has_info_Adapter: "info (heap s a) = InfoAdapter \<Longrightarrow> has_info s a"
  by (simp add: has_info_def)

text \<open>A client, as opposed to a monitor.\<close>

lemma client_info:
  assumes "disp_inv s" and "deref_info s a = Some i" and "\<not> is_monitor (ai_flags i)"
  shows "info (heap s a) = InfoAdapter" and "map_of (adapter_infos s) a = Some i"
  using assms
  by (auto simp: disp_inv_def infos_ok_def deref_info_def split: info_ptr.splits)

section \<open>Updates that keep the invariant\<close>

lemma upd_view [simp]:
  "deref_info (s\<lparr>subscriptions := x\<rparr>) = deref_info s" "has_info (s\<lparr>subscriptions := x\<rparr>) = has_info s"
  "deref_info (s\<lparr>persist_msgs := p\<rparr>) = deref_info s" "has_info (s\<lparr>persist_msgs := p\<rparr>) = has_info s"
  "deref_info (s\<lparr>pending_calls := c\<rparr>) = deref_info s" "has_info (s\<lparr>pending_calls := c\<rparr>) = has_info s"
  "deref_info (s\<lparr>reqseq := n\<rparr>) = deref_info s" "has_info (s\<lparr>reqseq := n\<rparr>) = has_info s"
  "deref_info (s\<lparr>handle_cmd_tp := t\<rparr>) = deref_info s" "has_info (s\<lparr>handle_cmd_tp := t\<rparr>) = has_info s"
  "deref_info (s\<lparr>clear_sub_prio := k\<rparr>) = deref_info s" "has_info (s\<lparr>clear_sub_prio := k\<rparr>) = has_info s"
  "deref_info (s\<lparr>named_adapters := d\<rparr>) = deref_info s" "has_info (s\<lparr>named_adapters := d\<rparr>) = has_info s"
  "deref_info (s\<lparr>working := w\<rparr>) = deref_info s" "has_info (s\<lparr>working := w\<rparr>) = has_info s"
  "has_info (s\<lparr>adapter_infos := i\<rparr>) = has_info s" "has_info (s\<lparr>monitors := m\<rparr>) = has_info s"
  by (auto simp: deref_info_def has_info_def fun_eq_iff split: info_ptr.split)

lemma inv_subs:
  assumes "disp_inv s" and "map_ok x"
    and "\<And>n as. map_of x n = Some as \<Longrightarrow>
      n \<noteq> [] \<and> as \<noteq> [] \<and> distinct as \<and> (\<forall>a\<in>set as. info (heap s a) = InfoAdapter)"
  shows "disp_inv (s\<lparr>subscriptions := x\<rparr>)"
  using assms by (intro disp_invI) (auto simp: disp_inv_def inv_defs)

lemma inv_calls:
  assumes "disp_inv s" and "sorted (map discard_tp c)"
    and "\<And>pc. pc \<in> set c \<Longrightarrow>
      info (heap s (pc_sender pc)) = InfoAdapter \<and> info (heap s (pc_target pc)) = InfoAdapter"
  shows "disp_inv (s\<lparr>pending_calls := c\<rparr>)"
  using assms by (intro disp_invI) (auto simp: disp_inv_def inv_defs)

lemma inv_persist: "disp_inv s \<Longrightarrow> map_ok p \<Longrightarrow> disp_inv (s\<lparr>persist_msgs := p\<rparr>)"
  by (intro disp_invI) (auto simp: disp_inv_def inv_defs)

lemma inv_counters:
  assumes "disp_inv s"
  shows "disp_inv (s\<lparr>reqseq := n\<rparr>)" and "disp_inv (s\<lparr>handle_cmd_tp := t\<rparr>)"
    and "disp_inv (s\<lparr>clear_sub_prio := k\<rparr>)" and "disp_inv (s\<lparr>working := w\<rparr>)"
  using assms by (auto simp: disp_inv_def inv_defs)

text \<open>What a handler keeps besides the invariant.\<close>

definition keeps :: "'c disp \<Rightarrow> 'c disp \<Rightarrow> bool" where
  "keeps s s' \<longleftrightarrow>
     disp_inv s' \<and> pending_cmds s' = pending_cmds s \<and> cmd_packets s' = cmd_packets s \<and>
     done_cmds s' = done_cmds s \<and> poll_refs s' = poll_refs s"

definition good :: "'c disp \<Rightarrow> (bool \<times> 'c disp) option \<Rightarrow> bool" where
  "good s m \<longleftrightarrow> (\<exists>ok s'. m = Some (ok, s') \<and> keeps s s')"

lemma keeps_quiet: "disp_inv s \<Longrightarrow> quiet s s' \<Longrightarrow> keeps s s'"
  by (simp add: keeps_def inv_quiet quiet_simps)

lemma keeps_then_quiet: "keeps s t \<Longrightarrow> quiet t u \<Longrightarrow> keeps s u"
  using inv_quiet [of t u] by (simp add: keeps_def quiet_fields)

lemma keeps_refl: "disp_inv s \<Longrightarrow> keeps s s"
  by (simp add: keeps_def)

lemma keeps_trans: "keeps s t \<Longrightarrow> keeps t u \<Longrightarrow> keeps s u"
  by (simp add: keeps_def)

lemma keeps_inv: "keeps s t \<Longrightarrow> disp_inv t"
  by (simp add: keeps_def)

lemma good_Some: "keeps s s' \<Longrightarrow> good s (Some (ok, s'))"
  by (simp add: good_def)

lemma good_same: "disp_inv s \<Longrightarrow> good s (Some (ok, s))"
  by (simp add: good_def keeps_refl)

text \<open>\<open>write\<close> and the log message after it.\<close>

lemma good_write:
  assumes "keeps s t" and "\<And>p. p \<in> set ps \<Longrightarrow> deref_info t p \<noteq> None"
  shows "good s (let (r, t) = write_to E a m t in map_option (Pair ok) (log_timeout r ps t))"
proof -
  obtain r u where w: "write_to E a m t = (r, u)" by fastforce
  note q = quiet_write_eq [OF w]
  have "log_timeout r ps u = Some u"
    using assms(2) by (intro log_timeout_ok) (simp add: quiet_simps [OF q] name_or_empty_ok)
  with w keeps_then_quiet [OF assms(1) q] show ?thesis by (simp add: good_Some)
qed

section \<open>The handlers\<close>

text \<open>The situation in which a handler of a registered client runs.\<close>

definition client_at :: "'c disp \<Rightarrow> aid \<Rightarrow> bool" where
  "client_at s a \<longleftrightarrow>
     disp_inv s \<and> a \<in> snd ` set (queue s) \<and>
     (has_info s a \<longrightarrow> (\<exists>i. map_of (adapter_infos s) a = Some i \<and> info (heap s a) = InfoAdapter))"

lemma client_atD:
  assumes "client_at s a"
  shows "disp_inv s" and "has_info s a \<Longrightarrow> info (heap s a) = InfoAdapter"
    and "has_info s a \<Longrightarrow> \<exists>i. deref_info s a = Some i \<and> map_of (adapter_infos s) a = Some i"
    and "alive s a"
  using assms by (auto simp: client_at_def deref_info_def alive_queued)

lemma purge_filter: "purge bad as = filter (\<lambda>a. \<not> bad a) as"
  by (induction as) simp_all

lemma sorted_insert_call:
  "sorted (map discard_tp ps) \<Longrightarrow> sorted (map discard_tp (insert_call pc ps))"
proof (induction ps)
  case (Cons p ps)
  have "set (insert_call pc ps) \<subseteq> insert pc (set ps)" by (induction ps) auto
  with Cons show ?case by fastforce
qed simp

lemma set_insert_call: "set (insert_call pc ps) = insert pc (set ps)"
  by (induction ps) auto

lemma good_unsubscribe:
  assumes "client_at s a"
  shows "good s (handle_unsubscribe_req E c a s)"
proof -
  note d = client_atD [OF assms]
  have "keeps s (s\<lparr>subscriptions := (if as' = [] then map_erase n (subscriptions s)
      else map_put n as' (subscriptions s))\<rparr>)"
    if "map_of (subscriptions s) n = Some as" "as' = purge bad as" for n as as' bad
  proof -
    have "map_ok (subscriptions s)" and so: "subs_ok s" using d(1) by (auto simp: disp_inv_def maps_ok_def)
    then have "disp_inv (s\<lparr>subscriptions := (if as' = [] then map_erase n (subscriptions s)
        else map_put n as' (subscriptions s))\<rparr>)"
      using that so
      by (intro inv_subs d(1)) (auto simp: smap_simps smap.inv_put smap.inv_erase purge_filter subs_ok_def
          split: if_splits)
    then show ?thesis by (simp add: keeps_def)
  qed
  then show ?thesis
    using d by (auto simp: handle_unsubscribe_req_def good_same good_Some Let_def simp del: if_split
        split: option.split if_split_asm if_split)
qed

lemma good_ping:
  assumes "client_at s a"
  shows "good s (handle_ping_req E c a s)"
proof -
  note d = client_atD [OF assms]
  have "good s (let (r, s) = write_to E a m s in map_option (Pair True) (log_timeout r [a] s))"
    if "has_info s a" for m
    using d that by (intro good_write keeps_refl) auto
  then show ?thesis using d(1) by (simp add: handle_ping_req_def good_same Let_def)
qed

lemma good_subscribe:
  assumes "client_at s a"
  shows "good s (handle_subscribe_req E c a s)"
proof (cases "has_info s a \<and> (\<exists>name. req_parse_subscribe (caps E) c = Some name \<and> name \<noteq> [])")
  case False
  then show ?thesis using client_atD [OF assms]
    by (auto simp: handle_subscribe_req_def good_same split: option.splits)
next
  case True
  then obtain name where h: "has_info s a" "req_parse_subscribe (caps E) c = Some name" "name \<noteq> []"
    by auto
  note d = client_atD [OF assms]
  obtain i where i: "deref_info s a = Some i" using d(3) h(1) by blast
  define as where "as = (case map_of (subscriptions s) name of None \<Rightarrow> [] | Some as \<Rightarrow> as)"
  define t where "t = s\<lparr>subscriptions := map_put name as (subscriptions s)\<rparr>"
  define u where "u = t\<lparr>subscriptions := map_put name (as @ [a]) (subscriptions t)\<rparr>"
  have so: "map_ok (subscriptions s)" "subs_ok s" using d(1) by (auto simp: disp_inv_def maps_ok_def)
  have as: "distinct as" "\<forall>b\<in>set as. info (heap s b) = InfoAdapter"
    using so(2) by (cases "map_of (subscriptions s) name"; simp add: as_def subs_ok_def)+
  have alive: "alive t a" using d(4) by (simp add: t_def alive_def)
  show ?thesis
  proof (cases "a \<in> set as")
    case True
    then have "map_of (subscriptions s) name = Some as"
      by (cases "map_of (subscriptions s) name") (auto simp: as_def)
    with so as True have "disp_inv t" unfolding t_def
      by (intro inv_subs d(1)) (auto simp: smap_simps smap.inv_put subs_ok_def h(3) split: if_splits)
    then have "keeps s t" by (simp add: keeps_def t_def)
    moreover have "list_ex (\<lambda>b. alive t b \<and> b = a) as" using True alive by (auto simp: list_ex_iff)
    ultimately show ?thesis using h i
      by (simp add: handle_subscribe_req_def as_def [symmetric] t_def [symmetric] good_Some)
  next
    case False
    have "info (heap s a) = InfoAdapter" using d(2) h(1) .
    with so as False have "disp_inv u" unfolding u_def t_def
      by simp (intro inv_subs d(1), auto simp: smap_simps smap.inv_put subs_ok_def h(3) split: if_splits)
    then have k: "keeps s u" by (simp add: keeps_def t_def u_def)
    have "\<not> list_ex (\<lambda>b. alive t b \<and> b = a) as" using False by (auto simp: list_ex_iff)
    moreover have "good s (let (r, u) = write_to E a m u in map_option (Pair True) (log_timeout r [a] u))" for m
      by (rule good_write [OF k]) (simp add: u_def t_def i)
    ultimately show ?thesis using h i k
      by (simp add: handle_subscribe_req_def as_def [symmetric] t_def [symmetric] u_def [symmetric] good_Some
          Let_def split: option.split)
  qed
qed

text \<open>Changing the declared methods of a client.\<close>

lemma keeps_set_info:
  assumes "client_at s a" and "deref_info s a = Some i" and "has_info s a"
    and "ai_name i' = ai_name i" and "ai_flags i' = ai_flags i"
  shows "keeps s (set_info a i' s)"
proof -
  note d = client_atD [OF assms(1)] and v = disp_invD [OF client_atD(1) [OF assms(1)]]
  note ia = d(2) [OF assms(3)]
  have m: "map_of (adapter_infos s) a = Some i" using ia assms(2) by (simp add: deref_info_def)
  let ?t = "s\<lparr>adapter_infos := map_put a i' (adapter_infos s)\<rparr>"
  have keys: "fst ` set (map_put a i' (adapter_infos s)) = fst ` set (adapter_infos s)"
    using map_put_keys [of a i' "adapter_infos s"] map_of_SomeD [OF m] by (force simp: insert_absorb)
  have dd: "deref_info ?t b \<noteq> None" if "deref_info s b \<noteq> None" for b
    using that by (auto simp: deref_info_def smap_simps split: info_ptr.splits)
  have "disp_inv ?t"
  proof (rule disp_invI)
    show "maps_ok ?t" using v(1) by (simp add: maps_ok_def smap.inv_put)
    show "named_ok ?t" using v(2) m assms(4) by (fastforce simp: named_ok_def smap_simps)
    show "infos_ok ?t" using v(3) m ia assms(5) by (auto simp: infos_ok_def smap_simps)
    show "subs_ok ?t" using v(4) by (simp add: subs_ok_def)
    show "calls_ok ?t" using v(5) by (simp add: calls_ok_def)
    show "valid_ok ?t" using v(6) dd by (auto simp: valid_ok_def gone_def queue_def has_info_def)
    show "queue_ok ?t" using v(7) by (simp add: queue_ok_def queue_def)
    show "due_ok ?t" using v(8) by (simp add: due_ok_def queue_def keys)
  qed
  then show ?thesis by (simp add: keeps_def set_info_def ia)
qed

lemma good_declare:
  assumes "client_at s a"
  shows "good s (handle_declare_method E c a s)"
proof -
  have "keeps s (set_info a (snd (declare_method n i)) s)"
    if "deref_info s a = Some i" "has_info s a" for n i
    by (rule keeps_set_info [OF assms that]) (simp_all add: declare_method_def)
  then show ?thesis using client_atD [OF assms]
    by (auto simp: handle_declare_method_def declare_method_def good_same good_Some split: option.split)
qed

lemma good_remove:
  assumes "client_at s a"
  shows "good s (handle_remove_method E c a s)"
proof -
  have "keeps s (set_info a (remove_method n i) s)"
    if "deref_info s a = Some i" "has_info s a" for n i
    by (rule keeps_set_info [OF assms that]) (simp_all add: remove_method_def)
  then show ?thesis using client_atD [OF assms]
    by (auto simp: handle_remove_method_def good_same good_Some split: option.split)
qed

text \<open>Posting: the receivers are open, so their info exists.\<close>

lemma split_adapters_filter:
  "split_adapters E s as =
     (filter (\<lambda>a. alive s a \<and> \<not> closed (heap s a)) as,
      filter (\<lambda>a. alive s a \<and> \<not> closed (heap s a) \<and>
                  serialize_flags (heap s a) \<noteq> CAPS_FLAG_NET_BYTEORDER (caps E)) as,
      filter (\<lambda>a. alive s a \<and> \<not> closed (heap s a) \<and>
                  serialize_flags (heap s a) = CAPS_FLAG_NET_BYTEORDER (caps E)) as)"
  by (induction as) (auto simp: Let_def)

lemma write_post_msg_to_ok:
  assumes "deref_info t b \<noteq> None"
  shows "\<exists>t'. write_post_msg_to E m b t = Some t' \<and> quiet t t'"
proof (cases "alive t b")
  case True
  obtain r u where w: "write_to E b m t = (r, u)" by fastforce
  note q = quiet_write_eq [OF w]
  have "log_timeout r [b] u = Some u"
    using assms by (intro log_timeout_ok) (simp add: quiet_simps [OF q] name_or_empty_ok)
  with True w q assms show ?thesis by (auto simp: write_post_msg_to_def)
qed (simp add: write_post_msg_to_def)

lemma write_post_msg_to_adapters_ok:
  assumes "\<And>b. b \<in> set bs \<Longrightarrow> deref_info t b \<noteq> None"
  shows "\<exists>t'. write_post_msg_to_adapters E name type args tg fl bs cn t = Some t' \<and> quiet t t'"
proof -
  have "\<exists>t'. iterate (write_post_msg_to E m) bs t = Some t' \<and> quiet t t'" for m
    by (rule iterate_total) (simp add: write_post_msg_to_ok quiet_deref assms)
  then show ?thesis by (simp add: write_post_msg_to_adapters_def Let_def)
qed

lemma inv_receivers:
  assumes "disp_inv s" and "map_of (subscriptions s) n = Some as"
    and "b \<in> set (filter (\<lambda>a. alive s a \<and> \<not> closed (heap s a)) as)"
  shows "deref_info s b \<noteq> None"
proof -
  from disp_invD(4) [OF assms(1)] assms(2,3) have "has_info s b"
    by (auto simp: subs_ok_def has_info_def)
  with assms(1,3) show ?thesis by (auto dest: inv_open_info)
qed

lemma post_to_subscribers_split:
  assumes "map_of (subscriptions s) name = Some as" and "split_adapters E s as = (kept, nobo, bo)"
  shows "post_to_subscribers E name type args (Some a) cn s =
    Option.bind
      (if nobo = [] then Some (s\<lparr>subscriptions := map_put name kept (subscriptions s)\<rparr>)
       else write_post_msg_to_adapters E name type args (tag (heap s a)) 0 nobo cn
              (s\<lparr>subscriptions := map_put name kept (subscriptions s)\<rparr>))
    (\<lambda>s2. Option.bind
      (if bo = [] then Some s2
       else write_post_msg_to_adapters E name type args (tag (heap s a))
              (CAPS_FLAG_NET_BYTEORDER (caps E)) bo cn s2)
    (\<lambda>s3. Some (if kept = [] then s3\<lparr>subscriptions := map_erase name (subscriptions s3)\<rparr> else s3)))"
  by (simp add: post_to_subscribers_def assms Let_def)

lemma quiet_subs:
  assumes "quiet (s\<lparr>subscriptions := x\<rparr>) t"
  shows "quiet s (t\<lparr>subscriptions := subscriptions s\<rparr>)"
proof -
  from assms have e: "t = s\<lparr>subscriptions := x, heap := heap t, iolog := iolog t\<rparr>"
    by (simp add: quiet_def)
  have "t\<lparr>subscriptions := subscriptions s\<rparr> = s\<lparr>heap := heap t, iolog := iolog t\<rparr>"
    by (subst e) simp
  with assms show ?thesis by (simp add: quiet_def)
qed

text \<open>Delivering to the living subscribers: the list of the name becomes the living ones, and goes if there are
  none.\<close>

lemma delivered_keeps:
  assumes "disp_inv s" and "map_of (subscriptions s) name = Some as"
    and kept: "kept = filter (\<lambda>a. alive s a \<and> \<not> closed (heap s a)) as"
    and q: "quiet (s\<lparr>subscriptions := map_put name kept (subscriptions s)\<rparr>) u"
  shows "keeps s (if kept = [] then u\<lparr>subscriptions := map_erase name (subscriptions u)\<rparr> else u)"
proof -
  have so: "map_ok (subscriptions s)" "subs_ok s" using assms(1) by (auto simp: disp_inv_def maps_ok_def)
  show ?thesis
  proof (cases "kept = []")
    case True
    have "quiet s (u\<lparr>subscriptions := subscriptions s\<rparr>)" by (rule quiet_subs [OF q])
    then have "disp_inv (u\<lparr>subscriptions := subscriptions s\<rparr>)" using inv_quiet assms(1) by blast
    then have "disp_inv (u\<lparr>subscriptions := subscriptions s, subscriptions := map_erase name (subscriptions u)\<rparr>)"
      using so by - (rule inv_subs,
        auto simp: quiet_fields [OF q] smap_simps smap.inv_put smap.inv_erase subs_ok_def split: if_splits)
    with True show ?thesis by (simp add: keeps_def quiet_fields [OF q])
  next
    case False
    have "disp_inv (s\<lparr>subscriptions := map_put name kept (subscriptions s)\<rparr>)" using so assms(2) False unfolding kept
      by (intro inv_subs assms(1)) (auto simp: smap_simps smap.inv_put subs_ok_def split: if_splits)
    then have "keeps s (s\<lparr>subscriptions := map_put name kept (subscriptions s)\<rparr>)" by (simp add: keeps_def)
    with q False show ?thesis by (auto intro: keeps_then_quiet)
  qed
qed

lemma post_to_subscribers_keeps:
  assumes "disp_inv s"
  shows "\<exists>t. post_to_subscribers E name type args (Some a) cn s = Some t \<and> keeps s t \<and> persist_msgs t = persist_msgs s"
proof (cases "map_of (subscriptions s) name")
  case None
  then show ?thesis by (simp add: post_to_subscribers_def keeps_refl assms)
next
  case (Some as)
  obtain kept nobo bo where sp: "split_adapters E s as = (kept, nobo, bo)" by (rule prod_cases3)
  then have kept: "kept = filter (\<lambda>a. alive s a \<and> \<not> closed (heap s a)) as"
      and sub: "set nobo \<subseteq> set kept" "set bo \<subseteq> set kept"
    by (auto simp: split_adapters_filter)
  let ?s1 = "s\<lparr>subscriptions := map_put name kept (subscriptions s)\<rparr>"
  have r: "deref_info ?s1 b \<noteq> None" if "b \<in> set nobo \<or> b \<in> set bo" for b
    using that sub inv_receivers [OF assms Some, folded kept] by auto
  obtain s2 where s2: "quiet ?s1 s2" "(if nobo = [] then Some ?s1
      else write_post_msg_to_adapters E name type args (tag (heap s a)) 0 nobo cn ?s1) = Some s2"
    using write_post_msg_to_adapters_ok [of nobo ?s1] r by (cases "nobo = []") (simp, meson)+
  have r2: "deref_info s2 b \<noteq> None" if "b \<in> set bo" for b using r that quiet_deref [OF s2(1)] by simp
  obtain s3 where s3: "quiet s2 s3" "(if bo = [] then Some s2
      else write_post_msg_to_adapters E name type args (tag (heap s a))
        (CAPS_FLAG_NET_BYTEORDER (caps E)) bo cn s2) = Some s3"
    using write_post_msg_to_adapters_ok [of bo s2] r2 by (cases "bo = []") (simp, meson)+
  note q = quiet_trans [OF s2(1) s3(1)]
  have "post_to_subscribers E name type args (Some a) cn s =
      Some (if kept = [] then s3\<lparr>subscriptions := map_erase name (subscriptions s3)\<rparr> else s3)"
    by (simp only: post_to_subscribers_split [OF Some sp] s2(2) s3(2) Option.bind.simps)
  with delivered_keeps [OF assms Some kept q] show ?thesis by (auto simp: quiet_fields [OF q])
qed

lemma good_post_msg:
  assumes "client_at s a" and "has_info s a"
  shows "good s (post_msg E name type args (Some a) s)"
proof -
  note d = client_atD [OF assms(1)]
  have k: "keeps s (t\<lparr>persist_msgs := map_put name args (persist_msgs t)\<rparr>)"
    if "keeps s t" "persist_msgs t = persist_msgs s" for t
    using that d(1) inv_persist [of t] by (simp add: keeps_def smap.inv_put disp_inv_def maps_ok_def)
  obtain i where i: "deref_info s a = Some i" using d(3) [OF assms(2)] by blast
  from post_to_subscribers_keeps [OF d(1)] obtain t where t: "keeps s t" "persist_msgs t = persist_msgs s"
      "post_to_subscribers E name type args (Some a) (c_str (ai_name i)) s = Some t" by blast
  from i t k [OF t(1,2)] d(1) show ?thesis by (simp add: post_msg_def good_same good_Some)
qed

lemma good_post:
  assumes "client_at s a"
  shows "good s (handle_post_req E c a s)"
  using client_atD(1) [OF assms] good_post_msg [OF assms]
  by (auto simp: handle_post_req_def good_same split: option.split)

lemma good_call:
  assumes "client_at s a"
  shows "good s (handle_call_req E tp c a s)"
proof (cases "has_info s a \<and> req_parse_call (caps E) c \<noteq> None")
  case False
  then show ?thesis using client_atD(1) [OF assms]
    by (auto simp: handle_call_req_def good_same split: option.split)
next
  case True
  then obtain name args target cid timeout where h: "has_info s a"
      "req_parse_call (caps E) c = Some (name, args, target, cid, timeout)"
    by (metis not_None_eq prod_cases5)
  note d = client_atD [OF assms]
  obtain i where i: "deref_info s a = Some i" using d(3) h(1) by blast
  obtain r where r: "find_callee target name s = Some r"
  proof (cases "map_of (named_adapters s) target")
    case (Some b)
    with inv_named_info [OF d(1)] obtain ib where "deref_info s b = Some ib" by blast
    with Some that show ?thesis by (simp add: find_callee_def)
  qed (use that in \<open>simp add: find_callee_def\<close>)
  have none: "good s (let (r, s) = write_to E a m s in map_option (Pair True) (log_timeout r [a] s))" for m
    using i by (intro good_write keeps_refl d(1)) simp
  show ?thesis
  proof (cases r)
    case None
    with h i r none d(1) show ?thesis by (simp add: handle_call_req_def Let_def good_same)
  next
    case (Some b)
    with r obtain ib where b: "map_of (named_adapters s) target = Some b" "deref_info s b = Some ib"
      by (auto simp: find_callee_def split: option.splits if_splits)
    define t where "t = add_pending_call tp (reqseq s + 1) cid a b timeout (s\<lparr>reqseq := reqseq s + 1\<rparr>)"
    have ib: "info (heap s b) = InfoAdapter" using inv_named_info [OF d(1) b(1)] by blast
    have "disp_inv t"
      using disp_invD(5) [OF d(1)] ib d(2) [OF h(1)] unfolding t_def add_pending_call_def Let_def
      by (intro inv_calls inv_counters d(1)) (auto simp: calls_ok_def sorted_insert_call set_insert_call)
    then have k: "keeps s t" by (simp add: keeps_def t_def add_pending_call_def Let_def)
    have dt: "deref_info t = deref_info s" by (simp add: t_def add_pending_call_def Let_def)
    have "good s (let (r, t) = write_to E b m t in map_option (Pair True) (log_timeout r [a, b] t))" for m
      by (rule good_write [OF k]) (auto simp: dt i b)
    with h i r Some k show ?thesis
      by (simp add: handle_call_req_def Let_def t_def [symmetric] good_Some)
  qed
qed

lemma sorted_delete: "sorted (map f (xs @ x # ys)) \<Longrightarrow> sorted (map f (xs @ ys))"
  by (simp add: sorted_append)

lemma good_reply:
  assumes "client_at s a"
  shows "good s (handle_reply_req E c a s)"
proof (cases "has_info s a \<and> req_parse_reply (caps E) c \<noteq> None")
  case False
  then show ?thesis using client_atD(1) [OF assms]
    by (auto simp: handle_reply_req_def good_same split: option.split)
next
  case True
  then obtain sid rc data where h: "has_info s a" "req_parse_reply (caps E) c = Some (sid, rc, data)"
    by (metis not_None_eq prod_cases3)
  note d = client_atD [OF assms]
  obtain i where i: "deref_info s a = Some i" using d(3) h(1) by blast
  let ?P = "\<lambda>pc. \<not> matches sid a pc"
  show ?thesis
  proof (cases "dropWhile ?P (pending_calls s)")
    case Nil
    with h i d(1) show ?thesis
      by (simp add: handle_reply_req_def good_same del: dropWhile_eq_Nil_conv)
  next
    case (Cons pc after)
    then have pcs: "pending_calls s = takeWhile ?P (pending_calls s) @ pc # after"
      by (metis takeWhile_dropWhile_id)
    have co: "calls_ok s" by (rule disp_invD(5) [OF d(1)])
    have "good s (let (r, s') = write_to E (pc_sender pc) m s in
        map_option (\<lambda>s. (True, s\<lparr>pending_calls := takeWhile ?P (pending_calls s) @ after\<rparr>))
          (log_timeout r [a, pc_sender pc] s'))" if "deref_info s (pc_sender pc) \<noteq> None" for m
    proof -
      obtain r u where w: "write_to E (pc_sender pc) m s = (r, u)" by fastforce
      note q = quiet_write_eq [OF w]
      have l: "log_timeout r [a, pc_sender pc] u = Some u"
        using that i by (intro log_timeout_ok) (auto simp: quiet_simps [OF q] name_or_empty_def)
      have "sorted (map discard_tp (takeWhile ?P (pending_calls s) @ after))"
        by (rule sorted_delete [where x = pc]) (metis co calls_ok_def pcs)
      moreover have "set (takeWhile ?P (pending_calls s) @ after) \<subseteq> set (pending_calls s)"
        by (subst (2) pcs) auto
      ultimately have "disp_inv (u\<lparr>pending_calls := takeWhile ?P (pending_calls u) @ after\<rparr>)"
        using co by (intro inv_calls inv_quiet [OF q d(1)]) (auto simp: quiet_simps [OF q] calls_ok_def)
      then show ?thesis using w l
        by (simp add: good_Some keeps_def quiet_simps [OF q])
    qed
    moreover have "deref_info s (pc_sender pc) \<noteq> None" if "\<not> closed (heap s (pc_sender pc))"
    proof -
      have "pc \<in> set (pending_calls s)" by (subst pcs) simp
      with co have "has_info s (pc_sender pc)" by (auto simp: calls_ok_def has_info_def)
      with that d(1) show ?thesis by (intro inv_open_info)
    qed
    ultimately show ?thesis
      using h i d(1) Cons
      by (cases "closed (heap s (pc_sender pc))"; auto simp: handle_reply_req_def Let_def good_same)
  qed
qed

end
