(* ===== verification/DispAuth.thy ===== *)
theory DispAuth
  imports DispInv
begin

text \<open>
  The second part of the invariant proof: authentication, erasing an adapter, the expiry of
  calls, and the steps of the dispatcher thread.
\<close>

section \<open>Authentication\<close>

text \<open>An adapter that has not authenticated yet, with a packet in the queue.\<close>

definition new_at :: "'c disp \<Rightarrow> aid \<Rightarrow> bool" where
  "new_at s a \<longleftrightarrow>
     disp_inv s \<and> \<not> has_info s a \<and> a \<in> snd ` set (queue s) \<and>
     (a \<in> set (poll_refs s) \<or> (None, a) \<in> set (queue s))"

lemma new_at_fresh:
  assumes "new_at s a"
  shows "map_of (adapter_infos s) a = None" and "map_of (monitors s) a = None"
    and "info (heap s a) = InfoNull"
proof -
  from assms have ok: "infos_ok s" and n: "info (heap s a) = InfoNull"
    by (simp_all add: new_at_def disp_inv_def has_info_def)
  show "map_of (adapter_infos s) a = None"
    by (cases "map_of (adapter_infos s) a") (use ok n in \<open>simp_all add: infos_ok_def\<close>)
  show "map_of (monitors s) a = None"
    by (cases "map_of (monitors s) a") (use ok n in \<open>simp_all add: infos_ok_def\<close>)
  show "info (heap s a) = InfoNull" by (rule n)
qed

text \<open>The state after an adapter has got its info.\<close>

definition register :: "aid \<Rightarrow> info_ptr \<Rightarrow> (string \<times> aid) list \<Rightarrow> (aid \<times> adapter_info) list \<Rightarrow>
    (aid \<times> adapter_info) list \<Rightarrow> u32 \<Rightarrow> 'c disp \<Rightarrow> 'c disp" where
  "register a p named infos mons ids s =
     upd_adapter a (\<lambda>ad. ad\<lparr>info := p\<rparr>)
       (s\<lparr>named_adapters := named, idseq := ids, adapter_infos := infos, monitors := mons\<rparr>)"

lemma register_fields [simp]:
  "subscriptions (register a p n i m q s) = subscriptions s"
  "persist_msgs (register a p n i m q s) = persist_msgs s"
  "named_adapters (register a p n i m q s) = n" "adapter_infos (register a p n i m q s) = i"
  "monitors (register a p n i m q s) = m" "pending_calls (register a p n i m q s) = pending_calls s"
  "pending_cmds (register a p n i m q s) = pending_cmds s"
  "cmd_packets (register a p n i m q s) = cmd_packets s"
  "done_cmds (register a p n i m q s) = done_cmds s"
  "poll_refs (register a p n i m q s) = poll_refs s"
  "closed (heap (register a p n i m q s) b) = closed (heap s b)"
  "info (heap (register a p n i m q s) b) = (if b = a then p else info (heap s b))"
  by (simp_all add: register_def upd_adapter_def closed_def)

lemma other_info: "new_at s a \<Longrightarrow> info (heap s b) \<noteq> InfoNull \<Longrightarrow> b \<noteq> a"
  by (auto simp: new_at_def has_info_def)

lemma inv_register_adapter:
  assumes n: "new_at s a" and nm: "\<not> is_monitor (ai_flags i)"
    and named: "named = named_adapters s \<or>
      (ai_name i \<noteq> [] \<and> map_of (named_adapters s) (ai_name i) = None \<and>
       named = map_put (ai_name i) a (named_adapters s))"
  shows "disp_inv (register a InfoAdapter named (map_put a i (adapter_infos s)) (monitors s) q s)"
    (is "disp_inv ?t")
proof (rule disp_invI)
  have "disp_inv s" using n by (simp add: new_at_def)
  note v = disp_invD [OF this] and f = new_at_fresh [OF n]
  have dd: "deref_info ?t b = (if b = a then Some i else deref_info s b)" for b
    by (simp add: deref_info_def smap_simps split: info_ptr.split)
  have "map_ok named" using v(1) named by (elim disjE conjE) (simp_all add: maps_ok_def smap.inv_put)
  then show "maps_ok ?t" using v(1) by (simp add: maps_ok_def smap.inv_put)
  have named_cases: "n = ai_name i \<and> b = a \<and> n \<noteq> [] \<or> map_of (named_adapters s) n = Some b"
    if "map_of named n = Some b" for n b
    using named that by (elim disjE conjE) (simp_all add: smap_simps split: if_splits)
  show "named_ok ?t"
    unfolding named_ok_def register_fields
  proof (intro allI impI)
    fix n b assume h: "map_of named n = Some b"
    consider "n = ai_name i" "b = a" "n \<noteq> []" | "map_of (named_adapters s) n = Some b"
      using named_cases [OF h] by blast
    then show "n \<noteq> [] \<and> (if b = a then InfoAdapter else info (heap s b)) = InfoAdapter \<and>
        (\<exists>j. map_of (map_put a i (adapter_infos s)) b = Some j \<and> ai_name j = n)"
    proof cases
      case 2
      from v(2) 2 obtain j where "n \<noteq> []" "info (heap s b) = InfoAdapter"
          "map_of (adapter_infos s) b = Some j" "ai_name j = n"
        unfolding named_ok_def by blast
      with f(1) show ?thesis by (auto simp: smap_simps)
    qed (simp add: smap_simps)
  qed
  show "infos_ok ?t" using v(3) nm f by (auto simp: infos_ok_def smap_simps)
  show "subs_ok ?t" using v(4) by (auto simp: subs_ok_def)
  show "calls_ok ?t" using v(5) by (auto simp: calls_ok_def)
  show "valid_ok ?t" using v(6) dd by (auto simp: valid_ok_def gone_def queue_def has_info_def)
  show "queue_ok ?t" using v(7) by (simp add: queue_ok_def queue_def)
  show "due_ok ?t"
    using v(8) n map_put_keys [of a i "adapter_infos s"] by (auto simp: due_ok_def queue_def new_at_def)
qed

lemma inv_register_monitor:
  assumes n: "new_at s a" and m: "is_monitor (ai_flags i)"
  shows "disp_inv (register a InfoMonitor (named_adapters s) (adapter_infos s)
    (map_put a i (monitors s)) q s)" (is "disp_inv ?t")
proof (rule disp_invI)
  have "disp_inv s" using n by (simp add: new_at_def)
  note v = disp_invD [OF this] and f = new_at_fresh [OF n]
  have dd: "deref_info ?t b = (if b = a then Some i else deref_info s b)" for b
    by (simp add: deref_info_def smap_simps split: info_ptr.split)
  show "maps_ok ?t" using v(1) by (auto simp: maps_ok_def smap.inv_put)
  show "named_ok ?t" using v(2) f(3) by (auto simp: named_ok_def)
  show "infos_ok ?t" using v(3) m f by (auto simp: infos_ok_def smap_simps)
  show "subs_ok ?t" using v(4) f(3) by (auto simp: subs_ok_def)
  show "calls_ok ?t" using v(5) f(3) by (auto simp: calls_ok_def)
  show "valid_ok ?t" using v(6) dd by (auto simp: valid_ok_def gone_def queue_def has_info_def)
  show "queue_ok ?t" using v(7) by (simp add: queue_ok_def queue_def)
  show "due_ok ?t"
    using v(8) n map_put_keys [of a i "monitors s"] by (auto simp: due_ok_def queue_def new_at_def)
qed

lemma new_at_tag:
  assumes "new_at s a"
  shows "new_at (upd_adapter a (\<lambda>ad. ad\<lparr>tag := v\<rparr>) s) a"
    and "keeps s (upd_adapter a (\<lambda>ad. ad\<lparr>tag := v\<rparr>) s)" (is "keeps s ?t")
proof -
  have i: "info (heap ?t b) = info (heap s b)" and c: "closed (heap ?t b) = closed (heap s b)" for b
    by (simp_all add: upd_adapter_def closed_def)
  have f: "subscriptions ?t = subscriptions s" "persist_msgs ?t = persist_msgs s"
    "named_adapters ?t = named_adapters s" "adapter_infos ?t = adapter_infos s"
    "monitors ?t = monitors s" "pending_calls ?t = pending_calls s" "poll_refs ?t = poll_refs s"
    "pending_cmds ?t = pending_cmds s" "cmd_packets ?t = cmd_packets s" "done_cmds ?t = done_cmds s"
    by (simp_all add: upd_adapter_def)
  have h: "has_info ?t = has_info s" "deref_info ?t = deref_info s"
    by (simp_all add: fun_eq_iff has_info_def deref_info_def i f split: info_ptr.split)
  have "disp_inv ?t"
    using assms by (simp add: new_at_def disp_inv_def inv_defs i c f h)
  with assms show "new_at ?t a" "keeps s ?t"
    by (simp_all add: new_at_def keeps_def f h queue_def)
qed

lemma add_adapter_new:
  assumes "new_at s a"
  shows "add_adapter E name flags pid a s =
    (if name \<noteq> [] \<and> map_of (named_adapters s) name \<noteq> None then (False, s)
     else (True, register a InfoAdapter
       (if name = [] then named_adapters s else map_put name a (named_adapters s))
       (map_put a \<lparr>ai_id = idseq s + 1, ai_pid = pid, ai_name = name, declared_methods = {},
          ai_flags = flags\<rparr> (adapter_infos s)) (monitors s) (idseq s + 1) s))"
  using new_at_fresh(1) [OF assms]
  by (auto simp: add_adapter_def map_insert_def new_AdapterInfo_def register_def upd_adapter_def
      split: option.split)

lemma add_monitor_new:
  assumes "new_at s a"
  shows "add_monitor E name flags a s =
    register a InfoMonitor (named_adapters s) (adapter_infos s)
      (map_put a \<lparr>ai_id = idseq s + 1, ai_pid = junk E, ai_name = name, declared_methods = {},
         ai_flags = flags\<rparr> (monitors s)) (idseq s + 1) s"
  using new_at_fresh(2) [OF assms]
  by (simp add: add_monitor_def map_insert_def new_AdapterInfo_def register_def upd_adapter_def)

text \<open>A successful authentication registers the adapter, and a failed one changes at most its
  tag.\<close>

lemma auth_result_ok:
  assumes "new_at s a"
  shows "\<exists>r t. auth_result E version extra pid flags a s = (r, t) \<and> keeps s t \<and>
    (r = FLORA_CLI_SUCCESS \<longrightarrow> deref_info t a \<noteq> None)"
proof -
  define s1 where "s1 = (if tag (heap s a) = 0
    then upd_adapter a (\<lambda>ad. ad\<lparr>tag := tag_create_pid pid\<rparr>) s else s)"
  have n: "new_at s1 a" and k: "keeps s s1"
    using assms new_at_tag [OF assms] by (auto simp: s1_def new_at_def keeps_refl)
  have m: "disp_inv (add_monitor E extra flags a s1)" "deref_info (add_monitor E extra flags a s1) a \<noteq> None"
    if "is_monitor flags"
    using that by (simp_all add: add_monitor_new [OF n] inv_register_monitor [OF n] deref_info_def smap_simps)
  have c: "disp_inv (snd (add_adapter E extra flags pid a s1))"
      "fst (add_adapter E extra flags pid a s1) \<Longrightarrow>
        deref_info (snd (add_adapter E extra flags pid a s1)) a \<noteq> None"
    if "\<not> is_monitor flags"
    using that keeps_inv [OF k]
    by (auto simp: add_adapter_new [OF n] deref_info_def smap_simps intro!: inv_register_adapter [OF n])
  have km: "keeps s (add_monitor E extra flags a s1)" if "is_monitor flags"
    using k m [OF that] by (simp add: keeps_def add_monitor_new [OF n])
  have kc: "keeps s (snd (add_adapter E extra flags pid a s1))" if "\<not> is_monitor flags"
    using k c [OF that] by (simp add: keeps_def add_adapter_new [OF n])
  have "keeps s s" using assms by (simp add: keeps_refl new_at_def)
  with k m c km kc show ?thesis
    by (auto simp: auth_result_def s1_def [symmetric] Let_def flora_consts split: prod.split)
qed

lemma write_monitor_list_add_ok:
  assumes "disp_inv s" and "deref_info s a \<noteq> None"
  shows "\<exists>t. write_monitor_list_add E a s = Some t \<and> quiet s t"
  unfolding write_monitor_list_add_def
proof (rule iterate_total)
  fix x t assume x: "x \<in> set (map fst (monitors s))" and q: "quiet s t"
  then have "alive t x" using inv_monitor_alive [OF assms(1)] by (simp add: quiet_alive [OF q])
  with assms(2) q show "\<exists>t'. write_monitor_list_add_to E a x t = Some t' \<and> quiet t t'"
    by (auto simp: write_monitor_list_add_to_def quiet_deref quiet_write Let_def)
qed

lemma write_monitor_list_remove_ok:
  assumes "disp_inv s"
  shows "\<exists>t. write_monitor_list_remove E iid s = Some t \<and> quiet s t"
  unfolding write_monitor_list_remove_def
proof (rule iterate_total)
  fix x t assume x: "x \<in> set (map fst (monitors s))" and q: "quiet s t"
  then have "alive t x" using inv_monitor_alive [OF assms(1)] by (simp add: quiet_alive [OF q])
  with q show "\<exists>t'. write_monitor_list_remove_to E iid x t = Some t' \<and> quiet t t'"
    by (auto simp: write_monitor_list_remove_to_def quiet_write Let_def)
qed

lemma quiet_monitor_data: "quiet s (write_monitor_data E flags a s)"
  by (simp add: write_monitor_data_def write_monitor_list_def quiet_write Let_def)

lemma good_auth:
  assumes "new_at s a"
  shows "good s (handle_auth_req E c a s)"
proof (cases "req_parse_auth (caps E) c")
  case None
  with assms show ?thesis by (simp add: handle_auth_req_def good_same new_at_def)
next
  case (Some p)
  obtain version extra pid flags where p: "p = (version, extra, pid, flags)" by (rule prod_cases4)
  from auth_result_ok [OF assms] obtain r t where
    t: "auth_result E version extra pid flags a s = (r, t)" "keeps s t"
      "r = FLORA_CLI_SUCCESS \<longrightarrow> deref_info t a \<noteq> None" by blast
  define m where "m = resp_serialize_auth (caps E) r FLORA_VERSION (d_buf_size t)
    (serialize_flags (heap t a))"
  define u where "u = snd (write_to E a m t)"
  define v where "v = write_monitor_data E flags a u"
  have q: "quiet t u" "quiet t v"
    unfolding u_def v_def by (rule quiet_write, rule quiet_trans [OF quiet_write quiet_monitor_data])
  have k: "keeps s u" "keeps s v" using t(2) q by (blast intro: keeps_then_quiet)+
  have "\<exists>w. write_monitor_list_add E a v = Some w \<and> quiet v w" if "r = FLORA_CLI_SUCCESS"
    using write_monitor_list_add_ok [OF keeps_inv [OF k(2)]] t(3) that by (simp add: quiet_deref [OF q(2)])
  then have "good s (map_option (Pair True) (write_monitor_list_add E a v))" if "r = FLORA_CLI_SUCCESS"
    using that k(2) by (force intro: good_Some keeps_then_quiet)
  with Some p t k show ?thesis
    by (simp add: handle_auth_req_def m_def [symmetric] u_def [symmetric] v_def [symmetric] Let_def good_Some)
qed

section \<open>Handling a request\<close>

text \<open>The requests for which the code is memory-safe: the command word is not negative, and an
  adapter authenticates once.\<close>

definition benign :: "'c env \<Rightarrow> 'c disp \<Rightarrow> 'c option \<Rightarrow> aid \<Rightarrow> bool" where
  "benign E s m a \<longleftrightarrow>
     (case m of None \<Rightarrow> True
      | Some c \<Rightarrow>
          (case fst (read_i32 (caps E) c) of None \<Rightarrow> True
           | Some cmd \<Rightarrow> 0 \<le> sint cmd \<and> (cmd = CMD_AUTH_REQ \<longrightarrow> \<not> has_info s a)))"

lemma nat_less_9: "n < 9 \<Longrightarrow> n = 0 \<or> n = 1 \<or> n = 2 \<or> n = 3 \<or> n = 4 \<or> n = 5 \<or> n = 6 \<or> n = 7 \<or> n = (8 :: nat)"
  by linarith

lemma sint_zero_iff: "sint (w :: 32 word) = 0 \<longleftrightarrow> w = 0"
  by (metis signed_0 signed_word_eqI)

lemma good_handler:
  assumes "client_at s a" and "k < 9" and "k = 0 \<Longrightarrow> new_at s a"
  shows "good s ((msg_handlers E tp ! k) c a s)"
  using nat_less_9 [OF assms(2)]
proof (elim disjE)
  assume "k = 0"
  with good_auth assms(3) show ?thesis by (simp add: msg_handlers_def)
qed (use assms(1) in \<open>simp_all add: msg_handlers_def good_subscribe good_unsubscribe good_post
      good_reply good_declare good_remove good_call good_ping\<close>)

lemma dispatch_ok:
  assumes "client_at s a" and "benign E s (Some c) a"
    and "\<not> has_info s a \<Longrightarrow> a \<in> set (poll_refs s) \<or> (None, a) \<in> set (queue s)"
  shows "\<exists>t. dispatch_cmd E tp tp' c a s = Some t \<and> keeps s t"
proof -
  note i = client_atD(1) [OF assms(1)]
  have cl: "keeps s (close_adapter a s)" by (rule keeps_quiet [OF i quiet_close])
  obtain w c' where r: "read_i32 (caps E) c = (w, c')" by fastforce
  show ?thesis
  proof (cases w)
    case None
    with r cl show ?thesis by (simp add: dispatch_cmd_def)
  next
    case (Some cmd)
    with r assms(2) have b: "0 \<le> sint cmd" "cmd = CMD_AUTH_REQ \<longrightarrow> \<not> has_info s a"
      by (simp_all add: benign_def)
    show ?thesis
    proof (cases "sint MSG_HANDLER_COUNT \<le> sint cmd")
      case True
      with Some r cl show ?thesis by (simp add: dispatch_cmd_def)
    next
      case False
      then have "nat (sint cmd) < 9" using b(1) by (simp add: MSG_HANDLER_COUNT_def)
      moreover have "new_at s a" if "nat (sint cmd) = 0"
      proof -
        from that b(1) have "cmd = CMD_AUTH_REQ" by (simp add: CMD_AUTH_REQ_def sint_zero_iff [symmetric])
        with b(2) assms(1,3) show ?thesis by (simp add: new_at_def client_at_def)
      qed
      ultimately have "good s ((msg_handlers E tp ! nat (sint cmd)) c' a s)"
        by (rule good_handler [OF assms(1)])
      then obtain ok t where h: "(msg_handlers E tp ! nat (sint cmd)) c' a s = Some (ok, t)" "keeps s t"
        unfolding good_def by blast
      have "keeps s (close_adapter a t)" by (rule keeps_then_quiet [OF h(2) quiet_close])
      with h(2) have "keeps s ((if ok then t else close_adapter a t)\<lparr>handle_cmd_tp := tp'\<rparr>)"
        by (auto simp: keeps_def inv_counters)
      with Some r h(1) b(1) False show ?thesis by (simp add: dispatch_cmd_def)
    qed
  qed
qed

lemma handle_request_ok:
  assumes "disp_inv s" and "(Some c, a) \<in> set (queue s)" and "benign E s (Some c) a"
  shows "\<exists>t. handle_cmd E tp tp' (Some c) a s = Some t \<and> keeps s t"
proof -
  have q: "a \<in> snd ` set (queue s)" using assms(2) by force
  have due: "a \<in> set (poll_refs s) \<or> (None, a) \<in> set (queue s)"
    using disp_invD(8) [OF assms(1)] assms(2) unfolding due_ok_def by blast
  show ?thesis
  proof (cases "has_info s a")
    case False
    then have "client_at s a" using assms(1) q by (simp add: client_at_def)
    from dispatch_ok [OF this assms(3) due] False show ?thesis by (simp add: handle_cmd_def)
  next
    case True
    with inv_queued_info [OF assms(1) True q] obtain i where i: "deref_info s a = Some i" by blast
    show ?thesis
    proof (cases "is_monitor (ai_flags i)")
      case True
      with i \<open>has_info s a\<close> show ?thesis
        using keeps_quiet [OF assms(1) quiet_close] by (simp add: handle_cmd_def)
    next
      case False
      note ci = client_info [OF assms(1) i False]
      then have "client_at s a" using assms(1) q by (simp add: client_at_def)
      from dispatch_ok [OF this assms(3) due] True i False show ?thesis by (simp add: handle_cmd_def)
    qed
  qed
qed

section \<open>Erasing an adapter\<close>

lemma clear_sub_loop_eq:
  "clear_sub_loop s subs =
     filter (\<lambda>p. snd p \<noteq> []) (map (\<lambda>(n, as). (n, filter (alive s) as)) subs)"
  by (induction subs) (auto simp: Let_def purge_filter)

lemma clear_sub_loop_sub:
  "(n, bs) \<in> set (clear_sub_loop s subs) \<Longrightarrow>
     bs \<noteq> [] \<and> (\<exists>as. (n, as) \<in> set subs \<and> bs = filter (alive s) as)"
  by (auto simp: clear_sub_loop_eq)

lemma clear_sub_loop_keys: "set (map fst (clear_sub_loop s subs)) \<subseteq> set (map fst subs)"
  by (force simp: clear_sub_loop_eq)

lemma clear_sub_loop_map_ok: "map_ok subs \<Longrightarrow> map_ok (clear_sub_loop s subs)"
  unfolding map_ok_def
proof (induction subs)
  case (Cons x subs)
  obtain n as where x: "x = (n, as)" by fastforce
  with Cons.prems have "\<forall>k\<in>set (map fst subs). n < k" by auto
  with clear_sub_loop_keys [of s subs] have "\<forall>k\<in>set (map fst (clear_sub_loop s subs)). n < k" by blast
  with Cons x show ?case by (simp add: Let_def)
qed simp

lemma inv_clear_sub:
  assumes "disp_inv s"
  shows "disp_inv (clear_sub_gabages s)"
  unfolding clear_sub_gabages_def
proof (rule inv_subs [OF assms])
  have mo: "map_ok (subscriptions s)" using assms by (simp add: disp_inv_def maps_ok_def)
  then show mo': "map_ok (clear_sub_loop s (subscriptions s))" by (rule clear_sub_loop_map_ok)
  fix n bs assume "map_of (clear_sub_loop s (subscriptions s)) n = Some bs"
  then have "(n, bs) \<in> set (clear_sub_loop s (subscriptions s))" by (rule map_of_SomeD)
  then obtain as where "bs \<noteq> []" "(n, as) \<in> set (subscriptions s)" "bs = filter (alive s) as"
    using clear_sub_loop_sub by blast
  moreover from this(2) have "map_of (subscriptions s) n = Some as" using map_ok_mem [OF mo] by blast
  ultimately show "n \<noteq> [] \<and> bs \<noteq> [] \<and> distinct bs \<and> (\<forall>a\<in>set bs. info (heap s a) = InfoAdapter)"
    using disp_invD(4) [OF assms] by (auto simp: subs_ok_def)
qed

lemma inv_check_subscriptions: "disp_inv s \<Longrightarrow> disp_inv (check_subscriptions tp s)"
  by (simp add: check_subscriptions_def Let_def inv_clear_sub inv_counters)

lemma check_subscriptions_fields [simp]:
  "pending_cmds (check_subscriptions tp s) = pending_cmds s"
  "cmd_packets (check_subscriptions tp s) = cmd_packets s"
  "done_cmds (check_subscriptions tp s) = done_cmds s"
  "poll_refs (check_subscriptions tp s) = poll_refs s"
  "named_adapters (check_subscriptions tp s) = named_adapters s"
  "adapter_infos (check_subscriptions tp s) = adapter_infos s"
  "monitors (check_subscriptions tp s) = monitors s"
  "heap (check_subscriptions tp s) = heap s"
  "iolog (check_subscriptions tp s) = iolog s"
  "persist_msgs (check_subscriptions tp s) = persist_msgs s"
  "pending_calls (check_subscriptions tp s) = pending_calls s"
  by (simp_all add: check_subscriptions_def clear_sub_gabages_def Let_def)

lemma check_subscriptions_eq:
  "\<exists>x k h. check_subscriptions tp s = s\<lparr>subscriptions := x, clear_sub_prio := k, handle_cmd_tp := h\<rparr> \<and>
     (x = subscriptions s \<or> x = clear_sub_loop s (subscriptions s))"
proof -
  have a: "alive (s\<lparr>clear_sub_prio := k\<rparr>) = alive s" for k by (simp add: fun_eq_iff alive_def)
  have c: "clear_sub_loop (s\<lparr>clear_sub_prio := k\<rparr>) subs = clear_sub_loop s subs" for k subs
    by (simp add: clear_sub_loop_eq a)
  let ?late = "CLEAR_SUBSCRIPTION_TIME_THRESHOLD \<le> to_seconds (tp - handle_cmd_tp s)"
  let ?many = "CLEAR_SUBSCRIPTION_THRESHOLD \<le> clear_sub_prio s + 1"
  show ?thesis
  proof (cases "?late \<or> ?many")
    case True
    then have "check_subscriptions tp s = s\<lparr>subscriptions := clear_sub_loop s (subscriptions s),
        clear_sub_prio := 0, handle_cmd_tp := tp\<rparr>"
      by (auto simp: check_subscriptions_def clear_sub_gabages_def Let_def c)
    then show ?thesis by blast
  next
    case False
    then have "check_subscriptions tp s = s\<lparr>subscriptions := subscriptions s,
        clear_sub_prio := clear_sub_prio s + 1, handle_cmd_tp := handle_cmd_tp s\<rparr>"
      by (simp add: check_subscriptions_def Let_def)
    then show ?thesis by blast
  qed
qed

text \<open>Taking the first packet off the queue.\<close>

lemma erase_last_tail: "erase_last ((m, a) # q) \<Longrightarrow> erase_last q"
  by simp

lemma inv_pop:
  assumes i: "disp_inv s" and p: "pending_cmds s = (m, a) # rest"
    and u: "m = None \<Longrightarrow> a \<notin> fst ` set (adapter_infos s) \<and> a \<notin> fst ` set (monitors s)"
  shows "disp_inv (s\<lparr>done_cmds := d, pending_cmds := rest\<rparr>)" (is "disp_inv ?t")
proof (rule disp_invI)
  note v = disp_invD [OF i]
  have q: "queue s = (m, a) # queue ?t" by (simp add: queue_def p)
  have h: "has_info ?t = has_info s" "deref_info ?t = deref_info s"
    by (simp_all add: fun_eq_iff has_info_def deref_info_def split: info_ptr.split)
  show "maps_ok ?t" using v(1) by (simp add: maps_ok_def)
  show "named_ok ?t" using v(2) by (simp add: named_ok_def)
  show "infos_ok ?t" using v(3) by (simp add: infos_ok_def)
  show "subs_ok ?t" using v(4) by (simp add: subs_ok_def)
  show "calls_ok ?t" using v(5) by (simp add: calls_ok_def)
  show "valid_ok ?t" using v(6) by (auto simp: valid_ok_def gone_def h q)
  show "queue_ok ?t" using v(7) by (simp add: queue_ok_def q)
  show "due_ok ?t"
    unfolding due_ok_def
  proof (intro allI impI)
    fix b assume b: "b \<in> fst ` set (adapter_infos ?t) \<or> b \<in> fst ` set (monitors ?t) \<or>
      (\<exists>c. (Some c, b) \<in> set (queue ?t))"
    then have "b \<in> set (poll_refs s) \<or> (None, b) \<in> set (queue s)"
      using v(8) by (auto simp: due_ok_def q)
    moreover have "b \<noteq> a" if "m = None"
      using b u [OF that] v(7) that by (force simp: queue_ok_def q)
    ultimately show "b \<in> set (poll_refs ?t) \<or> (None, b) \<in> set (queue ?t)" by (auto simp: q)
  qed
qed

lemma inv_named_erase:
  "disp_inv s \<Longrightarrow> disp_inv (s\<lparr>named_adapters := map_erase n (named_adapters s)\<rparr>)"
  by (intro disp_invI) (simp_all add: disp_inv_def inv_defs smap_simps smap.inv_erase)

lemma quiet_named:
  assumes "quiet (s\<lparr>named_adapters := x\<rparr>) t"
  shows "quiet s (t\<lparr>named_adapters := named_adapters s\<rparr>)"
proof -
  from assms have e: "t = s\<lparr>named_adapters := x, heap := heap t, iolog := iolog t\<rparr>"
    by (simp add: quiet_def)
  have "t\<lparr>named_adapters := named_adapters s\<rparr> = s\<lparr>heap := heap t, iolog := iolog t\<rparr>"
    by (subst e) simp
  with assms show ?thesis by (simp add: quiet_def)
qed

text \<open>The state after an adapter has been unregistered and its packet is done.\<close>

lemma inv_unregister:
  assumes i: "disp_inv s" and p: "pending_cmds s = (None, a) # rest"
    and inf: "deref_info s a = Some ia"
    and named: "named = (if ai_name ia = [] then named_adapters s
      else map_erase (ai_name ia) (named_adapters s))"
  shows "disp_inv (s\<lparr>named_adapters := named, adapter_infos := map_erase a (adapter_infos s),
    monitors := map_erase a (monitors s), done_cmds := d, pending_cmds := rest\<rparr>)" (is "disp_inv ?t")
proof (rule disp_invI)
  note v = disp_invD [OF i]
  have q: "queue s = (None, a) # queue ?t" by (simp add: queue_def p)
  have a: "a \<notin> snd ` set (queue ?t)" "a \<notin> set (poll_refs s)" "closed (heap s a)"
    using v(7) by (auto simp: queue_ok_def q)
  have h: "has_info ?t = has_info s" by (simp add: fun_eq_iff has_info_def)
  have dd: "deref_info ?t b = deref_info s b" if "b \<noteq> a" for b
    using that by (simp add: deref_info_def smap_simps split: info_ptr.split)
  have ne: "b \<noteq> a \<and> map_of (named_adapters s) n = Some b" if "map_of named n = Some b" for n b
  proof -
    from that named have m: "map_of (named_adapters s) n = Some b" and "ai_name ia \<noteq> [] \<Longrightarrow> n \<noteq> ai_name ia"
      by (auto simp: smap_simps split: if_splits)
    moreover from inv_named_info [OF i m] obtain ib where "deref_info s b = Some ib" "ai_name ib = n" by blast
    moreover have "n \<noteq> []" using v(2) m unfolding named_ok_def by blast
    ultimately show ?thesis using inf by auto
  qed
  show "maps_ok ?t" using v(1) by (simp add: maps_ok_def named smap.inv_erase)
  show "named_ok ?t"
    unfolding named_ok_def
  proof (intro allI impI)
    fix n b assume "map_of (named_adapters ?t) n = Some b"
    then have b: "b \<noteq> a" "map_of (named_adapters s) n = Some b" using ne by simp_all
    from v(2) b(2) have "n \<noteq> [] \<and> info (heap s b) = InfoAdapter \<and>
        (\<exists>j. map_of (adapter_infos s) b = Some j \<and> ai_name j = n)" unfolding named_ok_def by blast
    with b(1) show "n \<noteq> [] \<and> info (heap ?t b) = InfoAdapter \<and>
        (\<exists>j. map_of (adapter_infos ?t) b = Some j \<and> ai_name j = n)" by (simp add: smap_simps)
  qed
  show "infos_ok ?t" using v(3) by (simp add: infos_ok_def smap_simps)
  show "subs_ok ?t" using v(4) by (simp add: subs_ok_def)
  show "calls_ok ?t" using v(5) by (simp add: calls_ok_def)
  show "valid_ok ?t"
    unfolding valid_ok_def
  proof (intro allI impI)
    fix b assume b: "has_info ?t b"
    show "deref_info ?t b \<noteq> None \<or> gone ?t b"
    proof (cases "b = a")
      case True
      with a show ?thesis by (simp add: gone_def)
    next
      case False
      from v(6) b h have "deref_info s b \<noteq> None \<or> gone s b" by (simp add: valid_ok_def)
      with dd [OF False] show ?thesis by (auto simp: gone_def q)
    qed
  qed
  show "queue_ok ?t" using v(7) by (simp add: queue_ok_def q)
  show "due_ok ?t"
    unfolding due_ok_def
  proof (intro allI impI)
    fix b assume b: "b \<in> fst ` set (adapter_infos ?t) \<or> b \<in> fst ` set (monitors ?t) \<or>
      (\<exists>c. (Some c, b) \<in> set (queue ?t))"
    then have "b \<in> set (poll_refs s) \<or> (None, b) \<in> set (queue s)"
      using v(8) by (auto simp: due_ok_def q map_erase_keys)
    moreover have "b \<noteq> a" using b a(1) by (force simp: map_erase_keys)
    ultimately show "b \<in> set (poll_refs ?t) \<or> (None, b) \<in> set (queue ?t)" by (auto simp: q)
  qed
qed

lemma inv_clean_subs:
  assumes "disp_inv y" and "subscriptions y = subscriptions x" and "heap y = heap x"
    and "z = subscriptions x \<or> z = clear_sub_loop x (subscriptions x)"
  shows "disp_inv (y\<lparr>subscriptions := z, clear_sub_prio := k, handle_cmd_tp := h\<rparr>)"
proof -
  have mo: "map_ok (subscriptions y)" using assms(1) by (simp add: disp_inv_def maps_ok_def)
  have "disp_inv (y\<lparr>subscriptions := z\<rparr>)"
  proof (rule inv_subs [OF assms(1)])
    show mz: "map_ok z" using mo assms(2,4) clear_sub_loop_map_ok by metis
    fix n bs assume "map_of z n = Some bs"
    then have "(n, bs) \<in> set z" by (rule map_of_SomeD)
    with assms(4) have "bs = [] \<longrightarrow> z = subscriptions x"
        "\<exists>as. (n, as) \<in> set (subscriptions x) \<and> (bs = as \<or> bs = filter (alive x) as)"
      using clear_sub_loop_sub by blast+
    then obtain as where as: "map_of (subscriptions y) n = Some as" "bs = as \<or> bs = filter (alive x) as"
      using map_ok_mem [OF mo] assms(2) by metis
    moreover have "bs \<noteq> []" if "bs = []"
      using \<open>bs = [] \<longrightarrow> z = subscriptions x\<close> that \<open>map_of z n = Some bs\<close> disp_invD(4) [OF assms(1)] assms(2)
      unfolding subs_ok_def by metis
    ultimately show "n \<noteq> [] \<and> bs \<noteq> [] \<and> distinct bs \<and> (\<forall>a\<in>set bs. info (heap y a) = InfoAdapter)"
      using disp_invD(4) [OF assms(1)] by (auto simp: subs_ok_def)
  qed
  then show ?thesis by (intro inv_counters)
qed

lemma clean_commute:
  "x\<lparr>subscriptions := z, clear_sub_prio := k, handle_cmd_tp := h, done_cmds := d, pending_cmds := r\<rparr> =
   x\<lparr>done_cmds := d, pending_cmds := r, subscriptions := z, clear_sub_prio := k, handle_cmd_tp := h\<rparr>"
  for x :: "'c disp"
  by (cases x) simp

lemma inv_checked_pop:
  assumes "\<And>d. disp_inv (x\<lparr>done_cmds := d, pending_cmds := rest\<rparr>)"
  shows "disp_inv ((check_subscriptions tp x)\<lparr>done_cmds := d, pending_cmds := rest\<rparr>)"
proof -
  obtain z k h where z: "check_subscriptions tp x = x\<lparr>subscriptions := z, clear_sub_prio := k, handle_cmd_tp := h\<rparr>"
      "z = subscriptions x \<or> z = clear_sub_loop x (subscriptions x)"
    using check_subscriptions_eq [of tp x] by blast
  from inv_clean_subs [OF assms _ _ z(2)] show ?thesis unfolding z(1) clean_commute by simp
qed

text \<open>Erasing a monitor, and erasing a client, up to the look at the subscriptions.\<close>

lemma erase_monitor_inv:
  assumes i: "disp_inv s" and p: "pending_cmds s = (None, a) # rest" and ia: "deref_info s a = Some ia"
    and mon: "is_monitor (ai_flags ia)"
    and named: "named = (if ai_name ia = [] then named_adapters s else map_erase (ai_name ia) (named_adapters s))"
  shows "disp_inv (s\<lparr>named_adapters := named, monitors := map_erase a (monitors s), done_cmds := d, pending_cmds := rest\<rparr>)"
proof -
  have "map_of (adapter_infos s) a = None"
    using disp_invD(3) [OF i] ia mon by (cases "map_of (adapter_infos s) a") (auto simp: infos_ok_def deref_info_def)
  then have "map_erase a (adapter_infos s) = adapter_infos s" by (rule map_erase_absent)
  with inv_unregister [OF i p ia named, of d] show ?thesis by simp
qed

lemma erase_client_inv:
  assumes i: "disp_inv s" and p: "pending_cmds s = (None, a) # rest" and ia: "deref_info s a = Some ia"
    and mon: "\<not> is_monitor (ai_flags ia)"
    and named: "named = (if ai_name ia = [] then named_adapters s else map_erase (ai_name ia) (named_adapters s))"
    and q1: "quiet (s\<lparr>named_adapters := named\<rparr>) t"
  shows "disp_inv (t\<lparr>adapter_infos := map_erase a (adapter_infos t), done_cmds := d, pending_cmds := rest\<rparr>)"
proof -
  define s' where "s' = t\<lparr>named_adapters := named_adapters s\<rparr>"
  have q: "quiet s s'" using q1 unfolding s'_def by (rule quiet_named)
  have "map_of (monitors s) a = None"
    using disp_invD(3) [OF i] ia mon by (cases "map_of (monitors s) a") (auto simp: infos_ok_def deref_info_def)
  then have e: "map_erase a (monitors t) = monitors t" using quiet_fields(9) [OF q1] by (simp add: map_erase_absent)
  have n: "named_adapters t = named" using quiet_fields(3) [OF q1] by simp
  have "disp_inv (s'\<lparr>named_adapters := named, adapter_infos := map_erase a (adapter_infos s'),
      monitors := map_erase a (monitors s'), done_cmds := d, pending_cmds := rest\<rparr>)"
    by (rule inv_unregister [OF inv_quiet [OF q i]]) (auto simp: quiet_simps [OF q] p ia named)
  also have "s'\<lparr>named_adapters := named, adapter_infos := map_erase a (adapter_infos s'),
      monitors := map_erase a (monitors s'), done_cmds := d, pending_cmds := rest\<rparr> =
      t\<lparr>adapter_infos := map_erase a (adapter_infos t), done_cmds := d, pending_cmds := rest\<rparr>"
    using e n unfolding s'_def by (cases t) simp
  finally show ?thesis .
qed

lemma erase_step_ok:
  assumes i: "disp_inv s" and p: "pending_cmds s = (None, a) # rest"
  shows "\<exists>t. do_erase_adapter E tp a s = Some t \<and> pending_cmds t = pending_cmds s \<and>
    cmd_packets t = cmd_packets s \<and> poll_refs t = poll_refs s \<and>
    (\<forall>d. disp_inv (t\<lparr>done_cmds := d, pending_cmds := rest\<rparr>))"
proof (cases "has_info s a")
  case False
  have "map_of (adapter_infos s) a = None" "map_of (monitors s) a = None"
    using disp_invD(3) [OF i] False by (auto simp: infos_ok_def has_info_def intro: option.exhaust)
  then have "a \<notin> fst ` set (adapter_infos s)" "a \<notin> fst ` set (monitors s)"
    by (simp_all add: map_of_eq_None_iff)
  with inv_pop [OF i p] False show ?thesis by (simp add: do_erase_adapter_def)
next
  case True
  have "a \<in> snd ` set (queue s)" by (simp add: queue_def p)
  then obtain ia where ia: "deref_info s a = Some ia" using inv_queued_info [OF i True] by blast
  define named where "named = (if ai_name ia = [] then named_adapters s else map_erase (ai_name ia) (named_adapters s))"
  define s1 where "s1 = s\<lparr>named_adapters := named\<rparr>"
  have s1: "s1 = (if 0 < length (ai_name ia)
      then s\<lparr>named_adapters := map_erase (ai_name ia) (named_adapters s)\<rparr> else s)"
    by (simp add: s1_def named_def)
  show ?thesis
  proof (cases "is_monitor (ai_flags ia)")
    case mon: True
    have "do_erase_adapter E tp a s = Some (check_subscriptions tp (s1\<lparr>monitors := map_erase a (monitors s1)\<rparr>))"
      using True ia mon by (simp add: do_erase_adapter_def s1)
    with inv_checked_pop [where x = "s1\<lparr>monitors := map_erase a (monitors s1)\<rparr>"] erase_monitor_inv [OF i p ia mon named_def]
    show ?thesis by (simp add: s1_def)
  next
    case mon: False
    have "disp_inv s1" using i inv_named_erase [OF i] by (simp add: s1)
    then obtain t where w: "write_monitor_list_remove E (ai_id ia) s1 = Some t" "quiet s1 t"
      using write_monitor_list_remove_ok by blast
    have "do_erase_adapter E tp a s = Some (check_subscriptions tp (t\<lparr>adapter_infos := map_erase a (adapter_infos t)\<rparr>))"
      using True ia mon w(1) by (simp add: do_erase_adapter_def Let_def s1)
    with inv_checked_pop [where x = "t\<lparr>adapter_infos := map_erase a (adapter_infos t)\<rparr>"]
      erase_client_inv [OF i p ia mon named_def w(2) [unfolded s1_def]] quiet_fields [OF w(2)]
    show ?thesis by (simp add: s1_def)
  qed
qed

section \<open>Steps of the dispatcher thread\<close>

lemma step_cmd_ok:
  assumes "disp_inv s" and "pending_cmds s = (m, a) # rest" and "benign E s m a"
  shows "\<exists>t. step_cmd E tp tp' s = Some t \<and> disp_inv t \<and> pending_cmds t = rest \<and>
    cmd_packets t = cmd_packets s \<and> poll_refs t = poll_refs s"
proof (cases m)
  case None
  with erase_step_ok [OF assms(1), of a rest] assms(2) show ?thesis
    by (fastforce simp: step_cmd_def handle_cmd_def)
next
  case (Some c)
  have "(Some c, a) \<in> set (queue s)" using assms(2) Some by (simp add: queue_def)
  with handle_request_ok [OF assms(1)] assms(3) Some obtain t where
    t: "handle_cmd E tp tp' (Some c) a s = Some t" "keeps s t" by blast
  have "disp_inv (t\<lparr>done_cmds := done_cmds t @ [(m, a)], pending_cmds := rest\<rparr>)"
    using t(2) assms(2) Some by (intro inv_pop [where m = m and a = a]) (simp_all add: keeps_def)
  with t assms(2) Some show ?thesis by (simp add: step_cmd_def keeps_def)
qed

lemma discard_loop_ok:
  assumes "disp_inv s" and "pending_calls s = pcs"
    and "(\<forall>l b n d. kern E l b n d \<noteq> SysErr EAGAIN) \<or>
      (\<forall>pc\<in>set pcs. name_or_empty s (pc_target pc) \<noteq> None)"
  shows "\<exists>t. discard_loop E tp pcs s = Some t \<and> keeps s t"
  using assms
proof (induction pcs arbitrary: s)
  case Nil
  then show ?case by (simp add: keeps_refl)
next
  case (Cons pc pcs)
  show ?case
  proof (cases "tp < discard_tp pc")
    case True
    then show ?thesis using Cons.prems(1) by (simp add: keeps_refl)
  next
    case False
    let ?m = "resp_serialize_reply (caps E) (cliid pc) FLORA_CLI_ETIMEOUT None 0 (d_buf_size s)
      (serialize_flags (heap s (pc_sender pc)))"
    obtain r u where w: "write_to E (pc_sender pc) ?m s = (r, u)" by fastforce
    note q = quiet_write_eq [OF w]
    note co = disp_invD(5) [OF Cons.prems(1), unfolded calls_ok_def Cons.prems(2)]
    have "name_or_empty s (pc_sender pc) \<noteq> None" if "r = - 2"
    proof -
      have "\<not> closed (heap s (pc_sender pc))" using write_open_timeout [of E] w that by (metis fst_conv)
      moreover have "has_info s (pc_sender pc)" using co by (simp add: has_info_def)
      ultimately show ?thesis by (intro name_or_empty_ok inv_open_info [OF Cons.prems(1)])
    qed
    moreover have "name_or_empty s (pc_target pc) \<noteq> None" if "r = - 2"
    proof -
      have "\<not> (\<forall>l b n d. kern E l b n d \<noteq> SysErr EAGAIN)" using write_timeout_eagain [of E] w that by metis
      with Cons.prems(3) show ?thesis by auto
    qed
    ultimately have l: "log_timeout r [pc_sender pc, pc_target pc] u = Some u"
      by (auto simp: log_timeout_def quiet_name [OF q])
    define v where "v = u\<lparr>pending_calls := pcs\<rparr>"
    have iv: "disp_inv v"
      unfolding v_def using co by (intro inv_calls inv_quiet [OF q Cons.prems(1)]) (auto simp: quiet_fields [OF q])
    have kv: "keeps s v" using iv by (simp add: keeps_def v_def quiet_fields [OF q])
    have "name_or_empty v = name_or_empty u" by (simp add: v_def fun_eq_iff name_or_empty_def)
    also note quiet_name [OF q]
    finally have "name_or_empty v = name_or_empty s" .
    with Cons.IH [OF iv] Cons.prems(3) obtain t where "discard_loop E tp pcs v = Some t" "keeps v t"
      by (auto simp: v_def)
    with kv False w l show ?thesis
      by (auto simp: pending_call_timeout_def v_def [symmetric] intro: keeps_trans)
  qed
qed

end
