(* ===== verification/Demo.thy ===== *)
theory Demo
  imports Disp
begin

text \<open>
  Concrete inputs for the witnesses of the dispatcher's theorems: a small instance of the Caps
  parameter whose objects are member lists and whose wire format tells the sample messages by their first byte,
  a kernel that accepts every write, and dispatcher states built with the model's own operations.
\<close>

type_synonym lite = "member list"

fun lite_int :: "lite \<Rightarrow> u32 option \<times> lite" where
  "lite_int (MInt v # ms) = (Some v, ms)" | "lite_int ms = (None, ms)"

fun lite_long :: "lite \<Rightarrow> u64 option \<times> lite" where
  "lite_long (MLong v # ms) = (Some v, ms)" | "lite_long ms = (None, ms)"

fun lite_str :: "lite \<Rightarrow> string option \<times> lite" where
  "lite_str (MStr v # ms) = (Some v, ms)" | "lite_str ms = (None, ms)"

fun lite_caps :: "lite \<Rightarrow> lite option option \<times> lite" where
  "lite_caps (MCaps v # ms) = (Some v, ms)" | "lite_caps ms = (None, ms)"

text \<open>The sample messages.\<close>

definition auth_msg :: "string \<Rightarrow> u32 \<Rightarrow> lite" where
  "auth_msg name flags = [MInt 0, MInt 4, MStr name, MInt 77, MInt flags]"

definition subscribe_msg :: "string \<Rightarrow> lite" where
  "subscribe_msg name = [MInt 1, MStr name]"

definition post_msg_of :: "string \<Rightarrow> u32 \<Rightarrow> lite" where
  "post_msg_of name type = [MInt 3, MInt type, MStr name, MCaps None]"

definition declare_msg :: "string \<Rightarrow> lite" where
  "declare_msg name = [MInt 5, MStr name]"

definition call_msg :: "string \<Rightarrow> string \<Rightarrow> lite" where
  "call_msg name target = [MInt 7, MStr name, MStr target, MInt 9, MInt 300, MCaps None]"

definition lite_parse :: "byte list \<Rightarrow> lite option" where
  "lite_parse bs =
     (case bs of [] \<Rightarrow> None
      | b # _ \<Rightarrow>
          if b = 0 then Some (auth_msg ''a'' 0) else if b = 1 then Some (auth_msg ''b'' 0)
          else if b = 2 then Some (subscribe_msg ''t'') else if b = 3 then Some (post_msg_of ''t'' 1)
          else if b = 4 then Some (declare_msg ''m'') else if b = 5 then Some (call_msg ''m'' ''a'')
          else if b = 6 then Some (auth_msg ''w'' 1) else if b = 7 then Some (call_msg ''m'' ''b'')
          else if b = 8 then Some (auth_msg ''a'' 1) else None)"

definition lite_ops :: "lite caps_ops" where
  "lite_ops = \<lparr>
     new_instance = [],
     write_i32 = (\<lambda>v c. c @ [MInt v]),
     write_u32 = (\<lambda>v c. c @ [MInt v]),
     write_u64 = (\<lambda>v c. c @ [MLong v]),
     write_cstr = (\<lambda>p c. case p of None \<Rightarrow> c | Some s \<Rightarrow> c @ [MStr s]),
     write_string = (\<lambda>s c. c @ [MStr s]),
     write_caps = (\<lambda>p c. c @ [MCaps p]),
     read_i32 = lite_int,
     read_u32 = lite_int,
     read_u64 = lite_long,
     read_string = lite_str,
     read_caps = lite_caps,
     serialize = (\<lambda>sz flags c. (8, replicate 8 (of_nat (length c)))),
     caps_parse = lite_parse,
     binary_info = (\<lambda>bs. if length bs < 8 then None else Some (5, 8)),
     CAPS_FLAG_NET_BYTEORDER = 128\<rparr>"

definition demo_env :: "lite env" where
  "demo_env = \<lparr>caps = lite_ops, kern = (\<lambda>l a n d. SysRet (unat n)), junk = 0\<rparr>"

definition demo_ad :: adapter where
  "demo_ad = new_SocketAdapter 5 16 0"

end
