(* ===== verification/Service.thy ===== *)
theory Service
  imports DispAuth Demo
begin

text \<open>
  The service as a transition system: what the poll does to the dispatcher (a connection is
  accepted, a frame is put, a connection is dropped) interleaved with the steps of the
  dispatcher's thread (\<open>handle_cmds\<close>). A step of either thread is atomic. The poll drops an
  adapter in the order the code has: it closes it, then calls \<open>erase_adapter\<close>, then lets its
  reference go.
\<close>

section \<open>Steps\<close>

definition poll_connect :: "aid \<Rightarrow> adapter \<Rightarrow> 'c disp \<Rightarrow> 'c disp" where
  "poll_connect a ad s = s\<lparr>heap := (heap s)(a := ad), poll_refs := a # poll_refs s\<rparr>"

definition poll_drop :: "aid \<Rightarrow> 'c disp \<Rightarrow> 'c disp" where
  "poll_drop a s =
     (let s = erase_adapter a (close_adapter a s) in s\<lparr>poll_refs := removeAll a (poll_refs s)\<rparr>)"

text \<open>An identity no object has had: nothing refers to it and it has no info.\<close>

definition fresh :: "'c disp \<Rightarrow> aid \<Rightarrow> bool" where
  "fresh s a \<longleftrightarrow> \<not> alive s a \<and> \<not> has_info s a"

text \<open>The steps, with the two conditions under which the code is memory-safe: a request is
  \<open>benign\<close>, and an adapter is not dropped between the arrival of its first request and its
  handling (\<open>erase_adapter\<close> does nothing while \<open>info\<close> is null). Receive buffers may change and
  adapters may be closed at any time (\<open>io\<close>).\<close>

inductive svc_step :: "'c env \<Rightarrow> 'c disp \<Rightarrow> 'c disp \<Rightarrow> bool" for E where
  connect: "\<lbrakk>fresh s a; info ad = InfoNull\<rbrakk> \<Longrightarrow> svc_step E s (poll_connect a ad s)"
| receive: "\<lbrakk>a \<in> set (poll_refs s); put E bs a s = (ok, t)\<rbrakk> \<Longrightarrow> svc_step E s t"
| drop: "\<lbrakk>a \<in> set (poll_refs s); has_info s a \<or> a \<notin> snd ` set (queue s)\<rbrakk> \<Longrightarrow>
    svc_step E s (poll_drop a s)"
| io: "quiet s t \<Longrightarrow> svc_step E s t"
| start: "svc_step E s (disp_run s)"
| stop: "svc_step E s (disp_close s)"
| take_batch: "\<lbrakk>working s; pending_cmds s = []; done_cmds s = []\<rbrakk> \<Longrightarrow> svc_step E s (take_cmds s)"
| cmd: "\<lbrakk>pending_cmds s = (m, a) # rest; benign E s m a; step_cmd E tp tp' s = Some t\<rbrakk> \<Longrightarrow>
    svc_step E s t"
| clear: "pending_cmds s = [] \<Longrightarrow> svc_step E s (clear_cmds s)"
| discard: "\<lbrakk>working s; queue s = []; discard_pending_calls E tp s = Some t;
    (\<forall>l b n d. kern E l b n d \<noteq> SysErr EAGAIN) \<or>
    (\<forall>pc\<in>set (pending_calls s). name_or_empty s (pc_target pc) \<noteq> None)\<rbrakk> \<Longrightarrow> svc_step E s t"

inductive reachable :: "'c env \<Rightarrow> 'c disp \<Rightarrow> bool" for E where
  init: "reachable E (new_Dispatcher f bufsize epoch ids)"
| step: "\<lbrakk>reachable E s; svc_step E s t\<rbrakk> \<Longrightarrow> reachable E t"

section \<open>The invariant along the steps\<close>

lemma inv_connect:
  assumes i: "disp_inv s" and f: "fresh s a" and n: "info ad = InfoNull"
  shows "disp_inv (poll_connect a ad s)" (is "disp_inv ?t")
proof (rule disp_invI)
  note v = disp_invD [OF i]
  have a: "info (heap s a) = InfoNull" using f by (simp add: fresh_def has_info_def)
  have na: "a \<notin> snd ` set (queue s)" using f alive_queued by (auto simp: fresh_def)
  have inf: "info (heap ?t b) = info (heap s b)" for b using a n by (simp add: poll_connect_def)
  have fl: "subscriptions ?t = subscriptions s" "persist_msgs ?t = persist_msgs s"
    "named_adapters ?t = named_adapters s" "adapter_infos ?t = adapter_infos s"
    "monitors ?t = monitors s" "pending_calls ?t = pending_calls s" "queue ?t = queue s"
    "poll_refs ?t = a # poll_refs s"
    by (simp_all add: poll_connect_def queue_def)
  have h: "has_info ?t = has_info s" "deref_info ?t = deref_info s"
    by (simp_all add: fun_eq_iff has_info_def deref_info_def inf fl split: info_ptr.split)
  have cl: "closed (heap ?t b) = closed (heap s b)" if "b \<noteq> a" for b
    using that by (simp add: poll_connect_def)
  show "maps_ok ?t" using v(1) by (simp add: maps_ok_def fl)
  show "named_ok ?t" using v(2) by (simp add: named_ok_def fl inf)
  show "infos_ok ?t" using v(3) by (simp add: infos_ok_def fl inf)
  show "subs_ok ?t" using v(4) by (simp add: subs_ok_def fl inf)
  show "calls_ok ?t" using v(5) by (simp add: calls_ok_def fl inf)
  show "valid_ok ?t"
    unfolding valid_ok_def h
  proof (intro allI impI)
    fix b assume b: "has_info s b"
    then have "b \<noteq> a" using a by (auto simp: has_info_def)
    with b v(6) cl show "deref_info s b \<noteq> None \<or> gone ?t b"
      by (auto simp: valid_ok_def gone_def fl)
  qed
  show "queue_ok ?t" using v(7) na cl by (force simp: queue_ok_def fl)
  show "due_ok ?t" using v(8) by (auto simp: due_ok_def fl)
qed

lemma erase_last_append:
  "erase_last (q @ [(m, a)]) \<longleftrightarrow> erase_last q \<and> (None, a) \<notin> set q"
  by (induction q) auto

lemma inv_put:
  assumes i: "disp_inv s" and a: "a \<in> set (poll_refs s)" and p: "put E bs a s = (ok, t)"
  shows "disp_inv t"
proof (cases "caps_parse (caps E) bs")
  case None
  with i p show ?thesis by (simp add: put_def)
next
  case (Some c)
  then have t: "t = s\<lparr>cmd_packets := cmd_packets s @ [(Some c, a)]\<rparr>" using p by (simp add: put_def)
  note v = disp_invD [OF i]
  have q: "queue t = queue s @ [(Some c, a)]" by (simp add: t queue_def)
  have na: "(None, a) \<notin> set (queue s)" using v(7) a by (auto simp: queue_ok_def)
  have h: "has_info t = has_info s" "deref_info t = deref_info s"
    by (simp_all add: t fun_eq_iff has_info_def deref_info_def split: info_ptr.split)
  show ?thesis
  proof (rule disp_invI)
    show "maps_ok t" using v(1) by (simp add: maps_ok_def t)
    show "named_ok t" using v(2) by (simp add: named_ok_def t)
    show "infos_ok t" using v(3) by (simp add: infos_ok_def t)
    show "subs_ok t" using v(4) by (simp add: subs_ok_def t)
    show "calls_ok t" using v(5) by (simp add: calls_ok_def t)
    show "valid_ok t" using v(6) a unfolding valid_ok_def gone_def h q by (auto simp: t)
    show "queue_ok t" using v(7) na unfolding queue_ok_def q erase_last_append by (auto simp: t)
    show "due_ok t" using v(8) a unfolding due_ok_def q by (auto simp: t)
  qed
qed

lemma inv_drop:
  assumes i: "disp_inv s" and a: "a \<in> set (poll_refs s)"
    and h: "has_info s a \<or> a \<notin> snd ` set (queue s)"
  shows "disp_inv (poll_drop a s)"
proof -
  define u where "u = close_adapter a s"
  have qu: "quiet s u" unfolding u_def by (rule quiet_close)
  have iu: "disp_inv u" by (rule inv_quiet [OF qu i])
  have cu: "closed (heap u a)"
    by (simp add: u_def close_adapter_def adapter_close_def case_prod_beta)
  have au: "a \<in> set (poll_refs u)" by (simp add: quiet_fields [OF qu] a)
  have hu: "has_info u a \<or> a \<notin> snd ` set (queue u)" using h by (simp add: quiet_simps [OF qu] queue_def)
  define t where "t = poll_drop a s"
  have q: "queue t = queue u @ (if has_info u a then [(None, a)] else [])"
    by (simp add: t_def poll_drop_def u_def [symmetric] erase_adapter_def Let_def queue_def)
  have fl: "subscriptions t = subscriptions u" "persist_msgs t = persist_msgs u"
    "named_adapters t = named_adapters u" "adapter_infos t = adapter_infos u"
    "monitors t = monitors u" "pending_calls t = pending_calls u" "heap t = heap u"
    "poll_refs t = removeAll a (poll_refs u)"
    by (simp_all add: t_def poll_drop_def u_def [symmetric] erase_adapter_def Let_def)
  have ht: "has_info t = has_info u" "deref_info t = deref_info u"
    by (simp_all add: fun_eq_iff has_info_def deref_info_def fl split: info_ptr.split)
  note v = disp_invD [OF iu]
  have na: "(None, a) \<notin> set (queue u)" using v(7) au by (auto simp: queue_ok_def)
  have reg: "has_info u b" if "b \<in> fst ` set (adapter_infos u) \<or> b \<in> fst ` set (monitors u)" for b
  proof -
    from that obtain i where "map_of (adapter_infos u) b = Some i \<or> map_of (monitors u) b = Some i"
      using weak_map_of_SomeI by fastforce
    with v(3) show ?thesis by (auto simp: infos_ok_def has_info_def)
  qed
  have "disp_inv t"
  proof (rule disp_invI)
    show "maps_ok t" using v(1) by (simp add: maps_ok_def fl)
    show "named_ok t" using v(2) by (simp add: named_ok_def fl)
    show "infos_ok t" using v(3) by (simp add: infos_ok_def fl)
    show "subs_ok t" using v(4) by (simp add: subs_ok_def fl)
    show "calls_ok t" using v(5) by (simp add: calls_ok_def fl)
    show "valid_ok t" using v(6) au unfolding valid_ok_def gone_def ht q fl by auto
    show "queue_ok t" using v(7) na cu unfolding queue_ok_def q fl by (auto simp: erase_last_append)
    show "due_ok t" unfolding due_ok_def q fl
    proof (intro allI impI)
      fix b assume b: "b \<in> fst ` set (adapter_infos u) \<or> b \<in> fst ` set (monitors u) \<or>
        (\<exists>c. (Some c, b) \<in> set (queue u @ (if has_info u a then [(None, a)] else [])))"
      then have "b \<in> set (poll_refs u) \<or> (None, b) \<in> set (queue u)"
        using v(8) by (auto simp: due_ok_def split: if_splits)
      moreover have "has_info u a" if "b = a" using b hu reg that by (force split: if_splits)
      ultimately show "b \<in> set (removeAll a (poll_refs u)) \<or>
          (None, b) \<in> set (queue u @ (if has_info u a then [(None, a)] else []))" by auto
    qed
  qed
  then show ?thesis by (simp add: t_def)
qed

lemma inv_same_queue:
  assumes i: "disp_inv s" and q: "pending_cmds s @ cmd_packets s = p @ c"
  shows "disp_inv (s\<lparr>pending_cmds := p, cmd_packets := c, done_cmds := d\<rparr>)" (is "disp_inv ?t")
proof (rule disp_invI)
  note v = disp_invD [OF i]
  have h: "has_info ?t = has_info s" "deref_info ?t = deref_info s"
    by (simp_all add: fun_eq_iff has_info_def deref_info_def split: info_ptr.split)
  have qq: "queue ?t = queue s" by (simp add: queue_def q)
  show "maps_ok ?t" using v(1) by (simp add: maps_ok_def)
  show "named_ok ?t" using v(2) by (simp add: named_ok_def)
  show "infos_ok ?t" using v(3) by (simp add: infos_ok_def)
  show "subs_ok ?t" using v(4) by (simp add: subs_ok_def)
  show "calls_ok ?t" using v(5) by (simp add: calls_ok_def)
  show "valid_ok ?t" using v(6) unfolding valid_ok_def gone_def h qq by simp
  show "queue_ok ?t" using v(7) unfolding queue_ok_def qq by simp
  show "due_ok ?t" using v(8) unfolding due_ok_def qq by simp
qed

lemma inv_take:
  assumes "disp_inv s" and "pending_cmds s = []"
  shows "disp_inv (take_cmds s)"
proof -
  have e: "take_cmds s = s\<lparr>pending_cmds := cmd_packets s, cmd_packets := [], done_cmds := done_cmds s\<rparr>"
    using assms(2) by (cases s) (simp add: take_cmds_def)
  show ?thesis unfolding e by (rule inv_same_queue [OF assms(1)]) (simp add: assms(2))
qed

lemma inv_clear:
  assumes "disp_inv s" and "pending_cmds s = []"
  shows "disp_inv (clear_cmds s)"
proof -
  have e: "clear_cmds s = s\<lparr>pending_cmds := [], cmd_packets := cmd_packets s, done_cmds := []\<rparr>"
    by (cases s) (simp add: clear_cmds_def)
  show ?thesis unfolding e by (rule inv_same_queue [OF assms(1)]) (simp add: assms(2))
qed

lemma svc_step_inv: "svc_step E s t \<Longrightarrow> disp_inv s \<Longrightarrow> disp_inv t"
proof (induction rule: svc_step.induct)
  case (cmd s m a rest tp tp' t)
  with step_cmd_ok [of s m a rest E tp tp'] show ?case by auto
next
  case (discard s tp t)
  with discard_loop_ok [of s "pending_calls s" E tp] show ?case
    by (auto simp: discard_pending_calls_def keeps_def)
next
  case (io s t)
  then show ?case by (rule inv_quiet)
qed (simp_all add: inv_connect inv_put inv_drop inv_take inv_clear inv_counters disp_run_def disp_close_def)

lemma reachable_inv: "reachable E s \<Longrightarrow> disp_inv s"
proof (induction rule: reachable.induct)
  case (init f bufsize epoch ids)
  show ?case by (rule inv_new)
next
  case (step s t)
  then show ?case by (blast intro: svc_step_inv)
qed

section \<open>Memory safety\<close>

text \<open>C6: Memory safety of the dispatcher thread. In every state the service reaches, handling the
  next packet of the queue, an erasure or a request whose command word is not negative and that does
  not authenticate a second time (\<open>benign\<close>), whatever the kernel answers to the writes, follows no null or dangling \<open>Adapter::info\<close>, no raw pointer of a destroyed monitor and
  no index outside the handler table; the step is taken and leads to a reachable state again.\<close>

theorem dispatcher_memory_safe:
  assumes "reachable E s" and "pending_cmds s = (m, a) # rest" and "benign E s m a"
  shows "\<exists>t. step_cmd E tp tp' s = Some t \<and> reachable E t"
proof -
  from step_cmd_ok [OF reachable_inv [OF assms(1)] assms(2,3)] obtain t
    where t: "step_cmd E tp tp' s = Some t" by blast
  with assms have "svc_step E s t" by (blast intro: svc_step.cmd)
  with t assms(1) show ?thesis by (blast intro: reachable.step)
qed

text \<open>The states of the witnesses.\<close>

definition demo_start :: "lite disp" where
  "demo_start = poll_connect 1 demo_ad (disp_run (new_Dispatcher 1 0 0 0))"

definition demo_queued :: "lite disp" where
  "demo_queued = take_cmds (snd (put demo_env [2] 1 (snd (put demo_env [0] 1 demo_start))))"

lemma reach_start: "reachable demo_env demo_start"
proof -
  have "reachable demo_env (disp_run (new_Dispatcher 1 0 0 0) :: lite disp)"
    by (rule reachable.step [OF reachable.init svc_step.start])
  then show ?thesis unfolding demo_start_def
    by (rule reachable.step)
      (rule svc_step.connect; simp add: fresh_def alive_def has_info_def disp_run_def
        new_Dispatcher_def new_SocketAdapter_def demo_ad_def)
qed

lemma reach_put: "reachable E s \<Longrightarrow> a \<in> set (poll_refs s) \<Longrightarrow> reachable E (snd (put E bs a s))"
  by (metis prod.collapse reachable.step svc_step.receive)

lemma put_fields [simp]:
  "poll_refs (snd (put E bs a s)) = poll_refs s" "working (snd (put E bs a s)) = working s"
  "pending_cmds (snd (put E bs a s)) = pending_cmds s" "done_cmds (snd (put E bs a s)) = done_cmds s"
  by (simp_all add: put_def split: option.split)

lemma demo_start_fields [simp]:
  "poll_refs demo_start = [1]" "working demo_start" "pending_cmds demo_start = []"
  "done_cmds demo_start = []" "cmd_packets demo_start = []"
  by (simp_all add: demo_start_def poll_connect_def disp_run_def new_Dispatcher_def)

lemma reach_queued: "reachable demo_env demo_queued"
  unfolding demo_queued_def
  by (rule reachable.step [OF _ svc_step.take_batch]) (simp_all add: reach_put reach_start)

text \<open>Handling the whole batch of the queue.\<close>

definition next_cmd :: "'c env \<Rightarrow> 'c disp \<Rightarrow> 'c disp" where
  "next_cmd E s = the (step_cmd E 0 0 s)"

definition head_benign :: "'c env \<Rightarrow> 'c disp \<Rightarrow> bool" where
  "head_benign E s = (case pending_cmds s of [] \<Rightarrow> False | (m, a) # _ \<Rightarrow> benign E s m a)"

lemma reach_next:
  assumes "reachable E s" and "head_benign E s"
  shows "reachable E (next_cmd E s)"
proof -
  from assms(2) obtain m a rest where p: "pending_cmds s = (m, a) # rest" "benign E s m a"
    by (auto simp: head_benign_def split: list.splits)
  from step_cmd_ok [OF reachable_inv [OF assms(1)] p] obtain t where "step_cmd E 0 0 s = Some t" by blast
  with p assms(1) show ?thesis unfolding next_cmd_def
    by (metis option.sel reachable.step svc_step.cmd)
qed

text \<open>Two clients: 1 is ''a'', has subscribed to ''t'' and declared ''m''; 2 is ''b''.\<close>

definition demo_two :: "lite disp" where
  "demo_two = take_cmds (snd (put demo_env [4] 1 (snd (put demo_env [2] 1
     (snd (put demo_env [1] 2 (snd (put demo_env [0] 1 (poll_connect 2 demo_ad demo_start)))))))))"

definition demo_ready :: "lite disp" where
  "demo_ready = (next_cmd demo_env ^^ 4) demo_two"

lemma reach_two: "reachable demo_env demo_two"
proof -
  have "svc_step demo_env demo_start (poll_connect 2 demo_ad demo_start)"
  proof (rule svc_step.connect)
    show "fresh demo_start 2" by code_simp
    show "info demo_ad = InfoNull" by (simp add: demo_ad_def new_SocketAdapter_def)
  qed
  then have "reachable demo_env (poll_connect 2 demo_ad demo_start)"
    by (rule reachable.step [OF reach_start])
  then show ?thesis unfolding demo_two_def
    by (intro reachable.step [OF _ svc_step.take_batch] reach_put) (simp_all add: poll_connect_def)
qed

lemma reach_ready: "reachable demo_env demo_ready"
proof -
  have b: "head_benign demo_env demo_two"
      "head_benign demo_env (next_cmd demo_env demo_two)"
      "head_benign demo_env (next_cmd demo_env (next_cmd demo_env demo_two))"
      "head_benign demo_env (next_cmd demo_env (next_cmd demo_env (next_cmd demo_env demo_two)))"
    by code_simp+
  show ?thesis
    unfolding demo_ready_def
    by (simp add: eval_nat_numeral) (intro reach_next reach_two b)
qed

theorem dispatcher_memory_safe_witness:
  "\<exists>t. step_cmd demo_env 5 6 demo_queued = Some t \<and> reachable demo_env t"
proof (rule dispatcher_memory_safe [OF reach_queued])
  show "pending_cmds demo_queued = (Some (auth_msg ''a'' 0), 1) # [(Some (subscribe_msg ''t''), 1)]"
    by code_simp
  show "benign demo_env demo_queued (Some (auth_msg ''a'' 0)) 1" by code_simp
qed

text \<open>The expiry of pending calls is memory-safe in every reachable state in which no write times
  out (\<open>EAGAIN\<close>) or every callee's info still exists, and leads to a reachable state.\<close>

lemma discard_memory_safe:
  assumes "reachable E s" and "working s" and "queue s = []"
    and "(\<forall>l b n d. kern E l b n d \<noteq> SysErr EAGAIN) \<or>
      (\<forall>pc\<in>set (pending_calls s). name_or_empty s (pc_target pc) \<noteq> None)"
  shows "\<exists>t. discard_pending_calls E tp s = Some t \<and> reachable E t"
proof -
  from discard_loop_ok [OF reachable_inv [OF assms(1)] refl assms(4)] obtain t
    where t: "discard_pending_calls E tp s = Some t" by (auto simp: discard_pending_calls_def)
  with assms have "svc_step E s t" by (blast intro: svc_step.discard)
  with t assms(1) show ?thesis by (blast intro: reachable.step)
qed

lemma discard_memory_safe_witness:
  "\<exists>t. discard_pending_calls demo_env 7 demo_start = Some t \<and> reachable demo_env t"
  by (rule discard_memory_safe [OF reach_start]) (simp_all add: queue_def demo_env_def)



end
