(* ===== verification/Framing.thy ===== *)
theory Framing
  imports CapsLib
begin

text \<open>
  Reassembly of messages from a byte stream. Both ends of a connection keep a receive buffer, cut
  it into messages by the length in their headers and keep the beginning of an incomplete one: the
  service in \<open>SocketAdapter::next_frame\<close> and \<open>SocketPoll::do_read\<close>, the client in
  \<open>Client::handle_received\<close>. What both rely on is collected here, with the contract of a receiver
  and the theorem that follows from it: how the kernel cuts the stream into chunks does not matter.
\<close>

section \<open>Frames and parts of frames\<close>

definition good_frame :: "'c caps_ops \<Rightarrow> u32 \<Rightarrow> byte list \<Rightarrow> bool" where
  "good_frame C sz f \<longleftrightarrow> is_frame C sz f \<and> caps_parse C f \<noteq> None"

text \<open>Less than a frame.\<close>

definition partial :: "'c caps_ops \<Rightarrow> u32 \<Rightarrow> byte list \<Rightarrow> bool" where
  "partial C sz p \<longleftrightarrow> (\<exists>q. q \<noteq> [] \<and> is_frame C sz (p @ q))"

lemma split_stream:
  assumes "u @ v = concat fs @ p" and "\<forall>f\<in>set fs. good_frame C sz f" and "partial C sz p"
  shows "\<exists>fs1 fs2 p1. fs = fs1 @ fs2 \<and> u = concat fs1 @ p1 \<and> partial C sz p1 \<and> p1 @ v = concat fs2 @ p"
  using assms
proof (induction fs arbitrary: u)
  case Nil
  then have "partial C sz u" by (auto simp: partial_def)
  with Nil show ?case by force
next
  case (Cons f fs)
  show ?case
  proof (cases "length u < length f")
    case True
    with Cons.prems(1) obtain r where "f = u @ r" "r \<noteq> []"
      by (auto simp: append_eq_append_conv2)
    with Cons.prems(2) have "partial C sz u" by (auto simp: partial_def good_frame_def)
    with Cons.prems(1) show ?thesis by (metis append_Nil concat.simps(1))
  next
    case False
    define w where "w = drop (length f) u"
    have "take (length f) (u @ v) = f" using Cons.prems(1) by simp
    with False have w1: "u = f @ w" unfolding w_def by (metis append_take_drop_id linorder_not_less
      take_append diff_is_0_eq take_0 append_Nil2)
    then have w: "u = f @ w" "w @ v = concat fs @ p" using Cons.prems(1) by simp_all
    with Cons.IH [OF w(2)] Cons.prems(2,3) obtain fs1 fs2 p1 where
      "fs = fs1 @ fs2" "w = concat fs1 @ p1" "partial C sz p1" "p1 @ v = concat fs2 @ p" by auto
    with w show ?thesis by (metis append.assoc append_Cons concat.simps(2))
  qed
qed

lemma partial_no_frame:
  assumes "caps_header_law C" and "partial C sz (f @ r)" and "is_frame C sz f"
  shows False
proof -
  from assms(2) obtain q where q: "q \<noteq> []" "is_frame C sz ((f @ r) @ q)" by (auto simp: partial_def)
  have "binary_info C ((f @ r) @ q) = binary_info C f"
    using binary_info_prefix [OF assms(1), of f "r @ q"] assms(3) by (simp add: is_frame_def)
  with q assms(3) show False by (auto simp: is_frame_def split: option.splits)
qed

lemma partial_frames_Nil:
  assumes "caps_header_law C" and "partial C sz (concat fs @ p)" and "\<forall>f\<in>set fs. good_frame C sz f"
  shows "fs = []"
proof (cases fs)
  case (Cons f fs')
  with assms partial_no_frame [OF assms(1), of sz f "concat fs' @ p"] show ?thesis
    by (simp add: good_frame_def)
qed

section \<open>The contract of a receiver\<close>

text \<open>
  \<open>chunk bs\<close> handles the bytes one read delivered, \<open>pend\<close> are the bytes received and not handled,
  \<open>view\<close> is the part of the state the messages act on, \<open>deliver f\<close> what the message \<open>f\<close> does to
  it (\<open>None\<close>: the connection is given up). \<open>fits\<close> is what the read guarantees of its chunk.
\<close>

fun all_fit :: "(byte list \<Rightarrow> 's \<Rightarrow> 's option) \<Rightarrow> (byte list \<Rightarrow> 's \<Rightarrow> bool) \<Rightarrow> byte list list \<Rightarrow> 's \<Rightarrow> bool" where
  "all_fit chunk fits [] s = True"
| "all_fit chunk fits (bs # bss) s =
     (fits bs s \<and> (case chunk bs s of None \<Rightarrow> True | Some t \<Rightarrow> all_fit chunk fits bss t))"

locale stream_receiver =
  fixes C :: "'c caps_ops" and sz :: u32
    and chunk :: "byte list \<Rightarrow> 's \<Rightarrow> 's option"
    and fits :: "byte list \<Rightarrow> 's \<Rightarrow> bool"
    and ok :: "'s \<Rightarrow> bool"
    and pend :: "'s \<Rightarrow> byte list"
    and view :: "'s \<Rightarrow> 'v"
    and deliver :: "byte list \<Rightarrow> 'v \<Rightarrow> 'v option"
  assumes chunk_frames: "\<lbrakk>caps_header_law C; ok s; fits bs s; pend s @ bs = concat fs @ p; \<forall>f\<in>set fs. good_frame C sz f;
      partial C sz p; iterate deliver fs (view s) = Some v\<rbrakk> \<Longrightarrow>
      \<exists>t. chunk bs s = Some t \<and> ok t \<and> pend t = p \<and> view t = v"
begin

lemma feed_frames:
  assumes header: "caps_header_law C"
  shows "\<lbrakk>ok s; partial C sz (pend s); all_fit chunk fits bss s; pend s @ concat bss = concat fs @ p;
    \<forall>f\<in>set fs. good_frame C sz f; partial C sz p; iterate deliver fs (view s) = Some v\<rbrakk> \<Longrightarrow>
   \<exists>t. iterate chunk bss s = Some t \<and> ok t \<and> pend t = p \<and> view t = v"
proof (induction bss arbitrary: s fs)
  case Nil
  then have "fs = []" using partial_frames_Nil [OF header, of sz fs p] by simp
  with Nil show ?case by simp
next
  case (Cons bs bss)
  from Cons.prems(4) have "(pend s @ bs) @ concat bss = concat fs @ p" by simp
  from split_stream [OF this Cons.prems(5,6)] obtain fs1 fs2 p1 where
    d: "fs = fs1 @ fs2" "pend s @ bs = concat fs1 @ p1" "partial C sz p1" "p1 @ concat bss = concat fs2 @ p"
    by blast
  from Cons.prems(7) d(1) obtain w where w: "iterate deliver fs1 (view s) = Some w"
      "iterate deliver fs2 w = Some v"
    by (auto simp: iterate_append bind_eq_Some)
  have "fits bs s" using Cons.prems(3) by simp
  from chunk_frames [OF header Cons.prems(1) this d(2) _ d(3) w(1)] Cons.prems(5) d(1) obtain t where
    t: "chunk bs s = Some t" "ok t" "pend t = p1" "view t = w" by auto
  from Cons.prems(3,5,6) d t w(2) have
    "\<exists>x. iterate chunk bss t = Some x \<and> ok x \<and> pend x = p \<and> view x = v"
    by (intro Cons.IH) simp_all
  with t(1) show ?case by simp
qed

end

end
