(* ===== verification/SockPoll.thy ===== *)
theory SockPoll
  imports Service Framing
begin

text \<open>
  The polls (\<open>src/sock-poll.cc\<close>, \<open>src/beep-sock-poll.h\<close>, \<open>src/poll.cc\<close>): the map from file
  descriptors to adapters, accepting, reading and splitting into frames, deleting, and the
  keep-alive list of the TCP poll. What \<open>select\<close>, \<open>accept\<close> and \<open>read\<close> yield are arguments.
\<close>

section \<open>State\<close>

definition POLL_TYPE_UNIX :: u32 where [flora_consts]: "POLL_TYPE_UNIX = 0"
definition POLL_TYPE_TCP :: u32 where [flora_consts]: "POLL_TYPE_TCP = 1"

record active_adapter =
  lastest_action_tp :: time
  aa_adapter :: aid

text \<open>\<open>dispatcher\<close> is the flag that one is attached; its state is passed along. \<open>beep\<close> tells a
  \<open>BeepSocketPoll\<close> from its base class.\<close>

record spoll =
  dispatcher :: bool
  listen_fd :: int
  max_fd :: int
  all_fds :: "int set"
  max_msg :: u32
  adapters :: "(int \<times> aid) list"
  p_type :: u32
  beep :: bool
  active_adapters :: "active_adapter list"
  beep_timeout :: u32

definition new_poll :: "u32 \<Rightarrow> bool \<Rightarrow> spoll" where
  "new_poll t b =
     \<lparr>dispatcher = False, listen_fd = - 1, max_fd = 0, all_fds = {}, max_msg = 0, adapters = [],
      p_type = t, beep = b, active_adapters = [], beep_timeout = 60000\<rparr>"

text \<open>\<open>Poll::new_instance\<close> and \<open>flora_poll_new\<close>, given the scheme the URI parser found
  (\<open>None\<close>: the URI does not parse).\<close>

definition new_instance_poll :: "string option \<Rightarrow> spoll option" where
  "new_instance_poll scheme =
     (case scheme of None \<Rightarrow> None
      | Some sc \<Rightarrow>
          if sc = ''unix'' then Some (new_poll POLL_TYPE_UNIX False)
          else if sc = ''tcp'' then Some (new_poll POLL_TYPE_TCP True)
          else None)"

definition flora_poll_new :: "bool \<Rightarrow> string option \<Rightarrow> i32 \<times> spoll option" where
  "flora_poll_new has_result scheme =
     (if \<not> has_result then (FLORA_POLL_INVAL, None)
      else
        (case scheme of None \<Rightarrow> (FLORA_POLL_INVAL, None)
         | Some sc \<Rightarrow>
             if sc = ''unix'' then (FLORA_POLL_SUCCESS, Some (new_poll POLL_TYPE_UNIX False))
             else if sc = ''tcp'' then (FLORA_POLL_SUCCESS, Some (new_poll POLL_TYPE_TCP False))
             else (FLORA_POLL_UNSUPP, None)))"

text \<open>\<open>FLORA_POLL_OPT_KEEPALIVE_TIMEOUT\<close> is the only option; the base class ignores it.\<close>

definition FLORA_POLL_OPT_KEEPALIVE_TIMEOUT :: u32 where
  [flora_consts]: "FLORA_POLL_OPT_KEEPALIVE_TIMEOUT = 1"

definition poll_config :: "u32 \<Rightarrow> u32 \<Rightarrow> spoll \<Rightarrow> spoll" where
  "poll_config opt arg p =
     (if beep p \<and> opt = FLORA_POLL_OPT_KEEPALIVE_TIMEOUT then p\<lparr>beep_timeout := arg\<rparr> else p)"

section \<open>Starting and stopping\<close>

text \<open>The listening socket, if \<open>init_unix_socket\<close> or \<open>init_tcp_socket\<close> could open one, is an
  argument; \<open>run\<close> has initialised the descriptor set when \<open>start\<close> returns.\<close>

definition poll_start :: "int option \<Rightarrow> 'c disp \<Rightarrow> spoll \<Rightarrow> i32 \<times> spoll" where
  "poll_start sock s p =
     (if dispatcher p then (FLORA_POLL_ALREADY_START, p)
      else
        (case sock of
           None \<Rightarrow> (FLORA_POLL_SYSERR, p)
         | Some fd \<Rightarrow>
             (FLORA_POLL_SUCCESS,
              p\<lparr>listen_fd := fd, dispatcher := True, max_msg := max_msg_size s, all_fds := {fd},
                max_fd := fd + 1\<rparr>)))"

definition poll_stop :: "spoll \<Rightarrow> spoll" where
  "poll_stop p = (if \<not> dispatcher p then p else p\<lparr>listen_fd := - 1, dispatcher := False\<rparr>)"

section \<open>Accepting and deleting\<close>

definition new_adapter :: "'c caps_ops \<Rightarrow> int \<Rightarrow> spoll \<Rightarrow> adapter \<times> spoll" where
  "new_adapter C fd p =
     (new_SocketAdapter fd (max_msg p) (if p_type p = POLL_TYPE_TCP then CAPS_FLAG_NET_BYTEORDER C else 0),
      p\<lparr>max_fd := (if max_fd p \<le> fd then fd + 1 else max_fd p), all_fds := insert fd (all_fds p)\<rparr>)"

text \<open>What \<open>accept\<close> gives: a descriptor, the peer's address (TCP), and the identity of the new
  object. The adapter is held by the map and, in the keep-alive poll, by the active list.\<close>

definition do_accept ::
  "'c env \<Rightarrow> time \<Rightarrow> (int \<times> sockaddr_in \<times> aid) option \<Rightarrow> spoll \<times> 'c disp \<Rightarrow> spoll \<times> 'c disp" where
  "do_accept E nowtp acc ps =
     (case acc of None \<Rightarrow> ps
      | Some (fd, addr, a) \<Rightarrow>
          (let (p, s) = ps;
               (ad, p) = new_adapter (caps E) fd p;
               tg = (if p_type p = POLL_TYPE_TCP then tag_create_addr addr else 0);
               p = p\<lparr>adapters := fst (map_insert fd a (adapters p))\<rparr>;
               p = (if beep p then p\<lparr>active_adapters := active_adapters p @
                        [\<lparr>lastest_action_tp = nowtp, aa_adapter = a\<rparr>]\<rparr> else p)
           in (p, poll_connect a (ad\<lparr>tag := tg\<rparr>) s)))"

text \<open>\<open>delete_adapter\<close> followed by the removal from the map.\<close>

definition delete_adapter :: "int \<Rightarrow> aid \<Rightarrow> spoll \<times> 'c disp \<Rightarrow> spoll \<times> 'c disp" where
  "delete_adapter fd a ps =
     (let (p, s) = ps in
      (p\<lparr>all_fds := all_fds p - {socketfd (heap s a)}, adapters := map_erase fd (adapters p)\<rparr>,
       poll_drop a s))"

section \<open>Reading\<close>

text \<open>The loop of \<open>do_read\<close>; \<open>None\<close> is a loop that does not end.\<close>

partial_function (option) frame_loop :: "'c env \<Rightarrow> aid \<Rightarrow> 'c disp \<Rightarrow> (bool \<times> 'c disp) option" where
  "frame_loop E a s =
     (let (r, frame, ad) = next_frame (caps E) (heap s a);
          s = s\<lparr>heap := (heap s)(a := ad)\<rparr>
      in if r = SOCK_ADAPTER_SUCCESS then
           (let (ok, s) = put E (the frame) a s in
            if ok then frame_loop E a s else Some (False, s))
         else if r = SOCK_ADAPTER_ENOMORE then Some (True, s)
         else Some (False, s))"

declare frame_loop.simps [code]

definition do_read :: "'c env \<Rightarrow> read_result \<Rightarrow> aid \<Rightarrow> 'c disp \<Rightarrow> (bool \<times> 'c disp) option" where
  "do_read E rdr a s =
     (let (r, ad) = adapter_read rdr (heap s a);
          s = s\<lparr>heap := (heap s)(a := ad)\<rparr>
      in if r \<noteq> SOCK_ADAPTER_SUCCESS then Some (False, s) else frame_loop E a s)"

section \<open>Keep-alive\<close>

text \<open>\<open>BeepSocketPoll::do_read\<close>: what it does to the active list after the read.\<close>

definition touch_active :: "time \<Rightarrow> aid \<Rightarrow> bool \<Rightarrow> active_adapter list \<Rightarrow> active_adapter list" where
  "touch_active nowtp a ok xs =
     (let before = takeWhile (\<lambda>x. aa_adapter x \<noteq> a) xs
      in case dropWhile (\<lambda>x. aa_adapter x \<noteq> a) xs of
           [] \<Rightarrow> xs
         | x # after \<Rightarrow>
             if ok then before @ after @ [x\<lparr>lastest_action_tp := nowtp\<rparr>] else before @ after)"

text \<open>\<open>shutdown_timeout_adapter\<close>: the adapters whose socket is shut down, and the list left.\<close>

fun shutdown_loop :: "time \<Rightarrow> active_adapter list \<Rightarrow> aid list \<times> active_adapter list" where
  "shutdown_loop tp [] = ([], [])"
| "shutdown_loop tp (x # xs) =
     (if lastest_action_tp x \<le> tp
      then (let (shut, rest) = shutdown_loop tp xs in (aa_adapter x # shut, rest))
      else ([], x # xs))"

definition shutdown_timeout_adapter :: "time \<Rightarrow> spoll \<Rightarrow> aid list \<times> spoll" where
  "shutdown_timeout_adapter nowtp p =
     (let (shut, rest) =
        shutdown_loop (nowtp - int (unat (beep_timeout p)) * 1000000) (active_adapters p)
      in (shut, p\<lparr>active_adapters := rest\<rparr>))"

text \<open>\<open>obtain_timeout\<close>: the \<open>timeval\<close> passed to \<open>select\<close>; \<open>duration_cast\<close> and the divisions
  truncate towards zero.\<close>

definition trunc_div :: "int \<Rightarrow> int \<Rightarrow> int" where
  "trunc_div a b = (if a < 0 then - ((- a) div b) else a div b)"

definition trunc_mod :: "int \<Rightarrow> int \<Rightarrow> int" where
  "trunc_mod a b = a - trunc_div a b * b"

definition obtain_timeout :: "time \<Rightarrow> spoll \<Rightarrow> int \<times> int" where
  "obtain_timeout nowtp p =
     (let dur = trunc_div (int (unat (beep_timeout p)) * 1000000 -
                  (nowtp - lastest_action_tp (hd (active_adapters p)))) 1000000
      in (trunc_div dur 1000, trunc_mod dur 1000 * 1000))"

section \<open>The poll thread\<close>

text \<open>What one ready descriptor makes \<open>run\<close> do: accept on the listening socket, otherwise read
  and, if that fails, delete.\<close>

datatype ready = Listen "(int \<times> sockaddr_in \<times> aid) option" | Readable int read_result

definition on_ready ::
  "'c env \<Rightarrow> time \<Rightarrow> ready \<Rightarrow> spoll \<times> 'c disp \<Rightarrow> (spoll \<times> 'c disp) option" where
  "on_ready E nowtp ev ps =
     (case ev of
        Listen acc \<Rightarrow> Some (do_accept E nowtp acc ps)
      | Readable fd rdr \<Rightarrow>
          (case map_of (adapters (fst ps)) fd of
             None \<Rightarrow> Some ps
           | Some a \<Rightarrow>
               map_option
                 (\<lambda>(ok, s).
                    (let p = (if beep (fst ps)
                              then (fst ps)\<lparr>active_adapters := touch_active nowtp a ok (active_adapters (fst ps))\<rparr>
                              else fst ps)
                     in if ok then (p, s) else delete_adapter fd a (p, s)))
                 (do_read E rdr a (snd ps))))"

text \<open>One turn of the loop of \<open>run\<close>, and its end, where every adapter left is deleted.\<close>

fun run_turn :: "'c env \<Rightarrow> time \<Rightarrow> ready list \<Rightarrow> spoll \<times> 'c disp \<Rightarrow> (spoll \<times> 'c disp) option" where
  "run_turn E nowtp [] ps = Some ps"
| "run_turn E nowtp (ev # evs) ps = Option.bind (on_ready E nowtp ev ps) (run_turn E nowtp evs)"

fun release_all :: "(int \<times> aid) list \<Rightarrow> spoll \<times> 'c disp \<Rightarrow> spoll \<times> 'c disp" where
  "release_all [] ps = ps"
| "release_all ((fd, a) # fds) ps = release_all fds (delete_adapter fd a ps)"

definition run_end :: "spoll \<times> 'c disp \<Rightarrow> spoll \<times> 'c disp" where
  "run_end ps = release_all (adapters (fst ps)) ps"

section \<open>Reassembly of frames\<close>

lemma put_parsed:
  "caps_parse (caps E) bs = Some c \<Longrightarrow>
   put E bs a s = (True, s\<lparr>cmd_packets := cmd_packets s @ [(Some c, a)]\<rparr>)"
  by (simp add: put_def)

text \<open>The packets a list of frames makes.\<close>

definition packets :: "'c env \<Rightarrow> aid \<Rightarrow> byte list list \<Rightarrow> ('c option \<times> aid) list" where
  "packets E a fs = map (\<lambda>f. (Some (the (caps_parse (caps E) f)), a)) fs"

lemma frame_loop_drains:
  assumes "caps_header_law (caps E)" and "adapter_ok (heap s a)" and "\<not> closed (heap s a)"
    and "unread (heap s a) = concat fs @ p" and "\<forall>f\<in>set fs. good_frame (caps E) (buf_size (heap s a)) f"
    and "partial (caps E) (buf_size (heap s a)) p"
  shows "\<exists>t. frame_loop E a s = Some (True, t) \<and> cmd_packets t = cmd_packets s @ packets E a fs \<and>
    adapter_ok (heap t a) \<and> \<not> closed (heap t a) \<and> unread (heap t a) = p \<and>
    buf_size (heap t a) = buf_size (heap s a) \<and> unat (cur_size (heap t a)) = length p \<and>
    (\<forall>b. b \<noteq> a \<longrightarrow> heap t b = heap s b)"
  using assms(2-)
proof (induction fs arbitrary: s)
  case Nil
  from Nil.prems(5) obtain q where q: "q \<noteq> []" "is_frame (caps E) (buf_size (heap s a)) (p @ q)"
    by (auto simp: partial_def)
  from next_frame_partial [OF assms(1) Nil.prems(1,2), of q "p @ q"] q Nil.prems(3) obtain ad where
    ad: "next_frame (caps E) (heap s a) = (SOCK_ADAPTER_ENOMORE, None, ad)" "adapter_ok ad"
      "unread ad = p" "buf_size ad = buf_size (heap s a)" "\<not> closed ad" "unat (cur_size ad) = length p"
    by auto
  have "frame_loop E a s = Some (True, s\<lparr>heap := (heap s)(a := ad)\<rparr>)"
    by (subst frame_loop.simps) (simp add: ad(1) SOCK_ADAPTER_ENOMORE_def SOCK_ADAPTER_SUCCESS_def)
  with ad show ?case by (simp add: packets_def)
next
  case (Cons f fs)
  from Cons.prems(4) have f: "is_frame (caps E) (buf_size (heap s a)) f" "caps_parse (caps E) f \<noteq> None"
    by (simp_all add: good_frame_def)
  then obtain c where c: "caps_parse (caps E) f = Some c" by blast
  from next_frame_complete [OF assms(1) Cons.prems(1,2), of f "concat fs @ p"] f Cons.prems(3) obtain ad where
    ad: "next_frame (caps E) (heap s a) = (SOCK_ADAPTER_SUCCESS, Some f, ad)" "adapter_ok ad"
      "unread ad = concat fs @ p" "buf_size ad = buf_size (heap s a)" "\<not> closed ad"
    by auto
  define u where "u = s\<lparr>heap := (heap s)(a := ad), cmd_packets := cmd_packets s @ [(Some c, a)]\<rparr>"
  have "frame_loop E a s = frame_loop E a u"
    by (subst frame_loop.simps) (simp add: ad(1) put_parsed [OF c] u_def)
  moreover have "\<exists>t. frame_loop E a u = Some (True, t) \<and> cmd_packets t = cmd_packets u @ packets E a fs \<and>
      adapter_ok (heap t a) \<and> \<not> closed (heap t a) \<and> unread (heap t a) = p \<and>
      buf_size (heap t a) = buf_size (heap u a) \<and> unat (cur_size (heap t a)) = length p \<and>
      (\<forall>b. b \<noteq> a \<longrightarrow> heap t b = heap u b)"
    using Cons.prems ad by (intro Cons.IH) (simp_all add: u_def)
  ultimately show ?case using ad c by (auto simp: u_def packets_def)
qed

text \<open>A chunk the kernel hands over fits the free part of the buffer.\<close>

lemma do_read_chunk:
  assumes "caps_header_law (caps E)" and "adapter_ok (heap s a)" and "\<not> closed (heap s a)"
    and "bs \<noteq> []" and "length bs \<le> unat (buf_size (heap s a) - cur_size (heap s a))"
    and "unread (heap s a) @ bs = concat fs @ p" and "\<forall>f\<in>set fs. good_frame (caps E) (buf_size (heap s a)) f"
    and "partial (caps E) (buf_size (heap s a)) p"
  shows "\<exists>t. do_read E (RdData bs) a s = Some (True, t) \<and> cmd_packets t = cmd_packets s @ packets E a fs \<and>
    adapter_ok (heap t a) \<and> \<not> closed (heap t a) \<and> unread (heap t a) = p \<and>
    buf_size (heap t a) = buf_size (heap s a) \<and> unat (cur_size (heap t a)) = length p"
proof -
  from adapter_read_ok [OF assms(2-5)] obtain ad where
    ad: "adapter_read (RdData bs) (heap s a) = (SOCK_ADAPTER_SUCCESS, ad)" "adapter_ok ad"
      "unread ad = unread (heap s a) @ bs" "buf_size ad = buf_size (heap s a)" "\<not> closed ad" by blast
  let ?u = "s\<lparr>heap := (heap s)(a := ad)\<rparr>"
  have "do_read E (RdData bs) a s = frame_loop E a ?u" by (simp add: do_read_def ad(1))
  with frame_loop_drains [OF assms(1), of ?u a fs p] ad assms(6-8) show ?thesis by auto
qed

text \<open>The bytes one \<open>::read\<close> delivered, handled by a \<open>do_read\<close> that succeeds; the read has
  returned a byte at least and no more than the free part of the buffer holds.\<close>

definition read_chunk :: "'c env \<Rightarrow> aid \<Rightarrow> byte list \<Rightarrow> 'c disp \<Rightarrow> 'c disp option" where
  "read_chunk E a bs s = (case do_read E (RdData bs) a s of Some (True, t) \<Rightarrow> Some t | _ \<Rightarrow> None)"

definition chunk_fits :: "aid \<Rightarrow> byte list \<Rightarrow> 'c disp \<Rightarrow> bool" where
  "chunk_fits a bs s \<longleftrightarrow> bs \<noteq> [] \<and> length bs \<le> unat (buf_size (heap s a) - cur_size (heap s a))"

definition receiving :: "u32 \<Rightarrow> aid \<Rightarrow> 'c disp \<Rightarrow> bool" where
  "receiving sz a s \<longleftrightarrow> adapter_ok (heap s a) \<and> \<not> closed (heap s a) \<and> buf_size (heap s a) = sz"

definition enqueue :: "'c env \<Rightarrow> aid \<Rightarrow> byte list \<Rightarrow> ('c option \<times> aid) list \<Rightarrow> ('c option \<times> aid) list option" where
  "enqueue E a f q = Some (q @ packets E a [f])"

lemma iterate_enqueue: "iterate (enqueue E a) fs q = Some (q @ packets E a fs)"
  by (induction fs arbitrary: q) (simp_all add: enqueue_def packets_def)

interpretation svc: stream_receiver "caps E" sz "read_chunk E a" "chunk_fits a" "receiving sz a"
  "\<lambda>s. unread (heap s a)" cmd_packets "enqueue E a"
  for E sz a
proof
  fix s :: "'a disp" and bs fs p v
  assume *: "caps_header_law (caps E)" "receiving sz a s" "chunk_fits a bs s"
    "unread (heap s a) @ bs = concat fs @ p" "\<forall>f\<in>set fs. good_frame (caps E) sz f"
    "partial (caps E) sz p" "iterate (enqueue E a) fs (cmd_packets s) = Some v"
  have "\<exists>t. do_read E (RdData bs) a s = Some (True, t) \<and> cmd_packets t = cmd_packets s @ packets E a fs \<and>
      adapter_ok (heap t a) \<and> \<not> closed (heap t a) \<and> unread (heap t a) = p \<and>
      buf_size (heap t a) = buf_size (heap s a) \<and> unat (cur_size (heap t a)) = length p"
    using * by (intro do_read_chunk) (simp_all add: receiving_def chunk_fits_def)
  then show "\<exists>t. read_chunk E a bs s = Some t \<and> receiving sz a t \<and> unread (heap t a) = p \<and> cmd_packets t = v"
    using *(2,7) by (auto simp: read_chunk_def receiving_def iterate_enqueue)
qed

text \<open>C21: Framing. However the kernel cuts a client's byte stream into chunks, reading them one
  after the other ends each time, succeeds, and puts exactly the messages of the stream into the
  dispatcher's queue, whole and in order; the beginning of a message that is still incomplete stays
  in the buffer.\<close>

theorem frames_reassembled:
  assumes "caps_header_law (caps E)"
    and "heap s a = (new_SocketAdapter fd sz flags)\<lparr>tag := tg\<rparr>"
    and "all_fit (read_chunk E a) (chunk_fits a) bss s"
    and "concat bss = concat fs @ p" and "\<forall>f\<in>set fs. good_frame (caps E) sz f" and "partial (caps E) sz p"
  shows "\<exists>t. iterate (read_chunk E a) bss s = Some t \<and> cmd_packets t = cmd_packets s @ packets E a fs \<and>
    unread (heap t a) = p"
proof -
  have u: "unread (heap s a) = []" by (simp add: assms(2) unread_def new_SocketAdapter_def)
  have "receiving sz a s"
    by (simp add: receiving_def assms(2) adapter_ok_def new_SocketAdapter_def closed_def)
  moreover have "partial (caps E) sz (unread (heap s a))" using assms(6) u by (auto simp: partial_def)
  ultimately have "\<exists>t. iterate (read_chunk E a) bss s = Some t \<and> receiving sz a t \<and>
      unread (heap t a) = p \<and> cmd_packets t = cmd_packets s @ packets E a fs"
    using assms(3-6) u by (intro svc.feed_frames [OF assms(1)]) (simp_all add: iterate_enqueue)
  then show ?thesis by blast
qed

lemma demo_header_law: "caps_header_law (caps demo_env)"
  by (simp add: caps_header_law_def demo_env_def lite_ops_def)

theorem frames_reassembled_witness:
  "\<exists>t. iterate (read_chunk demo_env 1) [[0, 0, 0], [0, 0, 0, 0, 0, 2, 0, 0, 0, 0], [0, 0, 0]] demo_start = Some t \<and>
    cmd_packets t = [(Some (auth_msg ''a'' 0), 1), (Some (subscribe_msg ''t''), 1)]"
proof -
  let ?bss = "[[0, 0, 0], [0, 0, 0, 0, 0, 2, 0, 0, 0, 0], [0, 0, 0]] :: byte list list"
  let ?fs = "[[0, 0, 0, 0, 0, 0, 0, 0], [2, 0, 0, 0, 0, 0, 0, 0]] :: byte list list"
  have h: "heap demo_start 1 = (new_SocketAdapter 5 16 0)\<lparr>tag := 0\<rparr>"
    by (simp add: demo_start_def poll_connect_def demo_ad_def new_SocketAdapter_def)
  have c: "all_fit (read_chunk demo_env 1) (chunk_fits 1) ?bss demo_start" by code_simp
  have g: "\<forall>f\<in>set ?fs. good_frame (caps demo_env) 16 f" by code_simp
  have p: "partial (caps demo_env) 16 []"
    unfolding partial_def by (rule exI [of _ "replicate 8 0"]) code_simp
  have "\<exists>t. iterate (read_chunk demo_env 1) ?bss demo_start = Some t \<and>
      cmd_packets t = cmd_packets demo_start @ packets demo_env 1 ?fs \<and> unread (heap t 1) = []"
    by (rule frames_reassembled [OF demo_header_law h c _ g p]) simp
  moreover have "packets demo_env 1 ?fs = [(Some (auth_msg ''a'' 0), 1), (Some (subscribe_msg ''t''), 1)]"
    by code_simp
  ultimately show ?thesis by auto
qed

section \<open>Keep-alive\<close>

interpretation alive_list: deadline_queue lastest_action_tp "\<lambda>tp x. lastest_action_tp x \<le> tp"
  by unfold_locales simp

lemma shutdown_loop_eq:
  "shutdown_loop tp xs =
     (map aa_adapter (takeWhile (\<lambda>x. lastest_action_tp x \<le> tp) xs),
      dropWhile (\<lambda>x. lastest_action_tp x \<le> tp) xs)"
  by (induction xs) simp_all

definition active_ok :: "time \<Rightarrow> spoll \<Rightarrow> bool" where
  "active_ok nowtp p \<longleftrightarrow>
     sorted (map lastest_action_tp (active_adapters p)) \<and>
     (\<forall>x\<in>set (active_adapters p). lastest_action_tp x \<le> nowtp)"

lemma touch_active_set:
  "set (touch_active nowtp a ok xs) \<subseteq> set xs \<union> {x. lastest_action_tp x = nowtp \<and> aa_adapter x = a}"
proof (cases "dropWhile (\<lambda>x. aa_adapter x \<noteq> a) xs")
  case (Cons x after)
  then have xs: "xs = takeWhile (\<lambda>x. aa_adapter x \<noteq> a) xs @ x # after" by (metis takeWhile_dropWhile_id)
  have "aa_adapter x = a" using Cons hd_dropWhile [of "\<lambda>x. aa_adapter x \<noteq> a" xs] by fastforce
  moreover have "set (takeWhile (\<lambda>x. aa_adapter x \<noteq> a) xs) \<union> set after \<subseteq> set xs" by (subst (2) xs) auto
  ultimately show ?thesis by (auto simp: touch_active_def Let_def Cons)
next
  case Nil
  then show ?thesis by (simp add: touch_active_def Let_def del: dropWhile_eq_Nil_conv)
qed

lemma touch_active_sorted:
  assumes "sorted (map lastest_action_tp xs)" and "\<forall>x\<in>set xs. lastest_action_tp x \<le> nowtp"
  shows "sorted (map lastest_action_tp (touch_active nowtp a ok xs))"
proof (cases "dropWhile (\<lambda>x. aa_adapter x \<noteq> a) xs")
  case Nil
  with assms(1) show ?thesis by (simp add: touch_active_def Let_def del: dropWhile_eq_Nil_conv)
next
  case (Cons x after)
  let ?b = "takeWhile (\<lambda>x. aa_adapter x \<noteq> a) xs"
  have xs: "xs = ?b @ x # after" using Cons by (metis takeWhile_dropWhile_id)
  have s: "sorted (map lastest_action_tp (?b @ after))"
    by (rule sorted_delete [where x = x]) (metis assms(1) xs)
  have "\<forall>y\<in>set (?b @ after). lastest_action_tp y \<le> nowtp"
    using assms(2) by (subst (asm) xs) auto
  with s show ?thesis by (auto simp: touch_active_def Let_def Cons sorted_append)
qed

text \<open>C36: Keep-alive. When the TCP poll checks its active list, it shuts down exactly the
  connections from which nothing has arrived for the configured number of milliseconds, oldest
  first, and keeps all others in order; the list stays ordered by the time of the last message,
  also when a message moves its sender to the end.\<close>

theorem keepalive_expiry:
  assumes "active_ok nowtp p" and "shutdown_timeout_adapter nowtp p = (shut, q)"
  shows "shut = map aa_adapter (filter (\<lambda>x. int (unat (beep_timeout p)) * 1000000 \<le> nowtp - lastest_action_tp x)
      (active_adapters p)) \<and>
    active_adapters q = filter (\<lambda>x. nowtp - lastest_action_tp x < int (unat (beep_timeout p)) * 1000000)
      (active_adapters p) \<and>
    active_ok nowtp q \<and>
    active_ok nowtp (q\<lparr>active_adapters := touch_active nowtp a ok (active_adapters q)\<rparr>)"
proof -
  let ?tp = "nowtp - int (unat (beep_timeout p)) * 1000000"
  have s: "sorted (map lastest_action_tp (active_adapters p))" using assms(1) by (simp add: active_ok_def)
  note f = alive_list.takeWhile_due [OF s, of ?tp] alive_list.dropWhile_due [OF s, of ?tp]
    alive_list.sorted_rest [OF s, of ?tp]
  have q: "shut = map aa_adapter (filter (\<lambda>x. lastest_action_tp x \<le> ?tp) (active_adapters p))"
      "active_adapters q = filter (\<lambda>x. \<not> lastest_action_tp x \<le> ?tp) (active_adapters p)"
    using assms(2) f(1,2) by (auto simp: shutdown_timeout_adapter_def shutdown_loop_eq)
  have so: "sorted (map lastest_action_tp (active_adapters q))" using f(2,3) q(2) by simp
  have le: "\<forall>x\<in>set (active_adapters q). lastest_action_tp x \<le> nowtp"
    using assms(1) by (simp add: q(2) active_ok_def)
  have c: "(lastest_action_tp x \<le> ?tp) = (int (unat (beep_timeout p)) * 1000000 \<le> nowtp - lastest_action_tp x)" for x
    by linarith
  have "active_ok nowtp (q\<lparr>active_adapters := touch_active nowtp a ok (active_adapters q)\<rparr>)"
    using touch_active_sorted [OF so le] touch_active_set [of nowtp a ok "active_adapters q"] le
    by (auto simp: active_ok_def)
  with q so le show ?thesis unfolding c by (simp add: active_ok_def not_le)
qed

definition demo_poll :: spoll where
  "demo_poll = (new_poll POLL_TYPE_TCP True)\<lparr>active_adapters :=
     [\<lparr>lastest_action_tp = 0, aa_adapter = 1\<rparr>, \<lparr>lastest_action_tp = 50000000000, aa_adapter = 2\<rparr>]\<rparr>"

theorem keepalive_expiry_witness:
  "fst (shutdown_timeout_adapter 60000000000 demo_poll) = [1]"
proof -
  have "active_ok 60000000000 demo_poll"
    by (simp add: active_ok_def demo_poll_def)
  moreover obtain shut q where sq: "shutdown_timeout_adapter 60000000000 demo_poll = (shut, q)" by fastforce
  ultimately have "shut = map aa_adapter (filter (\<lambda>x. int (unat (beep_timeout demo_poll)) * 1000000
      \<le> 60000000000 - lastest_action_tp x) (active_adapters demo_poll))"
    using keepalive_expiry [OF _ sq] by simp
  also have "\<dots> = [1]" by (simp add: demo_poll_def new_poll_def)
  finally show ?thesis using sq by simp
qed

text \<open>C38: The timeout passed to \<open>select\<close>. The TCP poll waits until the oldest connection is due;
  but if that connection is overdue by a millisecond or more when the wait is computed (it came due
  after the last check), the \<open>timeval\<close> is negative, which \<open>select\<close> rejects and the poll thread
  answers by ending.\<close>

theorem select_timeout_sign:
  assumes "over = nowtp - lastest_action_tp (hd (active_adapters p)) - int (unat (beep_timeout p)) * 1000000"
    and "obtain_timeout nowtp p = (sec, usec)"
  shows "(sec < 0 \<or> usec < 0) = (1000000 \<le> over) \<and>
    (over \<le> 0 \<longrightarrow> 0 \<le> sec \<and> 0 \<le> usec \<and> usec < 1000000 \<and>
      sec * 1000000 + usec = (- over) div 1000000 * 1000)"
proof -
  define dur where "dur = trunc_div (- over) 1000000"
  have e: "sec = trunc_div dur 1000" "usec = trunc_mod dur 1000 * 1000"
    using assms by (auto simp: obtain_timeout_def Let_def dur_def)
  have d: "dur = (if 0 < over then - (over div 1000000) else (- over) div 1000000)"
    by (simp add: dur_def trunc_div_def)
  have neg: "dur < 0 \<longleftrightarrow> 1000000 \<le> over"
    unfolding d by (auto simp: pos_imp_zdiv_pos_iff)
  have "sec < 0 \<or> usec < 0 \<longleftrightarrow> dur < 0"
  proof (cases "dur < 0")
    case True
    have "- dur = (- dur) div 1000 * 1000 + (- dur) mod 1000" by simp
    then have "sec * 1000 + usec div 1000 = dur" using True by (simp add: e trunc_div_def trunc_mod_def)
    with True show ?thesis by (auto simp: e trunc_div_def trunc_mod_def)
  qed (auto simp: e trunc_div_def trunc_mod_def minus_div_mult_eq_mod pos_imp_zdiv_neg_iff)
  moreover have "over \<le> 0 \<longrightarrow> 0 \<le> sec \<and> 0 \<le> usec \<and> usec < 1000000 \<and>
      sec * 1000000 + usec = (- over) div 1000000 * 1000"
  proof
    assume o: "over \<le> 0"
    then have "0 \<le> dur" "dur = (- over) div 1000000" using d by (auto simp: pos_imp_zdiv_nonneg_iff)
    then show "0 \<le> sec \<and> 0 \<le> usec \<and> usec < 1000000 \<and> sec * 1000000 + usec = (- over) div 1000000 * 1000"
      by (simp add: e trunc_div_def trunc_mod_def minus_div_mult_eq_mod) (simp add: minus_mult_div_eq_mod [symmetric])
  qed
  ultimately show ?thesis using neg by simp
qed

theorem select_timeout_sign_witness:
  "fst (obtain_timeout 70000000000 demo_poll) < 0 \<or> snd (obtain_timeout 70000000000 demo_poll) < 0"
proof -
  have "lastest_action_tp (hd (active_adapters demo_poll)) = 0" "beep_timeout demo_poll = 60000"
    by (simp_all add: demo_poll_def new_poll_def)
  with select_timeout_sign [OF refl, of 70000000000 demo_poll "fst (obtain_timeout 70000000000 demo_poll)"
      "snd (obtain_timeout 70000000000 demo_poll)"] show ?thesis by simp
qed

section \<open>The poll drives the dispatcher as the service model says\<close>

lemma next_frame_same:
  assumes "next_frame C ad = (r, f, ad')"
  shows "info ad' = info ad" "tag ad' = tag ad" "serialize_flags ad' = serialize_flags ad"
    "closed ad' = closed ad"
  using assms
  by (auto simp: next_frame_def nomore_def closed_def Let_def split: option.splits prod.splits if_splits)

lemma adapter_read_same:
  assumes "adapter_read rdr ad = (r, ad')"
  shows "info ad' = info ad" "tag ad' = tag ad" "serialize_flags ad' = serialize_flags ad"
    "closed ad' = closed ad"
  using assms by (auto simp: adapter_read_def closed_def split: option.splits read_result.splits if_splits)

lemma quiet_heap:
  assumes "info ad = info (heap s a)" "tag ad = tag (heap s a)"
    "serialize_flags ad = serialize_flags (heap s a)" "closed ad = closed (heap s a)"
  shows "quiet s (s\<lparr>heap := (heap s)(a := ad)\<rparr>)"
  using assms by (simp add: quiet_def)

lemma frame_loop_steps:
  assumes "frame_loop E a s = Some (ok, t)" and "a \<in> set (poll_refs s)"
  shows "(svc_step E)\<^sup>*\<^sup>* s t \<and> poll_refs t = poll_refs s"
proof -
  have "a \<in> set (poll_refs s) \<longrightarrow> (svc_step E)\<^sup>*\<^sup>* s (snd y) \<and> poll_refs (snd y) = poll_refs s"
    if "frame_loop E a s = Some y" for y
  proof (rule frame_loop.raw_induct [where P = "\<lambda>E a s y. a \<in> set (poll_refs s) \<longrightarrow>
      (svc_step E)\<^sup>*\<^sup>* s (snd y) \<and> poll_refs (snd y) = poll_refs s", OF _ that])
    fix f E a s y
    assume IH: "\<And>E a s y. f E a s = Some y \<Longrightarrow>
        a \<in> set (poll_refs s) \<longrightarrow> (svc_step E)\<^sup>*\<^sup>* s (snd y) \<and> poll_refs (snd y) = poll_refs s"
      and prem: "(let (r, frame, ad) = next_frame (caps E) (heap s a);
          s = s\<lparr>heap := (heap s)(a := ad)\<rparr>
        in if r = SOCK_ADAPTER_SUCCESS
           then let (ok, s) = put E (the frame) a s in if ok then f E a s else Some (False, s)
           else if r = SOCK_ADAPTER_ENOMORE then Some (True, s) else Some (False, s)) = Some y"
    obtain r fr ad where n: "next_frame (caps E) (heap s a) = (r, fr, ad)" by (rule prod_cases3)
    let ?u = "s\<lparr>heap := (heap s)(a := ad)\<rparr>"
    have u: "svc_step E s ?u" by (rule svc_step.io, rule quiet_heap) (use next_frame_same [OF n] in simp_all)
    show "a \<in> set (poll_refs s) \<longrightarrow> (svc_step E)\<^sup>*\<^sup>* s (snd y) \<and> poll_refs (snd y) = poll_refs s"
    proof
      assume a: "a \<in> set (poll_refs s)"
      obtain k v where p: "put E (the fr) a ?u = (k, v)" by fastforce
      have v: "svc_step E ?u v" "poll_refs v = poll_refs s"
        using a p put_fields(1) [of E "the fr" a ?u] by (auto intro: svc_step.receive)
      from prem have "(if r = SOCK_ADAPTER_SUCCESS then (if k then f E a v else Some (False, v))
          else if r = SOCK_ADAPTER_ENOMORE then Some (True, ?u) else Some (False, ?u)) = Some y"
        by (cases "r = SOCK_ADAPTER_SUCCESS"; simp add: n p Let_def)
      then consider "y = (True, ?u)" | "y = (False, ?u)" | "y = (False, v)" | "f E a v = Some y"
        by (cases "r = SOCK_ADAPTER_SUCCESS"; cases k; cases "r = SOCK_ADAPTER_ENOMORE") auto
      then show "(svc_step E)\<^sup>*\<^sup>* s (snd y) \<and> poll_refs (snd y) = poll_refs s"
      proof cases
        case 4
        from IH [OF this] v a have "(svc_step E)\<^sup>*\<^sup>* v (snd y)" "poll_refs (snd y) = poll_refs s" by auto
        with u v(1) show ?thesis by (meson converse_rtranclp_into_rtranclp)
      next
        case 3
        from u v(1) have "(svc_step E)\<^sup>*\<^sup>* s v" by (meson converse_rtranclp_into_rtranclp rtranclp.rtrancl_refl)
        with 3 v(2) show ?thesis by simp
      qed (use u in simp_all)
    qed
  qed
  from this [OF assms(1)] assms(2) show ?thesis by simp
qed

lemma do_read_steps:
  assumes "do_read E rdr a s = Some (ok, t)" and "a \<in> set (poll_refs s)"
  shows "(svc_step E)\<^sup>*\<^sup>* s t \<and> poll_refs t = poll_refs s"
proof -
  obtain r ad where n: "adapter_read rdr (heap s a) = (r, ad)" by fastforce
  let ?u = "s\<lparr>heap := (heap s)(a := ad)\<rparr>"
  have u: "svc_step E s ?u" by (rule svc_step.io, rule quiet_heap) (use adapter_read_same [OF n] in simp_all)
  from assms(1) n consider "t = ?u" | "frame_loop E a ?u = Some (ok, t)"
    by (auto simp: do_read_def Let_def split: if_splits)
  then show ?thesis
  proof cases
    case 2
    from frame_loop_steps [OF this] assms(2) u show ?thesis
      by (auto intro: converse_rtranclp_into_rtranclp)
  qed (use u in auto)
qed

text \<open>The poll's map holds what the dispatcher's model calls \<open>poll_refs\<close>, one descriptor each.\<close>

definition holds :: "spoll \<Rightarrow> 'c disp \<Rightarrow> bool" where
  "holds p s \<longleftrightarrow> map_ok (adapters p) \<and> distinct (map snd (adapters p)) \<and>
     set (poll_refs s) = snd ` set (adapters p)"

text \<open>What the kernel and the clients have to respect: \<open>accept\<close> gives an unused descriptor, a new
  object is new, and a connection that fails is not dropped while its first request is queued.\<close>

definition event_ok :: "'c env \<Rightarrow> ready \<Rightarrow> spoll \<Rightarrow> 'c disp \<Rightarrow> bool" where
  "event_ok E ev p s \<longleftrightarrow>
     (case ev of
        Listen acc \<Rightarrow> (case acc of None \<Rightarrow> True
          | Some (fd, addr, a) \<Rightarrow> map_of (adapters p) fd = None \<and> fresh s a)
      | Readable fd rdr \<Rightarrow> (case map_of (adapters p) fd of None \<Rightarrow> True
          | Some a \<Rightarrow> (case do_read E rdr a s of
                Some (False, t) \<Rightarrow> has_info t a \<or> a \<notin> snd ` set (queue t) | _ \<Rightarrow> True)))"

lemma holds_insert:
  assumes "holds p s" and "map_of (adapters p) fd = None" and "fresh s a"
    and "adapters q = map_put fd a (adapters p)"
  shows "holds q (poll_connect a ad s)"
proof -
  have na: "a \<notin> snd ` set (adapters p)" using assms(1,3) alive_poll by (auto simp: holds_def fresh_def)
  have sn: "snd ` set (map_put fd a m) = insert a (snd ` set m)" if "map_of m fd = None" for m
    using that by (induction fd a m rule: map_put.induct) (auto split: if_splits)
  have dn: "distinct (map snd (map_put fd a m))" if "distinct (map snd m)" "a \<notin> snd ` set m" "map_of m fd = None" for m
    using that
  proof (induction fd a m rule: map_put.induct)
    case (2 k v k' v' m)
    have "snd ` set (map_put k v m) = insert v (snd ` set m)" if "map_of m k = None"
      using that by (induction k v m rule: map_put.induct) (auto split: if_splits)
    with 2 show ?case by (auto simp: image_iff split: if_splits) 
  qed simp
  show ?thesis
    using assms na sn [OF assms(2)] dn [OF _ na assms(2)]
    by (auto simp: holds_def poll_connect_def smap.inv_put)
qed

lemma poll_drop_refs: "set (poll_refs (poll_drop a s)) = set (poll_refs s) - {a}"
  by (simp add: poll_drop_def erase_adapter_def Let_def quiet_fields [OF quiet_close])

lemma holds_delete:
  assumes "holds p s" and "map_of (adapters p) fd = Some a"
  shows "holds (fst (delete_adapter fd a (p, s))) (snd (delete_adapter fd a (p, s)))"
proof -
  have m: "(fd, a) \<in> set (adapters p)" using assms(2) by (rule map_of_SomeD)
  have d: "distinct (map fst (adapters p))" "distinct (map snd (adapters p))"
    using assms(1) map_ok_distinct by (auto simp: holds_def)
  have "b \<noteq> a" if "(k, b) \<in> set (adapters p)" "k \<noteq> fd" for k b
    using d(2) m that by (metis distinct_map inj_onD prod.inject snd_conv)
  then have "snd ` set (map_erase fd (adapters p)) = snd ` set (adapters p) - {a}"
    using d(1) m by (force simp: map_erase_def dest: eq_key_imp_eq_value)
  moreover have "distinct (map snd (map_erase fd (adapters p)))"
    using d(2) by (simp add: map_erase_def distinct_map_filter)
  ultimately show ?thesis
    using assms(1) by (simp add: holds_def delete_adapter_def smap.inv_erase poll_drop_refs)
qed

text \<open>The poll is a client of the dispatcher as the service model describes it. Whatever a
  ready descriptor makes the poll thread do (accept a connection; read, cut frames and queue them;
  delete a connection that failed), its effect on the dispatcher is a sequence of steps of the
  service, and the poll holds exactly the adapters the service model says it holds.\<close>

lemma poll_refines_service:
  assumes "holds p s" and "event_ok E ev p s" and "on_ready E nowtp ev (p, s) = Some (q, t)"
  shows "(svc_step E)\<^sup>*\<^sup>* s t \<and> holds q t"
proof (cases ev)
  case (Listen acc)
  show ?thesis
  proof (cases acc)
    case None
    with Listen assms show ?thesis by (simp add: on_ready_def do_accept_def)
  next
    case (Some x)
    obtain fd addr a where x: "x = (fd, addr, a)" by (rule prod_cases3)
    with Listen Some assms(2) have ok: "map_of (adapters p) fd = None" "fresh s a" by (simp_all add: event_ok_def)
    from assms(3) Listen Some x ok(1) obtain ad where t: "t = poll_connect a ad s" "info ad = InfoNull"
        "adapters q = map_put fd a (adapters p)"
      by (auto simp: on_ready_def do_accept_def new_adapter_def new_SocketAdapter_def map_insert_None Let_def
          split: if_splits)
    from svc_step.connect [OF ok(2) t(2)] holds_insert [OF assms(1) ok t(3)] show ?thesis
      unfolding t(1) by (blast intro: r_into_rtranclp)
  qed
next
  case (Readable fd rdr)
  show ?thesis
  proof (cases "map_of (adapters p) fd")
    case None
    with Readable assms show ?thesis by (simp add: on_ready_def)
  next
    case (Some a)
    have ar: "a \<in> set (poll_refs s)" using map_of_SomeD [OF Some] assms(1) by (force simp: holds_def)
    from assms(3) Readable Some obtain ok u where r: "do_read E rdr a s = Some (ok, u)"
      by (cases "do_read E rdr a s") (auto simp: on_ready_def)
    from do_read_steps [OF r ar] have st: "(svc_step E)\<^sup>*\<^sup>* s u" "poll_refs u = poll_refs s" by blast+
    define p' where "p' = (if beep p then p\<lparr>active_adapters := touch_active nowtp a ok (active_adapters p)\<rparr> else p)"
    have p': "adapters p' = adapters p" by (simp add: p'_def)
    then have h: "holds p' u" using assms(1) st(2) by (simp add: holds_def)
    have qt: "(q, t) = (if ok then (p', u) else delete_adapter fd a (p', u))"
      using assms(3) Readable Some r unfolding p'_def by (auto simp: on_ready_def Let_def)
    show ?thesis
    proof (cases ok)
      case True
      with qt st h show ?thesis by simp
    next
      case False
      have "svc_step E u (poll_drop a u)"
        using assms(2) Readable Some r False ar st(2) by (intro svc_step.drop) (simp_all add: event_ok_def)
      with qt False st(1) holds_delete [OF h, of fd a] p' Some show ?thesis
        by (auto simp: delete_adapter_def)
    qed
  qed
qed

definition demo_fds :: spoll where
  "demo_fds = (new_poll POLL_TYPE_UNIX False)\<lparr>adapters := [(5, 1)]\<rparr>"

definition demo_event :: ready where
  "demo_event = Readable 5 (RdData [2, 0, 0, 0, 0, 0, 0, 0])"

lemma poll_refines_service_witness:
  "\<exists>q t. on_ready demo_env 0 demo_event (demo_fds, demo_start) = Some (q, t) \<and>
    (svc_step demo_env)\<^sup>*\<^sup>* demo_start t"
proof -
  have "on_ready demo_env 0 demo_event (demo_fds, demo_start) \<noteq> None" by code_simp
  then obtain q t where r: "on_ready demo_env 0 demo_event (demo_fds, demo_start) = Some (q, t)" by fastforce
  have "holds demo_fds demo_start" by code_simp
  moreover have "event_ok demo_env demo_event demo_fds demo_start" by code_simp
  ultimately show ?thesis using poll_refines_service [OF _ _ r] r by blast
qed

end
