(* ===== verification/DispProps.thy ===== *)
theory DispProps
  imports Service
begin

text \<open>
  What each operation of the dispatcher does: who receives what, which entries of the maps
  change, and the result on every branch. Messages are read off the log of the I/O.
\<close>

section \<open>Messages in the log\<close>

fun writes :: "io list \<Rightarrow> (aid \<times> u32 \<times> byte list) list" where
  "writes [] = []"
| "writes (IoWrite a n d r # l) = (a, n, d) # writes l"
| "writes (IoShutdown a # l) = writes l"

lemma writes_append [simp]: "writes (l @ l') = writes l @ writes l'"
  by (induction l rule: writes.induct) simp_all

lemma close_nolock_writes: "writes (snd (close_nolock a ad log)) = writes log"
  by (simp add: close_nolock_def split: option.split)

lemma close_adapter_writes [simp]: "writes (iolog (close_adapter a s)) = writes (iolog s)"
  by (simp add: close_adapter_def adapter_close_def case_prod_beta close_nolock_writes)

text \<open>A write to an open adapter is one message; it may close that adapter and no other.\<close>

lemma write_to_open:
  assumes "\<not> closed (heap s a)"
  shows "writes (iolog (snd (write_to E a m s))) = writes (iolog s) @ [(a, fst m, snd m)]"
proof -
  from assms obtain buf where "buffer (heap s a) = Some buf" by (auto simp: closed_def)
  then show ?thesis
    by (simp add: write_to_def adapter_write_def Let_def case_prod_beta close_nolock_writes
        split: sysret.split)
qed

lemma write_to_closed: "closed (heap s a) \<Longrightarrow> writes (iolog (snd (write_to E a m s))) = writes (iolog s)"
  by (simp add: write_to_def adapter_write_closed)

lemma write_to_other: "b \<noteq> a \<Longrightarrow> heap (snd (write_to E a m s)) b = heap s b"
  by (simp add: write_to_def case_prod_beta)

lemma write_to_writes:
  "writes (iolog (snd (write_to E a m s))) =
     writes (iolog s) @ (if closed (heap s a) then [] else [(a, fst m, snd m)])"
  by (simp add: write_to_open write_to_closed)

section \<open>Posting\<close>

lemma post_loop_delivers:
  assumes "distinct bs" and "\<And>b. b \<in> set bs \<Longrightarrow> alive t b \<and> \<not> closed (heap t b) \<and> deref_info t b \<noteq> None"
  shows "\<exists>t'. iterate (write_post_msg_to E m) bs t = Some t' \<and> quiet t t' \<and>
    writes (iolog t') = writes (iolog t) @ map (\<lambda>b. (b, m)) bs \<and>
    (\<forall>b. b \<notin> set bs \<longrightarrow> heap t' b = heap t b)"
  using assms
proof (induction bs arbitrary: t)
  case (Cons b bs)
  have b: "alive t b" "\<not> closed (heap t b)" "deref_info t b \<noteq> None" using Cons.prems(2) by simp_all
  obtain r u where w: "write_to E b m t = (r, u)" by fastforce
  note q = quiet_write_eq [OF w]
  have "log_timeout r [b] u = Some u"
    using b(3) by (intro log_timeout_ok) (simp add: quiet_simps [OF q] name_or_empty_ok)
  with b w have step: "write_post_msg_to E m b t = Some u" by (simp add: write_post_msg_to_def)
  have oth: "heap u c = heap t c" if "c \<noteq> b" for c using write_to_other [OF that, of E m t] w by simp
  have wr: "writes (iolog u) = writes (iolog t) @ [(b, m)]" using write_to_open [OF b(2), of E m] w by simp
  have "\<exists>t'. iterate (write_post_msg_to E m) bs u = Some t' \<and> quiet u t' \<and>
      writes (iolog t') = writes (iolog u) @ map (\<lambda>b. (b, m)) bs \<and>
      (\<forall>b. b \<notin> set bs \<longrightarrow> heap t' b = heap u b)"
  proof (rule Cons.IH)
    show "distinct bs" using Cons.prems(1) by simp
    fix c assume "c \<in> set bs"
    with Cons.prems have "c \<noteq> b" "alive t c \<and> \<not> closed (heap t c) \<and> deref_info t c \<noteq> None" by auto
    then show "alive u c \<and> \<not> closed (heap u c) \<and> deref_info u c \<noteq> None"
      by (simp add: quiet_simps [OF q] oth)
  qed
  with step wr oth q show ?case by (auto intro: quiet_trans)
qed simp

lemma post_adapters_delivers:
  assumes "distinct bs" and "\<And>b. b \<in> set bs \<Longrightarrow> alive t b \<and> \<not> closed (heap t b) \<and> deref_info t b \<noteq> None"
    and "m = resp_serialize_post (caps E) (Some (c_str name)) type args tg (Some cn) (d_buf_size t) fl"
    and "0 \<le> sint (fst m)"
  shows "\<exists>t'. (if bs = [] then Some t else write_post_msg_to_adapters E name type args tg fl bs cn t) = Some t' \<and>
    quiet t t' \<and> writes (iolog t') = writes (iolog t) @ map (\<lambda>b. (b, m)) bs \<and>
    (\<forall>b. b \<notin> set bs \<longrightarrow> heap t' b = heap t b)"
  using post_loop_delivers [OF assms(1,2), of E m] assms(3,4)
  by (simp add: write_post_msg_to_adapters_def Let_def)

definition subscribers :: "'c disp \<Rightarrow> string \<Rightarrow> aid list" where
  "subscribers s name = (case map_of (subscriptions s) name of None \<Rightarrow> [] | Some as \<Rightarrow> as)"

text \<open>The adapters a message reaches: alive and open, as seen when the message is handled.\<close>

definition live :: "'c disp \<Rightarrow> string \<Rightarrow> aid list" where
  "live s name = filter (\<lambda>b. alive s b \<and> \<not> closed (heap s b)) (subscribers s name)"

definition net_order :: "'c env \<Rightarrow> 'c disp \<Rightarrow> aid \<Rightarrow> bool" where
  "net_order E s b \<longleftrightarrow> serialize_flags (heap s b) = CAPS_FLAG_NET_BYTEORDER (caps E)"

definition post_bytes ::
  "'c env \<Rightarrow> 'c disp \<Rightarrow> aid \<Rightarrow> string \<Rightarrow> string \<Rightarrow> u32 \<Rightarrow> 'c option \<Rightarrow> u32 \<Rightarrow> i32 \<times> byte list" where
  "post_bytes E s a sender_name name type args fl =
     resp_serialize_post (caps E) (Some (c_str name)) type args (tag (heap s a))
       (Some (c_str sender_name)) (d_buf_size s) fl"

lemma post_to_subscribers_delivers:
  assumes i: "disp_inv s"
    and m0: "m0 = post_bytes E s a cn name type args 0" "0 \<le> sint (fst m0)"
    and m1: "m1 = post_bytes E s a cn name type args (CAPS_FLAG_NET_BYTEORDER (caps E))" "0 \<le> sint (fst m1)"
  shows "\<exists>t. post_to_subscribers E name type args (Some a) (c_str cn) s = Some t \<and>
    writes (iolog t) = writes (iolog s) @
      map (\<lambda>b. (b, m0)) (filter (\<lambda>b. \<not> net_order E s b) (live s name)) @
      map (\<lambda>b. (b, m1)) (filter (net_order E s) (live s name)) \<and>
    map_of (subscriptions t) =
      (map_of (subscriptions s)) (name := if live s name = [] then None else Some (live s name)) \<and>
    persist_msgs t = persist_msgs s \<and> quiet s (t\<lparr>subscriptions := subscriptions s\<rparr>)"
proof (cases "map_of (subscriptions s) name")
  case None
  then show ?thesis by (auto simp: post_to_subscribers_def live_def subscribers_def fun_eq_iff)
next
  case (Some as)
  obtain kept nobo bo where sp: "split_adapters E s as = (kept, nobo, bo)" by (rule prod_cases3)
  have kept: "kept = live s name" and nobo: "nobo = filter (\<lambda>b. \<not> net_order E s b) (live s name)"
    and bo: "bo = filter (net_order E s) (live s name)"
    using sp by (auto simp: split_adapters_filter live_def subscribers_def Some net_order_def conj_assoc)
  have dist: "distinct kept"
    using disp_invD(4) [OF i] Some by (simp add: kept live_def subscribers_def subs_ok_def)
  define s1 where "s1 = s\<lparr>subscriptions := map_put name kept (subscriptions s)\<rparr>"
  have ok: "alive s1 b \<and> \<not> closed (heap s1 b) \<and> deref_info s1 b \<noteq> None" if "b \<in> set kept" for b
    using that inv_receivers [OF i Some, of b]
    by (simp add: kept live_def subscribers_def Some s1_def) (simp add: alive_def)
  obtain s2 where s2: "(if nobo = [] then Some s1 else
        write_post_msg_to_adapters E name type args (tag (heap s a)) 0 nobo (c_str cn) s1) = Some s2"
      "quiet s1 s2" "writes (iolog s2) = writes (iolog s1) @ map (\<lambda>b. (b, m0)) nobo"
      "\<forall>b. b \<notin> set nobo \<longrightarrow> heap s2 b = heap s1 b"
    using post_adapters_delivers [of nobo s1 m0 E name type args "tag (heap s a)" "c_str cn" 0]
      dist ok m0 by (auto simp: nobo kept post_bytes_def s1_def)
  have "alive s2 b \<and> \<not> closed (heap s2 b) \<and> deref_info s2 b \<noteq> None" if "b \<in> set bo" for b
    using that ok [of b] s2(4) by (auto simp: bo nobo kept quiet_simps [OF s2(2)])
  then obtain s3 where s3: "(if bo = [] then Some s2 else
        write_post_msg_to_adapters E name type args (tag (heap s a))
          (CAPS_FLAG_NET_BYTEORDER (caps E)) bo (c_str cn) s2) = Some s3"
      "quiet s2 s3" "writes (iolog s3) = writes (iolog s2) @ map (\<lambda>b. (b, m1)) bo"
    using post_adapters_delivers [of bo s2 m1 E name type args "tag (heap s a)" "c_str cn"
        "CAPS_FLAG_NET_BYTEORDER (caps E)"] dist m1
    by (auto simp: bo kept post_bytes_def s1_def quiet_fields [OF s2(2)])
  let ?t = "if kept = [] then s3\<lparr>subscriptions := map_erase name (subscriptions s3)\<rparr> else s3"
  have "post_to_subscribers E name type args (Some a) (c_str cn) s = Some ?t"
    by (simp only: post_to_subscribers_split [OF Some sp] s1_def [symmetric] s2(1) s3(1) Option.bind.simps)
  moreover have "writes (iolog ?t) = writes (iolog s) @ map (\<lambda>b. (b, m0)) nobo @ map (\<lambda>b. (b, m1)) bo"
    using s2(3) s3(3) by (simp add: s1_def)
  moreover have "map_of (subscriptions ?t) =
      (map_of (subscriptions s)) (name := if kept = [] then None else Some kept)"
    by (auto simp: quiet_fields [OF s3(2)] quiet_fields [OF s2(2)] s1_def smap_simps fun_eq_iff)
  moreover have "persist_msgs ?t = persist_msgs s"
    by (simp add: quiet_fields [OF s3(2)] quiet_fields [OF s2(2)] s1_def)
  moreover have "quiet s (?t\<lparr>subscriptions := subscriptions s\<rparr>)"
    using quiet_subs [OF quiet_trans [OF s2(2) s3(2), unfolded s1_def]] by simp
  ultimately show ?thesis unfolding kept nobo bo by blast
qed

text \<open>C5: Delivery of a posted message. When a client posts a valid message, every living, open
  subscriber of its name is sent the message exactly once, in subscription order, those that asked
  for network byte order after the others and each in its byte order; nobody else is sent anything.
  Subscribers that are gone are dropped from the list, an empty list is removed, no other
  subscription changes, and the message is stored if and only if it is a persistent one.\<close>

theorem post_delivers:
  assumes "disp_inv s" and "deref_info s a = Some i" and "is_valid_msgtype type" and "name \<noteq> []"
    and "m0 = post_bytes E s a (ai_name i) name type args 0" and "0 \<le> sint (fst m0)"
    and "m1 = post_bytes E s a (ai_name i) name type args (CAPS_FLAG_NET_BYTEORDER (caps E))"
    and "0 \<le> sint (fst m1)"
  shows "\<exists>t. post_msg E name type args (Some a) s = Some (True, t) \<and>
    writes (iolog t) = writes (iolog s) @
      map (\<lambda>b. (b, m0)) (filter (\<lambda>b. \<not> net_order E s b) (live s name)) @
      map (\<lambda>b. (b, m1)) (filter (net_order E s) (live s name)) \<and>
    map_of (subscriptions t) =
      (map_of (subscriptions s)) (name := if live s name = [] then None else Some (live s name)) \<and>
    map_of (persist_msgs t) = (if type = FLORA_MSGTYPE_PERSIST
      then (map_of (persist_msgs s)) (name \<mapsto> args) else map_of (persist_msgs s))"
proof -
  from post_to_subscribers_delivers [OF assms(1,5-8)] obtain t where
    t: "post_to_subscribers E name type args (Some a) (c_str (ai_name i)) s = Some t"
      "writes (iolog t) = writes (iolog s) @
        map (\<lambda>b. (b, m0)) (filter (\<lambda>b. \<not> net_order E s b) (live s name)) @
        map (\<lambda>b. (b, m1)) (filter (net_order E s) (live s name))"
      "map_of (subscriptions t) =
        (map_of (subscriptions s)) (name := if live s name = [] then None else Some (live s name))"
      "persist_msgs t = persist_msgs s" by blast
  let ?u = "if type = FLORA_MSGTYPE_PERSIST
    then t\<lparr>persist_msgs := map_put name args (persist_msgs t)\<rparr> else t"
  have "post_msg E name type args (Some a) s = Some (True, ?u)"
    using assms(2-4) t(1) by (simp add: post_msg_def)
  moreover have "map_of (persist_msgs ?u) = (if type = FLORA_MSGTYPE_PERSIST
      then (map_of (persist_msgs s)) (name \<mapsto> args) else map_of (persist_msgs s))"
    using t(4) by (auto simp: smap_simps fun_eq_iff)
  ultimately show ?thesis using t(2,3) by auto
qed

theorem post_delivers_witness:
  "\<exists>t. post_msg demo_env ''t'' 1 None (Some 2) demo_ready = Some (True, t) \<and>
    writes (iolog t) = writes (iolog demo_ready) @ [(1, post_bytes demo_env demo_ready 2 ''b'' ''t'' 1 None 0)] \<and>
    map_of (persist_msgs t) ''t'' = Some None"
proof -
  let ?m = "\<lambda>fl. post_bytes demo_env demo_ready 2 ''b'' ''t'' 1 None fl"
  obtain i where i: "deref_info demo_ready 2 = Some i" "ai_name i = ''b''"
  proof
    show "deref_info demo_ready 2 = Some (the (deref_info demo_ready 2))"
      "ai_name (the (deref_info demo_ready 2)) = ''b''" by code_simp+
  qed
  have l: "filter (\<lambda>b. \<not> net_order demo_env demo_ready b) (live demo_ready ''t'') = [1]"
    "filter (net_order demo_env demo_ready) (live demo_ready ''t'') = []" by code_simp+
  have "d_buf_size demo_ready = 32768" by code_simp
  then have "0 \<le> sint (fst (?m fl))" for fl
    by (simp add: post_bytes_def resp_serialize_post_def ser_check_def demo_env_def lite_ops_def Let_def)
  with post_delivers [OF reachable_inv [OF reach_ready] i(1), where type = 1 and name = "''t''"
      and args = None and E = demo_env, OF _ _ refl _ refl] i(2) l
  show ?thesis by (auto simp: is_valid_msgtype_def flora_consts)
qed

section \<open>Subscriptions\<close>

text \<open>The answer a new subscriber gets when a persistent message is stored.\<close>

definition persist_bytes :: "'c env \<Rightarrow> 'c disp \<Rightarrow> aid \<Rightarrow> string \<Rightarrow> 'c option \<Rightarrow> i32 \<times> byte list" where
  "persist_bytes E s a name data =
     resp_serialize_post (caps E) (Some (c_str name)) FLORA_MSGTYPE_PERSIST data 0 (Some [])
       (d_buf_size s) (serialize_flags (heap s a))"

text \<open>C31: Subscribing. A registered client that is not yet subscribed is appended to the
  subscribers of the name and no other list changes; if a persistent message with that name is
  stored, the client, and only it, is sent exactly that message, with tag 0 and no sender name.\<close>

theorem subscribe_new:
  assumes "client_at s a" and "has_info s a" and "req_parse_subscribe (caps E) c = Some name"
    and "name \<noteq> []" and "a \<notin> set (subscribers s name)"
  shows "\<exists>t. handle_subscribe_req E c a s = Some (True, t) \<and>
    map_of (subscriptions t) = (map_of (subscriptions s)) (name \<mapsto> subscribers s name @ [a]) \<and>
    writes (iolog t) = writes (iolog s) @
      (case map_of (persist_msgs s) name of None \<Rightarrow> []
       | Some data \<Rightarrow>
           if 0 < sint (fst (persist_bytes E s a name data)) \<and> \<not> closed (heap s a)
           then [(a, persist_bytes E s a name data)] else [])"
proof -
  note d = client_atD [OF assms(1)]
  obtain i where i: "deref_info s a = Some i" using d(3) assms(2) by blast
  define u where "u = s\<lparr>subscriptions := map_put name (subscribers s name @ [a]) (subscriptions s)\<rparr>"
  let ?as = "subscribers s name"
  have e: "\<not> list_ex (\<lambda>b. alive t b \<and> b = a) ?as" for t :: "'a disp"
    using assms(5) by (auto simp: list_ex_iff)
  have su: "map_of (subscriptions u) = (map_of (subscriptions s)) (name \<mapsto> ?as @ [a])"
    by (simp add: u_def fun_eq_iff smap_simps)
  have pb: "persist_bytes E s a name data = persist_bytes E u a name data" for data
    by (simp add: persist_bytes_def u_def)
  have h: "handle_subscribe_req E c a s = (case map_of (persist_msgs u) name of
        None \<Rightarrow> Some (True, u)
      | Some data \<Rightarrow> if 0 < sint (fst (persist_bytes E u a name data))
          then (let (r, t) = write_to E a (persist_bytes E u a name data) u
                in map_option (Pair True) (log_timeout r [a] t)) else Some (True, u))"
    using assms(2-4) i e
    by (cases "map_of (persist_msgs s) name")
      (simp_all add: handle_subscribe_req_def subscribers_def [symmetric] u_def persist_bytes_def Let_def)
  have w: "(let (r, t) = write_to E a m u in map_option (Pair True) (log_timeout r [a] t)) =
      Some (True, snd (write_to E a m u))" for m
  proof -
    obtain r v where w: "write_to E a m u = (r, v)" by fastforce
    have "log_timeout r [a] v = Some v"
      using i by (intro log_timeout_ok) (simp add: quiet_name [OF quiet_write_eq [OF w]] u_def name_or_empty_def)
    with w show ?thesis by simp
  qed
  have f: "map_of (subscriptions (snd (write_to E a m u))) = map_of (subscriptions u)"
    "iolog u = iolog s" "closed (heap u a) = closed (heap s a)" "persist_msgs u = persist_msgs s" for m
    by (simp_all add: quiet_fields [OF quiet_write] u_def)
  show ?thesis
    unfolding h w by (auto simp: f su pb write_to_writes split: option.split)
qed

text \<open>Subscribing twice. A request of a client that is already subscribed succeeds, sends
  nothing (not even a stored persistent message) and leaves every subscription as it was.\<close>

lemma subscribe_again:
  assumes "client_at s a" and "has_info s a" and "req_parse_subscribe (caps E) c = Some name"
    and "name \<noteq> []" and "a \<in> set (subscribers s name)"
  shows "\<exists>t. handle_subscribe_req E c a s = Some (True, t) \<and>
    map_of (subscriptions t) = map_of (subscriptions s) \<and> iolog t = iolog s"
proof -
  note d = client_atD [OF assms(1)]
  obtain i where i: "deref_info s a = Some i" using d(3) assms(2) by blast
  let ?as = "subscribers s name"
  define t where "t = s\<lparr>subscriptions := map_put name ?as (subscriptions s)\<rparr>"
  have "alive t a" using d(4) by (simp add: t_def alive_def)
  with assms(5) have "list_ex (\<lambda>b. alive t b \<and> b = a) ?as" by (auto simp: list_ex_iff)
  with assms(2-4) i have "handle_subscribe_req E c a s = Some (True, t)"
    by (simp add: handle_subscribe_req_def subscribers_def [symmetric] t_def [symmetric] Let_def)
  moreover have "map_of (subscriptions s) name = Some ?as"
    using assms(5) by (cases "map_of (subscriptions s) name") (simp_all add: subscribers_def)
  then have "map_of (subscriptions t) = map_of (subscriptions s)"
    by (auto simp: t_def fun_eq_iff smap_simps)
  ultimately show ?thesis by (simp add: t_def)
qed

text \<open>Unsubscribing. The client, and whoever no longer exists, leaves the list of the name; an
  empty list is removed; nothing else changes and nothing is sent. A later message with that name
  does not reach the client.\<close>

lemma unsubscribe_effect:
  assumes "client_at s a" and "has_info s a" and "req_parse_unsubscribe (caps E) c = Some name"
    and "name \<noteq> []"
  shows "\<exists>t. handle_unsubscribe_req E c a s = Some (True, t) \<and> iolog t = iolog s \<and>
    subscribers t name = filter (\<lambda>b. alive s b \<and> b \<noteq> a) (subscribers s name) \<and>
    (\<forall>n. n \<noteq> name \<longrightarrow> map_of (subscriptions t) n = map_of (subscriptions s) n) \<and> a \<notin> set (live t name)"
proof -
  note d = client_atD [OF assms(1)]
  obtain i where i: "deref_info s a = Some i" using d(3) assms(2) by blast
  show ?thesis
  proof (cases "map_of (subscriptions s) name")
    case None
    with assms(2-4) i show ?thesis
      by (simp add: handle_unsubscribe_req_def subscribers_def live_def)
  next
    case (Some as)
    let ?as = "filter (\<lambda>b. alive s b \<and> b \<noteq> a) as"
    let ?t = "s\<lparr>subscriptions := (if ?as = [] then map_erase name (subscriptions s)
      else map_put name ?as (subscriptions s))\<rparr>"
    have "handle_unsubscribe_req E c a s = Some (True, ?t)"
      using assms(2-4) i Some by (simp add: handle_unsubscribe_req_def purge_filter Let_def)
    moreover have "subscribers ?t name = ?as" by (simp add: subscribers_def smap_simps)
    ultimately show ?thesis by (auto simp: subscribers_def live_def smap_simps Some)
  qed
qed

text \<open>States for the witnesses: the subscription of client 1 is the next request, and a second one
  when it has been handled.\<close>

lemma client_atI:
  "\<lbrakk>disp_inv s; a \<in> snd ` set (queue s); info (heap s a) = InfoAdapter; deref_info s a \<noteq> None\<rbrakk>
   \<Longrightarrow> client_at s a"
  by (auto simp: client_at_def deref_info_def)

definition demo_sub :: "lite disp" where
  "demo_sub = next_cmd demo_env (next_cmd demo_env demo_two)"

definition demo_again :: "lite disp" where
  "demo_again = take_cmds (snd (put demo_env [5] 2 (snd (put demo_env [2] 1 (clear_cmds demo_ready)))))"

lemma reach_sub: "reachable demo_env demo_sub"
proof -
  have "head_benign demo_env demo_two" "head_benign demo_env (next_cmd demo_env demo_two)" by code_simp+
  then show ?thesis unfolding demo_sub_def by (intro reach_next reach_two)
qed

lemma reach_again: "reachable demo_env demo_again"
proof -
  have e: "pending_cmds demo_ready = []" "1 \<in> set (poll_refs demo_ready)" "2 \<in> set (poll_refs demo_ready)"
    "working demo_ready" by code_simp+
  then have c: "poll_refs (clear_cmds demo_ready) = poll_refs demo_ready"
    "working (clear_cmds demo_ready)" "pending_cmds (clear_cmds demo_ready) = []"
    "done_cmds (clear_cmds demo_ready) = []" by (simp_all add: clear_cmds_def)
  from e have "reachable demo_env (clear_cmds demo_ready)"
    by (intro reachable.step [OF reach_ready svc_step.clear])
  with e c show ?thesis unfolding demo_again_def
    by (intro reachable.step [OF _ svc_step.take_batch] reach_put) simp_all
qed

lemma client_sub: "client_at demo_sub 1"
proof (rule client_atI [OF reachable_inv [OF reach_sub]])
  show "1 \<in> snd ` set (queue demo_sub)" "info (heap demo_sub 1) = InfoAdapter"
    "deref_info demo_sub 1 \<noteq> None" by code_simp+
qed

lemma client_again: "client_at demo_again 1" "client_at demo_again 2"
proof -
  show "client_at demo_again 1"
  proof (rule client_atI [OF reachable_inv [OF reach_again]])
    show "1 \<in> snd ` set (queue demo_again)" "info (heap demo_again 1) = InfoAdapter"
      "deref_info demo_again 1 \<noteq> None" by code_simp+
  qed
  show "client_at demo_again 2"
  proof (rule client_atI [OF reachable_inv [OF reach_again]])
    show "2 \<in> snd ` set (queue demo_again)" "info (heap demo_again 2) = InfoAdapter"
      "deref_info demo_again 2 \<noteq> None" by code_simp+
  qed
qed

theorem subscribe_new_witness:
  "\<exists>t. handle_subscribe_req demo_env [MStr ''t''] 1 demo_sub = Some (True, t) \<and>
    map_of (subscriptions t) ''t'' = Some [1]"
proof -
  have "has_info demo_sub 1" "req_parse_subscribe (caps demo_env) [MStr ''t''] = Some ''t''"
    "subscribers demo_sub ''t'' = []" by code_simp+
  with subscribe_new [OF client_sub this(1,2)] show ?thesis by fastforce
qed

lemma subscribe_again_applies:
  "\<exists>t. handle_subscribe_req demo_env [MStr ''t''] 1 demo_again = Some (True, t) \<and>
    iolog t = iolog demo_again"
proof -
  have "has_info demo_again 1" "req_parse_subscribe (caps demo_env) [MStr ''t''] = Some ''t''"
    "1 \<in> set (subscribers demo_again ''t'')" by code_simp+
  with subscribe_again [OF client_again(1) this(1,2)] show ?thesis by fastforce
qed

lemma unsubscribe_effect_witness:
  "\<exists>t. handle_unsubscribe_req demo_env [MStr ''t''] 1 demo_again = Some (True, t) \<and>
    1 \<notin> set (live t ''t'')"
proof -
  have "has_info demo_again 1" "req_parse_unsubscribe (caps demo_env) [MStr ''t''] = Some ''t''"
    by code_simp+
  with unsubscribe_effect [OF client_again(1) this] show ?thesis by fastforce
qed

end
