(* ===== verification/DispCalls.thy ===== *)
theory DispCalls
  imports DispProps
begin

text \<open>
  Method calls through the dispatcher: routing of calls and replies, and the expiry of calls that
  are not answered in time.
\<close>

section \<open>Calls\<close>

lemma write_and_log:
  assumes "\<And>p. p \<in> set ps \<Longrightarrow> deref_info u p \<noteq> None"
  shows "(let (r, t) = write_to E a m u in map_option f (log_timeout r ps t)) =
    Some (f (snd (write_to E a m u)))"
proof -
  obtain r v where w: "write_to E a m u = (r, v)" by fastforce
  have "log_timeout r ps v = Some v"
    using assms by (intro log_timeout_ok) (simp add: quiet_name [OF quiet_write_eq [OF w]] name_or_empty_ok)
  with w show ?thesis by simp
qed

text \<open>Whom a call reaches: the client registered under the target's name, if it has declared the
  method.\<close>

definition callee :: "'c disp \<Rightarrow> string \<Rightarrow> string \<Rightarrow> aid option" where
  "callee s target name =
     (case map_of (named_adapters s) target of None \<Rightarrow> None
      | Some b \<Rightarrow>
          (case map_of (adapter_infos s) b of None \<Rightarrow> None
           | Some i \<Rightarrow> if has_method name i then Some b else None))"

lemma find_callee_eq: "disp_inv s \<Longrightarrow> find_callee target name s = Some (callee s target name)"
proof (cases "map_of (named_adapters s) target")
  case (Some b)
  assume "disp_inv s"
  then obtain i where "deref_info s b = Some i" "map_of (adapter_infos s) b = Some i"
    using inv_named_info [OF _ Some] by metis
  with Some show ?thesis by (simp add: find_callee_def callee_def)
qed (simp add: find_callee_def callee_def)

definition error_bytes :: "'c env \<Rightarrow> 'c disp \<Rightarrow> aid \<Rightarrow> i32 \<Rightarrow> i32 \<Rightarrow> i32 \<times> byte list" where
  "error_bytes E s a cid err =
     resp_serialize_reply (caps E) cid err None 0 (d_buf_size s) (serialize_flags (heap s a))"

text \<open>C32: A call that cannot be routed, because nobody is registered under the target's name or
  the target has not declared the method, is answered at once: the caller, and nobody else, is sent
  \<open>FLORA_CLI_ENEXISTS\<close> under its own call id, and no call is left pending.\<close>

theorem call_not_found:
  assumes "client_at s a" and "has_info s a"
    and "req_parse_call (caps E) c = Some (name, args, target, cid, timeout)"
    and "callee s target name = None" and "0 \<le> sint (fst (error_bytes E s a cid FLORA_CLI_ENEXISTS))"
  shows "\<exists>t. handle_call_req E tp c a s = Some (True, t) \<and>
    writes (iolog t) = writes (iolog s) @
      (if closed (heap s a) then [] else [(a, error_bytes E s a cid FLORA_CLI_ENEXISTS)]) \<and>
    pending_calls t = pending_calls s \<and> reqseq t = reqseq s"
proof -
  note d = client_atD [OF assms(1)]
  obtain i where i: "deref_info s a = Some i" using d(3) assms(2) by blast
  let ?t = "snd (write_to E a (error_bytes E s a cid FLORA_CLI_ENEXISTS) s)"
  have "handle_call_req E tp c a s = Some (True, ?t)"
    using assms(2,3,5) i find_callee_eq [OF d(1)] assms(4)
      write_and_log [of "[a]" s E a "error_bytes E s a cid FLORA_CLI_ENEXISTS" "Pair True"]
    by (simp add: handle_call_req_def error_bytes_def Let_def)
  then show ?thesis by (simp add: write_to_writes quiet_fields [OF quiet_write])
qed

definition call_bytes ::
  "'c env \<Rightarrow> 'c disp \<Rightarrow> aid \<Rightarrow> string \<Rightarrow> aid \<Rightarrow> string \<Rightarrow> 'c option \<Rightarrow> i32 \<Rightarrow> i32 \<times> byte list" where
  "call_bytes E s a caller b name args sid =
     resp_serialize_call (caps E) (Some (c_str name)) args sid (tag (heap s a)) (Some (c_str caller))
       (d_buf_size s) (serialize_flags (heap s b))"

text \<open>A call that can be routed. The callee, and nobody else, is sent the method's name and
  arguments with the caller's tag and name under a fresh server-side id, one more than the previous;
  the call is queued with that id, the caller's own id, both ends, and a deadline of \<open>timeout\<close>
  milliseconds from now (200 when the request gives 0); the queue stays ordered.\<close>

lemma call_routed:
  assumes "client_at s a" and "deref_info s a = Some i"
    and "req_parse_call (caps E) c = Some (name, args, target, cid, timeout)"
    and "callee s target name = Some b" and "sid = reqseq s + 1"
    and "0 \<le> sint (fst (call_bytes E s a (ai_name i) b name args sid))"
  shows "\<exists>t. handle_call_req E tp c a s = Some (True, t) \<and>
    writes (iolog t) = writes (iolog s) @
      (if closed (heap s b) then [] else [(b, call_bytes E s a (ai_name i) b name args sid)]) \<and>
    reqseq t = sid \<and>
    set (pending_calls t) = insert \<lparr>svrid = sid, cliid = cid, pc_sender = a, pc_target = b,
      discard_tp = tp + (if timeout = 0 then 200 else int (unat timeout)) * 1000000\<rparr>
      (set (pending_calls s)) \<and>
    length (pending_calls t) = Suc (length (pending_calls s)) \<and>
    sorted (map discard_tp (pending_calls t))"
proof -
  note d = client_atD [OF assms(1)]
  have h: "has_info s a" using assms(2) by (auto simp: has_info_def deref_info_def)
  let ?pc = "\<lparr>svrid = sid, cliid = cid, pc_sender = a, pc_target = b,
      discard_tp = tp + (if timeout = 0 then 200 else int (unat timeout)) * 1000000\<rparr>"
  define u where "u = s\<lparr>reqseq := sid, pending_calls := insert_call ?pc (pending_calls s)\<rparr>"
  have u: "add_pending_call tp sid cid a b timeout (s\<lparr>reqseq := sid\<rparr>) = u"
    by (simp add: u_def add_pending_call_def Let_def DEFAULT_CALL_TIMEOUT_def)
  from assms(4) have "map_of (named_adapters s) target = Some b"
    by (auto simp: callee_def split: option.splits if_splits)
  then have b: "deref_info s b \<noteq> None" using inv_named_info [OF d(1)] by (metis option.distinct(1))
  let ?m = "call_bytes E s a (ai_name i) b name args sid"
  have m: "resp_serialize_call (caps E) (Some (c_str name)) args sid (tag (heap u a))
      (Some (c_str (ai_name i))) (d_buf_size u) (serialize_flags (heap u b)) = ?m"
    by (simp add: call_bytes_def u_def)
  have w: "(let (r, t) = write_to E b ?m u in map_option (Pair True) (log_timeout r [a, b] t)) =
      Some (True, snd (write_to E b ?m u))"
    by (rule write_and_log) (use b assms(2) in \<open>auto simp: u_def\<close>)
  have "handle_call_req E tp c a s = Some (True, snd (write_to E b ?m u))"
    using assms(6) by (simp add: handle_call_req_def h assms(2,3,4) find_callee_eq [OF d(1)]
        assms(5) [symmetric] u m w [unfolded Let_def] Let_def)
  moreover have "sorted (map discard_tp (pending_calls u))"
    using disp_invD(5) [OF d(1)] by (simp add: u_def sorted_insert_call calls_ok_def)
  moreover have "length (insert_call pc ps) = Suc (length ps)" for pc ps by (induction ps) auto
  ultimately show ?thesis
    by (simp add: write_to_writes quiet_fields [OF quiet_write] set_insert_call u_def)
qed

text \<open>The witnesses: client 2 calls methods of client 1, which has declared \<open>m\<close>.\<close>

lemma demo_again_buf: "d_buf_size demo_again = 32768"
  by code_simp

lemma demo_serialize:
  "\<not> sz < 8 \<Longrightarrow> ser_check sz (serialize (caps demo_env) sz fl c) = (8, replicate 8 (of_nat (length c)))"
  by (simp add: ser_check_def demo_env_def lite_ops_def)

theorem call_not_found_witness:
  "\<exists>t. handle_call_req demo_env 5 [MStr ''x'', MStr ''a'', MInt 9, MInt 0, MCaps None] 2 demo_again = Some (True, t) \<and>
    writes (iolog t) = writes (iolog demo_again) @ [(2, error_bytes demo_env demo_again 2 9 FLORA_CLI_ENEXISTS)]"
proof -
  have h: "has_info demo_again 2" "req_parse_call (caps demo_env)
      [MStr ''x'', MStr ''a'', MInt 9, MInt 0, MCaps None] = Some (''x'', None, ''a'', 9, 0)"
    "callee demo_again ''a'' ''x'' = None" "\<not> closed (heap demo_again 2)" by code_simp+
  have "0 \<le> sint (fst (error_bytes demo_env demo_again 2 9 FLORA_CLI_ENEXISTS))"
    by (simp add: error_bytes_def resp_serialize_reply_def Let_def demo_serialize demo_again_buf)
  from call_not_found [OF client_again(2) h(1-3) this, of 5] h(4) show ?thesis by auto
qed

lemma call_routed_witness:
  "\<exists>t. handle_call_req demo_env 5 [MStr ''m'', MStr ''a'', MInt 9, MInt 0, MCaps None] 2 demo_again = Some (True, t) \<and>
    writes (iolog t) = writes (iolog demo_again) @
      [(1, call_bytes demo_env demo_again 2 ''b'' 1 ''m'' None (reqseq demo_again + 1))] \<and>
    length (pending_calls t) = Suc (length (pending_calls demo_again))"
proof -
  let ?i = "the (deref_info demo_again 2)"
  have i: "deref_info demo_again 2 = Some ?i" "ai_name ?i = ''b''" by code_simp+
  have h: "req_parse_call (caps demo_env)
      [MStr ''m'', MStr ''a'', MInt 9, MInt 0, MCaps None] = Some (''m'', None, ''a'', 9, 0)"
    "callee demo_again ''a'' ''m'' = Some 1" "\<not> closed (heap demo_again 1)" by code_simp+
  have "0 \<le> sint (fst (call_bytes demo_env demo_again 2 (ai_name ?i) 1 ''m'' None (reqseq demo_again + 1)))"
    by (simp add: call_bytes_def resp_serialize_call_def Let_def demo_serialize demo_again_buf)
  from call_routed [OF client_again(2) i(1) h(1,2) refl this, of 5] h(3) i(2) show ?thesis by auto
qed

section \<open>Replies\<close>

definition reply_bytes ::
  "'c env \<Rightarrow> 'c disp \<Rightarrow> aid \<Rightarrow> string \<Rightarrow> pending_call \<Rightarrow> i32 \<Rightarrow> 'c option \<Rightarrow> i32 \<times> byte list" where
  "reply_bytes E s a replier pc rc data =
     resp_serialize_reply (caps E) (cliid pc) FLORA_CLI_SUCCESS
       (Some \<lparr>ret_code = rc, resp_data = data, resp_extra = replier\<rparr>) (tag (heap s a))
       (d_buf_size s) (serialize_flags (heap s (pc_sender pc)))"

text \<open>A reply reaches its caller. When the callee of a pending call replies with its
  server-side id and the caller is still connected, the caller, and nobody else, is sent the return
  code and the values under the id it chose for the call, with the replier's tag and name; exactly
  this call is removed from the pending ones, the others keep their order.\<close>

lemma reply_routed:
  assumes "client_at s a" and "deref_info s a = Some i"
    and "req_parse_reply (caps E) c = Some (sid, rc, data)"
    and "pending_calls s = before @ pc # after" and "\<forall>p\<in>set before. \<not> matches sid a p"
    and "matches sid a pc" and "\<not> closed (heap s (pc_sender pc))"
    and "0 \<le> sint (fst (reply_bytes E s a (ai_name i) pc rc data))"
  shows "\<exists>t. handle_reply_req E c a s = Some (True, t) \<and>
    writes (iolog t) = writes (iolog s) @ [(pc_sender pc, reply_bytes E s a (ai_name i) pc rc data)] \<and>
    pending_calls t = before @ after"
proof -
  note d = client_atD [OF assms(1)]
  have h: "has_info s a" using assms(2) by (auto simp: has_info_def deref_info_def)
  have dw: "dropWhile (\<lambda>pc. \<not> matches sid a pc) (pending_calls s) = pc # after"
      "takeWhile (\<lambda>pc. \<not> matches sid a pc) (pending_calls s) = before"
    using assms(4-6) by (simp_all add: dropWhile_append3 takeWhile_tail)
  have "has_info s (pc_sender pc)"
    using disp_invD(5) [OF d(1)] assms(4) by (simp add: calls_ok_def has_info_def)
  then have p: "deref_info s (pc_sender pc) \<noteq> None" using inv_open_info [OF d(1) _ assms(7)] by blast
  let ?m = "reply_bytes E s a (ai_name i) pc rc data"
  let ?t = "snd (write_to E (pc_sender pc) ?m s)"
  have w: "(let (r, s') = write_to E (pc_sender pc) ?m s in
      map_option (\<lambda>s. (True, s\<lparr>pending_calls := takeWhile (\<lambda>pc. \<not> matches sid a pc) (pending_calls s) @ after\<rparr>))
        (log_timeout r [a, pc_sender pc] s')) = Some (True, ?t\<lparr>pending_calls := before @ after\<rparr>)"
    by (subst write_and_log) (use p assms(2) dw(2) in \<open>auto simp: quiet_fields [OF quiet_write]\<close>)
  have "handle_reply_req E c a s = Some (True, ?t\<lparr>pending_calls := before @ after\<rparr>)"
    using assms(8) p by (simp add: handle_reply_req_def h assms(2,3,7) dw(1) reply_bytes_def [symmetric]
        w [unfolded Let_def] Let_def)
  then show ?thesis by (simp add: write_to_open [OF assms(7)])
qed

text \<open>A reply nobody waits for is dropped. If no pending call has that server-side id with the
  replier as its callee (the id is unknown, the call has expired or been answered, or another client
  sends the reply), nothing is sent and nothing changes; the replier stays connected.\<close>

lemma reply_unmatched:
  assumes "client_at s a" and "has_info s a"
    and "req_parse_reply (caps E) c = Some (sid, rc, data)"
    and "\<forall>p\<in>set (pending_calls s). \<not> (svrid p = sid \<and> pc_target p = a)"
  shows "handle_reply_req E c a s = Some (True, s)"
proof -
  obtain i where "deref_info s a = Some i" using client_atD(3) [OF assms(1,2)] by blast
  moreover have "dropWhile (\<lambda>pc. \<not> matches sid a pc) (pending_calls s) = []"
    using assms(4) by (simp add: matches_def)
  ultimately show ?thesis using assms(2,3)
    by (simp add: handle_reply_req_def del: dropWhile_eq_Nil_conv)
qed

text \<open>The call of client 2 has been handled and is pending; client 1 has a request queued.\<close>

definition demo_called :: "lite disp" where
  "demo_called = take_cmds (snd (put demo_env [2] 1
     (clear_cmds (next_cmd demo_env (next_cmd demo_env demo_again)))))"

lemma reach_called: "reachable demo_env demo_called"
proof -
  let ?s = "next_cmd demo_env (next_cmd demo_env demo_again)"
  have b: "head_benign demo_env demo_again" "head_benign demo_env (next_cmd demo_env demo_again)"
    by code_simp+
  have e: "pending_cmds ?s = []" "1 \<in> set (poll_refs ?s)" "working ?s" by code_simp+
  then have c: "poll_refs (clear_cmds ?s) = poll_refs ?s" "working (clear_cmds ?s)"
    "pending_cmds (clear_cmds ?s) = []" "done_cmds (clear_cmds ?s) = []"
    by (simp_all add: clear_cmds_def)
  have "reachable demo_env ?s" by (intro reach_next reach_again b)
  then have "reachable demo_env (clear_cmds ?s)" by (rule reachable.step) (rule svc_step.clear [OF e(1)])
  with e c show ?thesis unfolding demo_called_def
    by (intro reachable.step [OF _ svc_step.take_batch] reach_put) simp_all
qed

lemma client_called: "client_at demo_called 1"
proof (rule client_atI [OF reachable_inv [OF reach_called]])
  show "1 \<in> snd ` set (queue demo_called)" "info (heap demo_called 1) = InfoAdapter"
    "deref_info demo_called 1 \<noteq> None" by code_simp+
qed

lemma reply_routed_witness:
  "\<exists>t. handle_reply_req demo_env [MInt 1, MInt 0, MCaps None] 1 demo_called = Some (True, t) \<and>
    pending_calls demo_called \<noteq> [] \<and> pending_calls t = []"
proof -
  let ?i = "the (deref_info demo_called 1)" and ?pc = "hd (pending_calls demo_called)"
  have h: "deref_info demo_called 1 = Some ?i"
      "req_parse_reply (caps demo_env) [MInt 1, MInt 0, MCaps None] = Some (1, 0, None)"
      "pending_calls demo_called = [] @ ?pc # []" "\<forall>p\<in>set []. \<not> matches 1 1 p"
      "matches 1 1 ?pc" "\<not> closed (heap demo_called (pc_sender ?pc))" "d_buf_size demo_called = 32768"
    by code_simp+
  have "0 \<le> sint (fst (reply_bytes demo_env demo_called 1 (ai_name ?i) ?pc 0 None))"
    using h(7) by (simp add: reply_bytes_def resp_serialize_reply_def Let_def demo_serialize)
  from reply_routed [OF client_called h(1-6) this] h(3) show ?thesis by auto
qed

lemma reply_unmatched_witness:
  "handle_reply_req demo_env [MInt 2, MInt 0, MCaps None] 1 demo_called = Some (True, demo_called)"
proof (rule reply_unmatched [OF client_called])
  show "has_info demo_called 1"
    "req_parse_reply (caps demo_env) [MInt 2, MInt 0, MCaps None] = Some (2, 0, None)"
    "\<forall>p\<in>set (pending_calls demo_called). \<not> (svrid p = 2 \<and> pc_target p = 1)" by code_simp+
qed

section \<open>Expiry\<close>

interpretation pending: deadline_queue discard_tp "\<lambda>tp pc. \<not> tp < discard_tp pc"
  by unfold_locales simp

text \<open>A kernel that accepts every write keeps the adapters as they are.\<close>

definition accepts :: "'c env \<Rightarrow> bool" where
  "accepts E \<longleftrightarrow> (\<forall>l b n d. \<exists>k. kern E l b n d = SysRet k)"

lemma write_accepts: "accepts E \<Longrightarrow> heap (snd (write_to E a m s)) = heap s"
  unfolding write_to_def adapter_write_def accepts_def
  by (auto simp: case_prod_beta Let_def fun_eq_iff split: option.split sysret.split)
    (metis sysret.distinct(1))

lemma accepts_no_eagain: "accepts E \<Longrightarrow> kern E l b n d \<noteq> SysErr EAGAIN"
  unfolding accepts_def by (metis sysret.distinct(1))

definition timeout_bytes :: "'c env \<Rightarrow> 'c disp \<Rightarrow> pending_call \<Rightarrow> i32 \<times> byte list" where
  "timeout_bytes E s pc =
     resp_serialize_reply (caps E) (cliid pc) FLORA_CLI_ETIMEOUT None 0 (d_buf_size s)
       (serialize_flags (heap s (pc_sender pc)))"

lemma timeout_step:
  assumes "accepts E"
  shows "pending_call_timeout E pc s = Some (snd (write_to E (pc_sender pc) (timeout_bytes E s pc) s))"
proof -
  obtain r t where w: "write_to E (pc_sender pc) (timeout_bytes E s pc) s = (r, t)" by fastforce
  have "r \<noteq> - 2" using write_timeout_eagain w accepts_no_eagain [OF assms] by metis
  with w show ?thesis by (simp add: pending_call_timeout_def timeout_bytes_def log_timeout_def)
qed

lemma discard_loop_effect:
  assumes "accepts E" and "pending_calls s = pcs"
  shows "\<exists>t. discard_loop E tp pcs s = Some t \<and>
    pending_calls t = dropWhile (\<lambda>pc. \<not> tp < discard_tp pc) pcs \<and>
    writes (iolog t) = writes (iolog s) @
      map (\<lambda>pc. (pc_sender pc, timeout_bytes E s pc))
        (filter (\<lambda>pc. \<not> closed (heap s (pc_sender pc))) (takeWhile (\<lambda>pc. \<not> tp < discard_tp pc) pcs))"
  using assms(2)
proof (induction pcs arbitrary: s)
  case (Cons pc pcs)
  show ?case
  proof (cases "tp < discard_tp pc")
    case False
    define u where "u = (snd (write_to E (pc_sender pc) (timeout_bytes E s pc) s))\<lparr>pending_calls := pcs\<rparr>"
    have f: "heap u = heap s" "pending_calls u = pcs" "d_buf_size u = d_buf_size s"
      by (simp_all add: u_def write_accepts [OF assms(1)] quiet_fields [OF quiet_write])
    have tb: "timeout_bytes E u = timeout_bytes E s" by (simp add: fun_eq_iff timeout_bytes_def f)
    have wu: "writes (iolog u) = writes (iolog s) @
        (if closed (heap s (pc_sender pc)) then [] else [(pc_sender pc, timeout_bytes E s pc)])"
      by (simp add: u_def write_to_writes)
    from Cons.IH [OF f(2)] obtain t where t: "discard_loop E tp pcs u = Some t"
        "pending_calls t = dropWhile (\<lambda>pc. \<not> tp < discard_tp pc) pcs"
        "writes (iolog t) = writes (iolog u) @ map (\<lambda>pc. (pc_sender pc, timeout_bytes E u pc))
          (filter (\<lambda>pc. \<not> closed (heap u (pc_sender pc))) (takeWhile (\<lambda>pc. \<not> tp < discard_tp pc) pcs))"
      by blast
    have "discard_loop E tp (pc # pcs) s = Some t"
      using False t(1) by (simp add: timeout_step [OF assms(1)] u_def)
    with False t(2,3) wu show ?thesis by (auto simp: tb f(1))
  qed (simp add: Cons.prems)
qed simp



end
