(* ===== verification/DispAdmin.thy ===== *)
theory DispAdmin
  imports DispCalls
begin

text \<open>
  Who is registered: authentication on every branch, refusal of requests from clients that have not
  authenticated, erasure of a client, declaration of methods, collection of dead subscriptions, and
  what the monitors are told.
\<close>

section \<open>Messages to several adapters\<close>

lemma iterate_sends:
  assumes "distinct bs"
    and "\<And>b u. b \<in> set bs \<Longrightarrow> quiet t u \<Longrightarrow> f b u = Some (if ok b then snd (write_to E b (m b) u) else u)"
  shows "\<exists>t'. iterate f bs t = Some t' \<and> quiet t t' \<and>
    writes (iolog t') = writes (iolog t) @
      map (\<lambda>b. (b, m b)) (filter (\<lambda>b. ok b \<and> \<not> closed (heap t b)) bs) \<and>
    (\<forall>b. b \<notin> set bs \<longrightarrow> heap t' b = heap t b)"
  using assms
proof (induction bs arbitrary: t)
  case (Cons b bs)
  define u where "u = (if ok b then snd (write_to E b (m b) t) else t)"
  have q: "quiet t u" by (simp add: u_def quiet_write)
  have s: "f b t = Some u" using Cons.prems(2) [of b t] by (simp add: u_def)
  have o: "heap u c = heap t c" if "c \<noteq> b" for c using that by (simp add: u_def write_to_other)
  have w: "writes (iolog u) = writes (iolog t) @ (if ok b \<and> \<not> closed (heap t b) then [(b, m b)] else [])"
    by (simp add: u_def write_to_writes)
  have "\<exists>t'. iterate f bs u = Some t' \<and> quiet u t' \<and>
      writes (iolog t') = writes (iolog u) @
        map (\<lambda>b. (b, m b)) (filter (\<lambda>b. ok b \<and> \<not> closed (heap u b)) bs) \<and>
      (\<forall>b. b \<notin> set bs \<longrightarrow> heap t' b = heap u b)"
  proof (rule Cons.IH)
    fix c v assume "c \<in> set bs" "quiet u v"
    with q show "f c v = Some (if ok c then snd (write_to E c (m c) v) else v)"
      by (intro Cons.prems(2)) (auto intro: quiet_trans)
  qed (use Cons.prems(1) in simp)
  moreover have "filter (\<lambda>b. ok b \<and> \<not> closed (heap u b)) bs = filter (\<lambda>b. ok b \<and> \<not> closed (heap t b)) bs"
  proof (rule filter_cong [OF refl])
    fix x assume "x \<in> set bs"
    with Cons.prems(1) have "x \<noteq> b" by auto
    then show "(ok x \<and> \<not> closed (heap u x)) = (ok x \<and> \<not> closed (heap t x))" by (simp add: o)
  qed
  ultimately show ?case using s q w o by (auto intro: quiet_trans)
qed simp

section \<open>Monitors\<close>

definition added_bytes :: "'c env \<Rightarrow> 'c disp \<Rightarrow> adapter_info \<Rightarrow> aid \<Rightarrow> i32 \<times> byte list" where
  "added_bytes E s i b =
     resp_serialize_monitor_list_add (caps E) i (d_buf_size s) (serialize_flags (heap s b))"

definition removed_bytes :: "'c env \<Rightarrow> 'c disp \<Rightarrow> u32 \<Rightarrow> aid \<Rightarrow> i32 \<times> byte list" where
  "removed_bytes E s iid b =
     resp_serialize_monitor_list_remove (caps E) iid (d_buf_size s) (serialize_flags (heap s b))"

definition open_monitors :: "'c disp \<Rightarrow> aid list" where
  "open_monitors s = filter (\<lambda>b. \<not> closed (heap s b)) (map fst (monitors s))"

lemma monitors_distinct: "disp_inv s \<Longrightarrow> distinct (map fst (monitors s))"
  using map_ok_distinct by (auto simp: disp_inv_def maps_ok_def)

lemma tell_added:
  assumes "disp_inv s" and "deref_info s a = Some i" and "\<And>b. 0 \<le> sint (fst (added_bytes E s i b))"
  shows "\<exists>t. write_monitor_list_add E a s = Some t \<and> quiet s t \<and>
    writes (iolog t) = writes (iolog s) @ map (\<lambda>b. (b, added_bytes E s i b)) (open_monitors s)"
proof -
  have f: "write_monitor_list_add_to E a b u = Some (if True then snd (write_to E b (added_bytes E s i b) u) else u)"
    if "b \<in> set (map fst (monitors s))" "quiet s u" for b u
    using that assms(2) inv_monitor_alive [OF assms(1), of b] assms(3) [of b]
    by (simp add: write_monitor_list_add_to_def quiet_simps [OF that(2)] added_bytes_def Let_def)
  from iterate_sends [of "map fst (monitors s)" s "write_monitor_list_add_to E a" "\<lambda>_. True" E
      "added_bytes E s i", OF monitors_distinct [OF assms(1)] f] show ?thesis
    by (auto simp: write_monitor_list_add_def open_monitors_def)
qed

lemma tell_removed:
  assumes "disp_inv s" and "\<And>b. 0 \<le> sint (fst (removed_bytes E s iid b))"
  shows "\<exists>t. write_monitor_list_remove E iid s = Some t \<and> quiet s t \<and>
    writes (iolog t) = writes (iolog s) @ map (\<lambda>b. (b, removed_bytes E s iid b)) (open_monitors s)"
proof -
  have f: "write_monitor_list_remove_to E iid b u = Some (if True then snd (write_to E b (removed_bytes E s iid b) u) else u)"
    if "b \<in> set (map fst (monitors s))" "quiet s u" for b u
    using that inv_monitor_alive [OF assms(1), of b] assms(2) [of b]
    by (simp add: write_monitor_list_remove_to_def quiet_simps [OF that(2)] removed_bytes_def Let_def)
  from iterate_sends [of "map fst (monitors s)" s "write_monitor_list_remove_to E iid" "\<lambda>_. True" E
      "removed_bytes E s iid", OF monitors_distinct [OF assms(1)] f] show ?thesis
    by (auto simp: write_monitor_list_remove_def open_monitors_def)
qed

section \<open>Authentication\<close>

text \<open>The result of an authentication request.\<close>

definition auth_code :: "'c disp \<Rightarrow> u32 \<Rightarrow> string \<Rightarrow> u32 \<Rightarrow> i32" where
  "auth_code s version extra flags =
     (if version < 3 then FLORA_CLI_EAUTH
      else if is_monitor flags then
        (if d_flags s AND FLORA_DISP_FLAG_MONITOR = 0 then FLORA_CLI_EAUTH else FLORA_CLI_SUCCESS)
      else if extra \<noteq> [] \<and> map_of (named_adapters s) extra \<noteq> None then FLORA_CLI_EDUPID
      else FLORA_CLI_SUCCESS)"

definition auth_bytes :: "'c env \<Rightarrow> 'c disp \<Rightarrow> aid \<Rightarrow> i32 \<Rightarrow> i32 \<times> byte list" where
  "auth_bytes E s a r =
     resp_serialize_auth (caps E) r FLORA_VERSION (d_buf_size s) (serialize_flags (heap s a))"

definition client_info_of :: "'c disp \<Rightarrow> string \<Rightarrow> i32 \<Rightarrow> u32 \<Rightarrow> adapter_info" where
  "client_info_of s extra pid flags =
     \<lparr>ai_id = idseq s + 1, ai_pid = pid, ai_name = extra, declared_methods = {}, ai_flags = flags\<rparr>"

lemma auth_result_code:
  assumes "new_at s a"
  shows "\<exists>t. auth_result E version extra pid flags a s = (auth_code s version extra flags, t) \<and>
    keeps s t \<and> d_buf_size t = d_buf_size s \<and> iolog t = iolog s \<and>
    (\<forall>b. serialize_flags (heap t b) = serialize_flags (heap s b) \<and> closed (heap t b) = closed (heap s b)) \<and>
    (if auth_code s version extra flags \<noteq> FLORA_CLI_SUCCESS
     then adapter_infos t = adapter_infos s \<and> monitors t = monitors s \<and> named_adapters t = named_adapters s
     else if is_monitor flags
     then adapter_infos t = adapter_infos s \<and> named_adapters t = named_adapters s \<and>
       fst ` set (monitors t) = insert a (fst ` set (monitors s))
     else monitors t = monitors s \<and> deref_info t a = Some (client_info_of s extra pid flags) \<and>
       map_of (adapter_infos t) = (map_of (adapter_infos s)) (a \<mapsto> client_info_of s extra pid flags) \<and>
       map_of (named_adapters t) =
         (if extra = [] then map_of (named_adapters s) else (map_of (named_adapters s)) (extra \<mapsto> a)))"
proof -
  define s1 where "s1 = (if tag (heap s a) = 0
    then upd_adapter a (\<lambda>ad. ad\<lparr>tag := tag_create_pid pid\<rparr>) s else s)"
  have n: "new_at s1 a" using assms new_at_tag(1) [OF assms] by (auto simp: s1_def)
  have f: "named_adapters s1 = named_adapters s" "adapter_infos s1 = adapter_infos s"
    "monitors s1 = monitors s" "d_flags s1 = d_flags s" "d_buf_size s1 = d_buf_size s"
    "iolog s1 = iolog s" "idseq s1 = idseq s"
    by (simp_all add: s1_def upd_adapter_def)
  have g: "serialize_flags (heap s1 b) = serialize_flags (heap s b)" "closed (heap s1 b) = closed (heap s b)" for b
    by (simp_all add: s1_def upd_adapter_def closed_def)
  have r: "d_buf_size (register a p nm i m q s1) = d_buf_size s"
    "iolog (register a p nm i m q s1) = iolog s"
    "serialize_flags (heap (register a p nm i m q s1) b) = serialize_flags (heap s b)" for p nm i m q b
    by (simp_all add: register_def upd_adapter_def f g)
  have k: "fst ` set (map_put a x m) = insert a (fst ` set m)" for x :: adapter_info and m
    using map_put_keys [of a x m] by simp
  obtain t where t: "auth_result E version extra pid flags a s = (auth_code s version extra flags, t)"
      "t = (if version < 3 then s else if is_monitor flags
        then (if d_flags s AND FLORA_DISP_FLAG_MONITOR = 0 then s1 else add_monitor E extra flags a s1)
        else snd (add_adapter E extra flags pid a s1))"
    by (auto simp: auth_result_def auth_code_def s1_def [symmetric] Let_def f add_adapter_new [OF n]
        split: prod.split)
  moreover have "keeps s t" using auth_result_ok [OF assms, of E version extra pid flags] t(1) by auto
  moreover have "d_buf_size t = d_buf_size s \<and> iolog t = iolog s \<and>
    (\<forall>b. serialize_flags (heap t b) = serialize_flags (heap s b) \<and> closed (heap t b) = closed (heap s b))"
    using t(2) by (auto simp: add_monitor_new [OF n] add_adapter_new [OF n] r f g)
  moreover have "map_of (adapter_infos s) a = None" by (rule new_at_fresh(1) [OF assms])
  ultimately show ?thesis
    using t(2) k by (auto simp: auth_code_def add_monitor_new [OF n] add_adapter_new [OF n] f
        flora_consts deref_info_def smap_simps client_info_of_def fun_eq_iff)
qed

lemma handle_auth_unfold:
  assumes "req_parse_auth (caps E) c = Some (version, extra, pid, flags)"
    and "auth_result E version extra pid flags a s = (r, t)"
    and "d_buf_size t = d_buf_size s" and "serialize_flags (heap t a) = serialize_flags (heap s a)"
    and "0 \<le> sint (fst (auth_bytes E s a r))"
  shows "handle_auth_req E c a s =
    (let u = snd (write_to E a (auth_bytes E s a r) t) in
     if r = FLORA_CLI_SUCCESS then
       (let v = write_monitor_data E flags a u in
        if is_monitor flags then Some (True, v)
        else map_option (Pair True) (write_monitor_list_add E a v))
     else Some (False, u))"
  using assms by (simp add: handle_auth_req_def auth_bytes_def Let_def)

text \<open>Authentication of a client. A protocol version below 3 is refused with
  \<open>FLORA_CLI_EAUTH\<close> and a name that is in use with \<open>FLORA_CLI_EDUPID\<close>: the client is told, no map
  changes, and the handler's result makes the dispatcher close it. Otherwise the client is told that
  it succeeded, is registered under its address with its pid, name and flags and the next id, under
  its name if it has one, and every open monitor is told of it exactly once.\<close>

lemma auth_client:
  assumes "new_at s a" and "req_parse_auth (caps E) c = Some (version, extra, pid, flags)"
    and "\<not> is_monitor flags" and "r = auth_code s version extra flags"
    and "0 \<le> sint (fst (auth_bytes E s a r))"
    and "\<And>b. 0 \<le> sint (fst (added_bytes E s (client_info_of s extra pid flags) b))"
  shows "\<exists>t. handle_auth_req E c a s = Some (r = FLORA_CLI_SUCCESS, t) \<and>
    writes (iolog t) = writes (iolog s) @
      (if closed (heap s a) then [] else [(a, auth_bytes E s a r)]) @
      (if r = FLORA_CLI_SUCCESS
       then map (\<lambda>b. (b, added_bytes E s (client_info_of s extra pid flags) b)) (open_monitors s) else []) \<and>
    map_of (adapter_infos t) = (if r = FLORA_CLI_SUCCESS
      then (map_of (adapter_infos s)) (a \<mapsto> client_info_of s extra pid flags)
      else map_of (adapter_infos s)) \<and>
    map_of (named_adapters t) = (if r = FLORA_CLI_SUCCESS \<and> extra \<noteq> []
      then (map_of (named_adapters s)) (extra \<mapsto> a) else map_of (named_adapters s)) \<and>
    monitors t = monitors s"
proof -
  let ?i = "client_info_of s extra pid flags"
  obtain t where ar: "auth_result E version extra pid flags a s = (r, t)" and k: "keeps s t"
    and f: "d_buf_size t = d_buf_size s" "iolog t = iolog s"
      "\<And>b. serialize_flags (heap t b) = serialize_flags (heap s b)"
      "\<And>b. closed (heap t b) = closed (heap s b)" "monitors t = monitors s"
    and no: "r \<noteq> FLORA_CLI_SUCCESS \<Longrightarrow> adapter_infos t = adapter_infos s \<and> named_adapters t = named_adapters s"
    and yes: "r = FLORA_CLI_SUCCESS \<Longrightarrow> deref_info t a = Some ?i \<and>
        map_of (adapter_infos t) = (map_of (adapter_infos s)) (a \<mapsto> ?i) \<and>
        map_of (named_adapters t) =
          (if extra = [] then map_of (named_adapters s) else (map_of (named_adapters s)) (extra \<mapsto> a))"
    using auth_result_code [OF assms(1), of E version extra pid flags] assms(3,4)
    by (auto split: if_splits)
  define u where "u = snd (write_to E a (auth_bytes E s a r) t)"
  have q: "quiet t u" unfolding u_def by (rule quiet_write)
  have h: "handle_auth_req E c a s = (if r = FLORA_CLI_SUCCESS
      then map_option (Pair True) (write_monitor_list_add E a u) else Some (False, u))"
    using handle_auth_unfold [OF assms(2) ar f(1) f(3) assms(5)] assms(3)
    by (simp add: u_def [symmetric] write_monitor_data_def Let_def)
  have wu: "writes (iolog u) = writes (iolog s) @ (if closed (heap s a) then [] else [(a, auth_bytes E s a r)])"
    by (simp add: u_def write_to_writes f)
  show ?thesis
  proof (cases "r = FLORA_CLI_SUCCESS")
    case False
    with h no [OF False] wu f(5) show ?thesis by (simp add: quiet_fields [OF q])
  next
    case True
    have a: "a \<notin> set (map fst (monitors s))"
      using new_at_fresh(2) [OF assms(1)] by (simp add: map_of_eq_None_iff)
    have om: "open_monitors u = open_monitors s"
      unfolding open_monitors_def quiet_fields(9) [OF q] f(5)
    proof (rule filter_cong [OF refl])
      fix b assume "b \<in> set (map fst (monitors s))"
      with a have "b \<noteq> a" by blast
      then show "(\<not> closed (heap u b)) = (\<not> closed (heap s b))" by (simp add: u_def write_to_other f)
    qed
    have ab: "added_bytes E u ?i = added_bytes E s ?i"
      by (simp add: fun_eq_iff added_bytes_def quiet_fields [OF q] f)
    have "disp_inv u" by (rule inv_quiet [OF q keeps_inv [OF k]])
    from tell_added [OF this, of a ?i E] yes [OF True] assms(6) obtain v where
      v: "write_monitor_list_add E a u = Some v" "quiet u v"
        "writes (iolog v) = writes (iolog u) @ map (\<lambda>b. (b, added_bytes E s ?i b)) (open_monitors s)"
      by (auto simp: quiet_deref [OF q] om ab)
    with h True wu yes [OF True] f(5) show ?thesis
      by (simp add: quiet_fields [OF q] quiet_fields [OF v(2)])
  qed
qed

text \<open>A client that authenticates in the demonstration.\<close>

lemma new_at_queued: "new_at demo_queued 1"
proof -
  have "\<not> has_info demo_queued 1" "1 \<in> snd ` set (queue demo_queued)" "1 \<in> set (poll_refs demo_queued)"
    by code_simp+
  with reachable_inv [OF reach_queued] show ?thesis by (simp add: new_at_def)
qed

lemma demo_queued_buf: "d_buf_size demo_queued = 32768"
  by code_simp

lemma auth_client_witness:
  "\<exists>t. handle_auth_req demo_env [MInt 4, MStr ''a'', MInt 77, MInt 0] 1 demo_queued = Some (True, t) \<and>
    map_of (named_adapters t) ''a'' = Some 1"
proof -
  have p: "req_parse_auth (caps demo_env) [MInt 4, MStr ''a'', MInt 77, MInt 0] = Some (4, ''a'', 77, 0)"
    "\<not> is_monitor 0" "auth_code demo_queued 4 ''a'' 0 = FLORA_CLI_SUCCESS" by code_simp+
  have "0 \<le> sint (fst (auth_bytes demo_env demo_queued 1 (auth_code demo_queued 4 ''a'' 0)))"
    by (simp add: auth_bytes_def resp_serialize_auth_def Let_def demo_serialize demo_queued_buf)
  moreover have "0 \<le> sint (fst (added_bytes demo_env demo_queued (client_info_of demo_queued ''a'' 77 0) b))" for b
    by (simp add: added_bytes_def resp_serialize_monitor_list_add_def Let_def demo_serialize demo_queued_buf)
  ultimately show ?thesis
    using auth_client [OF new_at_queued p(1,2) refl] p(3) by fastforce
qed

definition list_bytes :: "'c env \<Rightarrow> 'c disp \<Rightarrow> aid \<Rightarrow> i32 \<times> byte list" where
  "list_bytes E s a =
     resp_serialize_monitor_list_all (caps E) (adapter_infos s) (d_buf_size s) (serialize_flags (heap s a))"



section \<open>Requests that are refused\<close>



text \<open>A monitor only listens. Any request of a registered monitor closes its connection and
  has no other effect.\<close>

lemma monitor_request_refused:
  assumes "deref_info s a = Some i" and "is_monitor (ai_flags i)"
  shows "\<exists>t. handle_cmd E tp tp' (Some c) a s = Some t \<and> closed (heap t a) \<and> quiet s t \<and>
    writes (iolog t) = writes (iolog s)"
proof -
  have "has_info s a" using assms(1) by (auto simp: has_info_def deref_info_def)
  then have "handle_cmd E tp tp' (Some c) a s = Some (close_adapter a s)"
    using assms by (simp add: handle_cmd_def)
  moreover have "closed (heap (close_adapter a s) a)"
    by (simp add: close_adapter_def adapter_close_def case_prod_beta)
  ultimately show ?thesis using quiet_close [of s a] by simp
qed

definition demo_mon :: "lite disp" where
  "demo_mon = next_cmd demo_env (take_cmds (snd (put demo_env [6] 1 demo_start)))"

lemma monitor_request_refused_witness:
  "\<exists>t. handle_cmd demo_env 5 6 (Some (subscribe_msg ''t'')) 1 demo_mon = Some t \<and> closed (heap t 1)"
proof -
  have "deref_info demo_mon 1 = Some (the (deref_info demo_mon 1))"
    "is_monitor (ai_flags (the (deref_info demo_mon 1)))" by code_simp+
  from monitor_request_refused [OF this] show ?thesis by blast
qed

section \<open>Erasure\<close>

lemma inv_named_of: "disp_inv s \<Longrightarrow> map_of (named_adapters s) n = Some a \<Longrightarrow> deref_info s a = Some i \<Longrightarrow> ai_name i = n"
  by (metis inv_named_info option.inject)

text \<open>Erasing a client. When the packet that erases a client is handled, the client is no
  longer registered under its address nor under any name, its name is free for the next client
  that authenticates, every open monitor is told its id exactly once, and no other client or monitor
  loses its registration.\<close>

lemma erase_client:
  assumes "disp_inv s" and "deref_info s a = Some i" and "\<not> is_monitor (ai_flags i)"
    and "\<And>b. 0 \<le> sint (fst (removed_bytes E s (ai_id i) b))"
  shows "\<exists>t. handle_cmd E tp tp' None a s = Some t \<and>
    writes (iolog t) = writes (iolog s) @ map (\<lambda>b. (b, removed_bytes E s (ai_id i) b)) (open_monitors s) \<and>
    adapter_infos t = map_erase a (adapter_infos s) \<and>
    (\<forall>n. map_of (named_adapters t) n \<noteq> Some a) \<and> map_of (named_adapters t) (ai_name i) = None \<and>
    (\<forall>n b. n \<noteq> ai_name i \<longrightarrow> map_of (named_adapters s) n = Some b \<longrightarrow> map_of (named_adapters t) n = Some b) \<and>
    monitors t = monitors s"
proof -
  have h: "has_info s a" using assms(2) by (auto simp: has_info_def deref_info_def)
  define s1 where "s1 = (if 0 < length (ai_name i)
    then s\<lparr>named_adapters := map_erase (ai_name i) (named_adapters s)\<rparr> else s)"
  have i1: "disp_inv s1" using assms(1) inv_named_erase [OF assms(1)] by (simp add: s1_def)
  have f1: "open_monitors s1 = open_monitors s" "removed_bytes E s1 = removed_bytes E s"
    "iolog s1 = iolog s" "adapter_infos s1 = adapter_infos s" "monitors s1 = monitors s"
    by (simp_all add: s1_def open_monitors_def removed_bytes_def fun_eq_iff)
  from tell_removed [OF i1, of E "ai_id i"] assms(4) f1 obtain s2 where
    s2: "write_monitor_list_remove E (ai_id i) s1 = Some s2" "quiet s1 s2"
      "writes (iolog s2) = writes (iolog s) @ map (\<lambda>b. (b, removed_bytes E s (ai_id i) b)) (open_monitors s)"
    by auto
  let ?t = "check_subscriptions tp (s2\<lparr>adapter_infos := map_erase a (adapter_infos s2)\<rparr>)"
  have "handle_cmd E tp tp' None a s = Some ?t"
    using h assms(2,3) s2(1) by (simp add: handle_cmd_def do_erase_adapter_def Let_def s1_def)
  moreover have "adapter_infos ?t = map_erase a (adapter_infos s)" by (simp add: quiet_fields [OF s2(2)] f1)
  moreover have n: "named_adapters ?t = named_adapters s1" by (simp add: quiet_fields [OF s2(2)])
  moreover have ne: "map_of (named_adapters s) [] = None"
    using disp_invD(2) [OF assms(1)] unfolding named_ok_def by (cases "map_of (named_adapters s) []") auto
  then have e: "map_of (named_adapters s1) = (map_of (named_adapters s)) (ai_name i := None)"
    by (auto simp: s1_def smap_simps fun_eq_iff)
  moreover have "map_of (named_adapters s1) n \<noteq> Some a" for n
    unfolding e using inv_named_of [OF assms(1) _ assms(2), of n] by auto
  ultimately show ?thesis using s2(3) by (simp add: quiet_fields [OF s2(2)] f1)
qed

lemma erase_client_witness:
  "\<exists>t. handle_cmd demo_env 5 6 None 1 demo_ready = Some t \<and>
    map_of (named_adapters demo_ready) ''a'' = Some 1 \<and> map_of (named_adapters t) ''a'' = None"
proof -
  let ?i = "the (deref_info demo_ready 1)"
  have p: "deref_info demo_ready 1 = Some ?i" "\<not> is_monitor (ai_flags ?i)" "ai_name ?i = ''a''"
    "map_of (named_adapters demo_ready) ''a'' = Some 1" "d_buf_size demo_ready = 32768" by code_simp+
  have "0 \<le> sint (fst (removed_bytes demo_env demo_ready (ai_id ?i) b))" for b
    by (simp add: removed_bytes_def resp_serialize_monitor_list_remove_def Let_def demo_serialize p(5))
  from erase_client [OF reachable_inv [OF reach_ready] p(1,2) this, of 5 6] p(3,4) show ?thesis by auto
qed

section \<open>Dead subscriptions\<close>

text \<open>C35: Collection of dead subscriptions. \<open>check_subscriptions\<close> collects when ten seconds have
  passed since a command was handled, or at the fiftieth erasure since the last collection; then
  every subscription list keeps exactly the adapters that still exist, in order, and a list that
  would be empty is removed. Otherwise the subscriptions stay and the erasure is counted.\<close>

theorem subscriptions_collected:
  assumes "disp_inv s"
  shows "(if 10000000000 \<le> tp - handle_cmd_tp s \<or> 50 \<le> clear_sub_prio s + 1
    then subscribers (check_subscriptions tp s) n = filter (alive s) (subscribers s n) \<and>
      map_of (subscriptions (check_subscriptions tp s)) n \<noteq> Some [] \<and>
      clear_sub_prio (check_subscriptions tp s) = 0
    else subscriptions (check_subscriptions tp s) = subscriptions s \<and>
      clear_sub_prio (check_subscriptions tp s) = clear_sub_prio s + 1)"
proof -
  let ?late = "CLEAR_SUBSCRIPTION_TIME_THRESHOLD \<le> to_seconds (tp - handle_cmd_tp s)"
  have late: "?late \<longleftrightarrow> 10000000000 \<le> tp - handle_cmd_tp s"
    by (auto simp: to_seconds_def CLEAR_SUBSCRIPTION_TIME_THRESHOLD_def)
  have a: "alive (s\<lparr>clear_sub_prio := k\<rparr>) = alive s" for k by (simp add: fun_eq_iff alive_def)
  have mo: "map_ok (subscriptions s)" using assms by (simp add: disp_inv_def maps_ok_def)
  have keys: "map_of (clear_sub_loop u subs) n =
      (case map_of subs n of None \<Rightarrow> None
       | Some as \<Rightarrow> if filter (alive u) as = [] then None else Some (filter (alive u) as))"
    if "distinct (map fst subs)" for u :: "'a disp" and subs
    using that
    by (induction subs) (auto simp: Let_def purge_filter split: option.split, (force dest: map_of_SomeD)+)
  show ?thesis
    using keys [OF map_ok_distinct [OF mo]] unfolding late [symmetric]
    by (auto simp: check_subscriptions_def clear_sub_gabages_def subscribers_def Let_def a
        CLEAR_SUBSCRIPTION_THRESHOLD_def split: option.split)
qed

theorem subscriptions_collected_witness:
  "subscribers (check_subscriptions 20000000000 demo_ready) ''t'' = [1]"
proof -
  have "handle_cmd_tp demo_ready = 0" "filter (alive demo_ready) (subscribers demo_ready ''t'') = [1]"
    by code_simp+
  with subscriptions_collected [OF reachable_inv [OF reach_ready], of 20000000000 "''t''"] show ?thesis
    by simp
qed

section \<open>Declared methods\<close>

lemma callee_set_info:
  assumes "client_at s a" and "deref_info s a = Some i" and "ai_name i' = ai_name i"
  shows "callee (set_info a i' s) n m =
    (if map_of (named_adapters s) n = Some a then (if has_method m i' then Some a else None)
     else callee s n m)"
proof -
  have h: "has_info s a" using assms(2) by (auto simp: has_info_def deref_info_def)
  have "info (heap s a) = InfoAdapter" by (rule client_atD(2) [OF assms(1) h])
  then show ?thesis
    by (auto simp: callee_def set_info_def smap_simps split: option.split)
qed

text \<open>Declaring a method. A registered client that declares a method becomes the callee of
  that method under its registered name; no other call is routed differently and nothing is sent.
  The handler reports failure, on which the dispatcher closes the client, exactly when the method
  had been declared already.\<close>

lemma declare_makes_callable:
  assumes "client_at s a" and "deref_info s a = Some i"
    and "req_parse_declare_method (caps E) c = Some m" and "m \<noteq> []"
    and "map_of (named_adapters s) n = Some a"
  shows "\<exists>t. handle_declare_method E c a s = Some (m \<notin> declared_methods i, t) \<and>
    callee t n m = Some a \<and> iolog t = iolog s \<and>
    (\<forall>n' m'. (n', m') \<noteq> (n, m) \<longrightarrow> callee t n' m' = callee s n' m')"
proof -
  have h: "has_info s a" using assms(2) by (auto simp: has_info_def deref_info_def)
  let ?i = "snd (declare_method m i)"
  have e: "handle_declare_method E c a s = Some (m \<notin> declared_methods i, set_info a ?i s)"
    using h assms(2-4) by (simp add: handle_declare_method_def declare_method_def)
  have c: "callee (set_info a ?i s) n' m' = (if map_of (named_adapters s) n' = Some a
      then (if has_method m' ?i then Some a else None) else callee s n' m')" for n' m'
    by (rule callee_set_info [OF assms(1,2)]) (simp add: declare_method_def)
  have i: "map_of (adapter_infos s) a = Some i"
    using client_atD(2,3) [OF assms(1) h] assms(2) by auto
  have u: "n' = n" if "map_of (named_adapters s) n' = Some a" for n'
    using inv_named_of [OF client_atD(1) [OF assms(1)] _ assms(2)] that assms(5) by metis
  have "callee (set_info a ?i s) n' m' = callee s n' m'" if "(n', m') \<noteq> (n, m)" for n' m'
  proof (cases "map_of (named_adapters s) n' = Some a")
    case True
    with u that have "m' \<noteq> m" by blast
    with True i show ?thesis unfolding c
      by (simp add: callee_def has_method_def declare_method_def)
  qed (simp add: c)
  moreover have "iolog (set_info a ?i s) = iolog s" by (simp add: set_info_def split: info_ptr.split)
  ultimately show ?thesis using e c assms(5) by (simp add: has_method_def declare_method_def)
qed

lemma declare_makes_callable_witness:
  "\<exists>t. handle_declare_method demo_env [MStr ''z''] 1 demo_again = Some (True, t) \<and>
    callee t ''a'' ''z'' = Some 1"
proof -
  let ?i = "the (deref_info demo_again 1)"
  have "deref_info demo_again 1 = Some ?i"
    "req_parse_declare_method (caps demo_env) [MStr ''z''] = Some ''z''" "''z'' \<noteq> []"
    "map_of (named_adapters demo_again) ''a'' = Some 1" by code_simp+
  from declare_makes_callable [OF client_again(1) this]
  have "\<exists>t. handle_declare_method demo_env [MStr ''z''] 1 demo_again =
      Some (''z'' \<notin> declared_methods ?i, t) \<and> callee t ''a'' ''z'' = Some 1" by blast
  moreover have "''z'' \<notin> declared_methods ?i" by code_simp
  ultimately show ?thesis by simp
qed

text \<open>Removing a method. Afterwards a call of that method of the client finds no callee; no
  other call is routed differently and nothing is sent.\<close>

lemma remove_makes_uncallable:
  assumes "client_at s a" and "deref_info s a = Some i"
    and "req_parse_remove_method (caps E) c = Some m" and "m \<noteq> []"
    and "map_of (named_adapters s) n = Some a"
  shows "\<exists>t. handle_remove_method E c a s = Some (True, t) \<and> callee t n m = None \<and> iolog t = iolog s \<and>
    (\<forall>n' m'. (n', m') \<noteq> (n, m) \<longrightarrow> callee t n' m' = callee s n' m')"
proof -
  have h: "has_info s a" using assms(2) by (auto simp: has_info_def deref_info_def)
  let ?i = "remove_method m i"
  have e: "handle_remove_method E c a s = Some (True, set_info a ?i s)"
    using h assms(2-4) by (simp add: handle_remove_method_def)
  have c: "callee (set_info a ?i s) n' m' = (if map_of (named_adapters s) n' = Some a
      then (if has_method m' ?i then Some a else None) else callee s n' m')" for n' m'
    by (rule callee_set_info [OF assms(1,2)]) (simp add: remove_method_def)
  have i: "map_of (adapter_infos s) a = Some i"
    using client_atD(2,3) [OF assms(1) h] assms(2) by auto
  have u: "n' = n" if "map_of (named_adapters s) n' = Some a" for n'
    using inv_named_of [OF client_atD(1) [OF assms(1)] _ assms(2)] that assms(5) by metis
  have "callee (set_info a ?i s) n' m' = callee s n' m'" if "(n', m') \<noteq> (n, m)" for n' m'
  proof (cases "map_of (named_adapters s) n' = Some a")
    case True
    with u that have "m' \<noteq> m" by blast
    with True i show ?thesis unfolding c
      by (simp add: callee_def has_method_def remove_method_def)
  qed (simp add: c)
  moreover have "iolog (set_info a ?i s) = iolog s" by (simp add: set_info_def split: info_ptr.split)
  ultimately show ?thesis using e c assms(5) by (simp add: has_method_def remove_method_def)
qed

lemma remove_makes_uncallable_witness:
  "\<exists>t. handle_remove_method demo_env [MStr ''m''] 1 demo_again = Some (True, t) \<and>
    callee demo_again ''a'' ''m'' = Some 1 \<and> callee t ''a'' ''m'' = None"
proof -
  let ?i = "the (deref_info demo_again 1)"
  have "deref_info demo_again 1 = Some ?i"
    "req_parse_remove_method (caps demo_env) [MStr ''m''] = Some ''m''" "''m'' \<noteq> []"
    "map_of (named_adapters demo_again) ''a'' = Some 1" by code_simp+
  from remove_makes_uncallable [OF client_again(1) this]
  have "\<exists>t. handle_remove_method demo_env [MStr ''m''] 1 demo_again = Some (True, t) \<and>
      callee t ''a'' ''m'' = None" by blast
  moreover have "callee demo_again ''a'' ''m'' = Some 1" by code_simp
  ultimately show ?thesis by blast
qed

end
