(* ===== verification/Defects.thy ===== *)
theory Defects
  imports SockPoll DispAdmin
begin

text \<open>
  Where the conditions of the safety theorems come from: runs of the code outside them. Each state
  is built with the operations of the model from a fresh dispatcher; the theorem evaluates the step
  that goes wrong.
\<close>

definition run_batch :: "nat \<Rightarrow> lite disp \<Rightarrow> lite disp" where
  "run_batch n s = clear_cmds ((next_cmd demo_env ^^ n) (take_cmds s))"

definition recv :: "byte \<Rightarrow> aid \<Rightarrow> lite disp \<Rightarrow> lite disp" where
  "recv b a s = snd (put demo_env [b] a s)"

section \<open>Negative command words\<close>



section \<open>A client that authenticates twice\<close>

definition demo_stale :: "lite disp" where
  "demo_stale =
     (next_cmd demo_env ^^ 2) (take_cmds
       (recv 7 2 (recv 0 2 (poll_drop 1
         (run_batch 2 (recv 1 1 (recv 0 1 (poll_connect 2 demo_ad demo_start))))))))"

text \<open>Authenticating twice. Client 1 authenticates as ''a'' and then as ''b'' on the same
  connection, and disconnects: its info is erased and the name ''a'' freed, but ''b'' still leads to
  it. When another client then calls a method of ''b'', the dispatcher follows the dangling info
  pointer.\<close>

lemma second_name_dangles:
  "map_of (named_adapters demo_stale) ''b'' = Some 1 \<and> map_of (adapter_infos demo_stale) 1 = None \<and>
   step_cmd demo_env 0 0 demo_stale = None"
  by (intro conjI; code_simp)

section \<open>A monitor that leaves too early\<close>

definition demo_dead_monitor :: "lite disp" where
  "demo_dead_monitor =
     take_cmds (recv 0 2 (poll_connect 2 demo_ad (run_batch 1 (poll_drop 1 (recv 6 1 demo_start)))))"

text \<open>A monitor that leaves too early. A monitor's connection closes after its authentication
  request has been queued and before the dispatcher handles it: \<open>erase_adapter\<close> does nothing since
  \<open>info\<close> is still null, and the request then registers an adapter that ceases to exist. The next
  client that authenticates makes the dispatcher write through the pointer to it.\<close>

lemma early_monitor_dangles:
  "1 \<in> fst ` set (monitors demo_dead_monitor) \<and> \<not> alive demo_dead_monitor 1 \<and>
   step_cmd demo_env 0 0 demo_dead_monitor = None"
  by (intro conjI; code_simp)

section \<open>A call that expires after its callee has gone\<close>

definition busy_env :: "lite env" where
  "busy_env = demo_env\<lparr>kern := (\<lambda>l a n d. SysErr EAGAIN)\<rparr>"

definition demo_orphan :: "lite disp" where
  "demo_orphan = run_batch 1 (poll_drop 1 (run_batch 2 demo_again))"

text \<open>A call that expires after its callee has gone. The callee of a pending call disconnects and
  is erased; when the call expires and the write of the \<open>FLORA_CLI_ETIMEOUT\<close> reply to the caller itself
  times out, the log message follows the callee's dangling info pointer.\<close>

lemma orphan_call_dangles:
  "map pc_target (pending_calls demo_orphan) = [1] \<and> name_or_empty demo_orphan 1 = None \<and>
   discard_pending_calls busy_env 400000000 demo_orphan = None"
  by (intro conjI; code_simp)

section \<open>A monitor with a client's name\<close>

definition demo_steal :: "lite disp" where
  "demo_steal =
     run_batch 1 (poll_drop 2 (run_batch 3 (recv 4 1 (recv 8 2 (recv 0 1
       (poll_connect 2 demo_ad demo_start))))))"

text \<open>A monitor with a client's name. Monitors are not registered by name, but erasing one
  removes the registration of its name all the same: after a monitor called ''a'' has come and gone,
  the client ''a'', which is still connected and has declared the method ''m'', can no longer be
  called, and its name is free for somebody else.\<close>

lemma monitor_takes_name:
  "map_option ai_name (deref_info demo_steal 1) = Some ''a'' \<and> 1 \<in> set (poll_refs demo_steal) \<and>
   map_option (has_method ''m'') (deref_info demo_steal 1) = Some True \<and>
   callee demo_steal ''a'' ''m'' = None \<and> auth_code demo_steal 4 ''a'' 0 = FLORA_CLI_SUCCESS"
  by (intro conjI; code_simp)

end
