(* ===== verification/SockConn.thy ===== *)
theory SockConn
  imports Adapter
begin

text \<open>
  The client's side of a connection: the abstract class \<open>Connection\<close> (\<open>src/conn.h\<close>) and its
  implementation \<open>SocketConn\<close> (\<open>src/sock-conn.h\<close>, \<open>src/sock-conn.cc\<close>). What the system calls
  return is an argument or, for \<open>::write\<close>, a function of the socket's history; the history itself
  is recorded in \<open>conn_io\<close>.
\<close>

section \<open>State\<close>

datatype sock_op =
    OpRcvTimeo u32 u32  \<comment> \<open>\<open>SO_RCVTIMEO\<close>: seconds, microseconds\<close>
  | OpConnectUnix string
  | OpConnectTcp u32 u16  \<comment> \<open>address and port as passed to \<open>::connect\<close>\<close>
  | OpClose
  | OpWrite u32 "byte list" sysret
  | OpShutdown

record conn =
  sock :: int
  recv_timeout :: u32
  sock_ready :: bool
  conn_io :: "sock_op list"

type_synonym wkernel = "sock_op list \<Rightarrow> u32 \<Rightarrow> byte list \<Rightarrow> sysret"

definition new_SocketConn :: "u32 \<Rightarrow> conn" where
  "new_SocketConn rtmo = \<lparr>sock = - 1, recv_timeout = rtmo, sock_ready = False, conn_io = []\<rparr>"

definition conn_log :: "sock_op \<Rightarrow> conn \<Rightarrow> conn" where
  "conn_log op c = c\<lparr>conn_io := conn_io c @ [op]\<rparr>"

text \<open>The destructor closes the socket; \<open>close\<close> below only shuts it down.\<close>

definition delete_SocketConn :: "conn \<Rightarrow> conn" where
  "delete_SocketConn c = (if 0 \<le> sock c then conn_log OpClose c else c)"

section \<open>Connecting\<close>

text \<open>The receive timeout, set when it is positive.\<close>

definition set_recv_timeout :: "conn \<Rightarrow> conn" where
  "set_recv_timeout c =
     (if 0 < recv_timeout c
      then conn_log (OpRcvTimeo (recv_timeout c div 1000) ((recv_timeout c mod 1000) * 1000)) c
      else c)"

text \<open>\<open>connect(name)\<close>: \<open>fd\<close> is what \<open>socket\<close> returned, \<open>reach\<close> whether \<open>::connect\<close> succeeds. The
  name is copied into \<open>sun_path\<close>, an array of 108 characters, without a check: a name that does
  not fit with its terminating NUL overflows it, which is \<open>None\<close>.\<close>

definition SUN_PATH_SIZE :: nat where [flora_consts]: "SUN_PATH_SIZE = 108"

definition connect_unix :: "int \<Rightarrow> bool \<Rightarrow> string \<Rightarrow> conn \<Rightarrow> (bool \<times> conn) option" where
  "connect_unix fd reach name c =
     (if fd < 0 then Some (False, c)
      else
        (let c = set_recv_timeout c in
         if SUN_PATH_SIZE \<le> length (c_str name) then None
         else
           (let c = conn_log (OpConnectUnix (c_str name)) c in
            if \<not> reach then Some (False, conn_log OpClose c)
            else Some (True, c\<lparr>sock := fd, sock_ready := True\<rparr>))))"

text \<open>\<open>connect(host, port)\<close>: \<open>dns\<close> is the first address \<open>gethostbyname\<close> found; \<open>htons\<close> takes the
  low half of the port.\<close>

definition connect_tcp :: "int \<Rightarrow> u32 option \<Rightarrow> bool \<Rightarrow> i32 \<Rightarrow> conn \<Rightarrow> bool \<times> conn" where
  "connect_tcp fd dns reach port c =
     (if fd < 0 then (False, c)
      else
        (let c = set_recv_timeout c in
         case dns of
           None \<Rightarrow> (False, conn_log OpClose c)
         | Some addr \<Rightarrow>
             (let c = conn_log (OpConnectTcp addr (htons (ucast port))) c in
              if \<not> reach then (False, conn_log OpClose c)
              else (True, c\<lparr>sock := fd, sock_ready := True\<rparr>))))"

section \<open>Sending, receiving, closing\<close>

definition conn_send :: "wkernel \<Rightarrow> u32 \<Rightarrow> byte list \<Rightarrow> conn \<Rightarrow> bool \<times> conn" where
  "conn_send W sz data c =
     (if \<not> sock_ready c then (False, c)
      else
        (let r = W (conn_io c) sz data; c = conn_log (OpWrite sz data r) c in
         case r of SysErr e \<Rightarrow> (False, c) | SysRet n \<Rightarrow> (n \<noteq> 0, c)))"

text \<open>\<open>recv\<close> repeats an interrupted \<open>::read\<close>: the argument lists what the calls return, one after
  the other; \<open>None\<close> is a call that has not returned. The result is the code (the number of bytes
  read, -1 for an error, -2 for a timeout) with the bytes.\<close>

datatype read_out = RoData "byte list" | RoErr errno

fun read_loop :: "read_out list \<Rightarrow> (i32 \<times> byte list) option" where
  "read_loop [] = None"
| "read_loop (RoData bs # outs) = Some (word_of_nat (length bs), bs)"
| "read_loop (RoErr e # outs) =
     (if e = EAGAIN then Some (- 2, [])
      else if e = EINTR then read_loop outs
      else Some (- 1, []))"

definition conn_recv :: "read_out list \<Rightarrow> conn \<Rightarrow> (i32 \<times> byte list) option" where
  "conn_recv outs c = (if \<not> sock_ready c then Some (- 1, []) else read_loop outs)"

definition conn_close :: "conn \<Rightarrow> conn" where
  "conn_close c = (if sock_ready c then conn_log OpShutdown (c\<lparr>sock_ready := False\<rparr>) else c)"

definition conn_closed :: "conn \<Rightarrow> bool" where
  "conn_closed c \<longleftrightarrow> \<not> sock_ready c"

definition conn_get_socket :: "conn \<Rightarrow> int" where
  "conn_get_socket c = sock c"

section \<open>The contract\<close>

lemma conn_send_closed: "conn_closed c \<Longrightarrow> conn_send W sz data c = (False, c)"
  by (simp add: conn_send_def conn_closed_def)

lemma conn_send_ready [simp]: "conn_closed (snd (conn_send W sz data c)) = conn_closed c"
  by (simp add: conn_send_def conn_closed_def conn_log_def Let_def split: sysret.split)

lemma conn_close_closed [simp]: "conn_closed (conn_close c)"
  by (simp add: conn_close_def conn_closed_def conn_log_def)

lemma conn_close_noop: "conn_closed c \<Longrightarrow> conn_close c = c"
  by (simp add: conn_close_def conn_closed_def)

lemma conn_send_grows: "\<exists>es. conn_io (snd (conn_send W sz data c)) = conn_io c @ es"
  by (simp add: conn_send_def conn_log_def Let_def split: sysret.split)

interpretation sconn: closable conn_closed conn_close "\<lambda>(sz, data) c. snd (conn_send W sz data c)" conn_io
  for W
  by unfold_locales
    (auto simp: conn_close_noop conn_send_closed conn_send_grows)

lemma read_loop_returns:
  "\<exists>out \<in> set outs. out \<noteq> RoErr EINTR \<Longrightarrow> \<exists>r. read_loop outs = Some r"
  by (induction outs rule: read_loop.induct) auto

end
