(* ===== verification/Client.thy ===== *)
theory Client
  imports SerHelper SockConn Framing
begin

text \<open>
  The client library (\<open>src/cli.h\<close>, \<open>src/cli.cc\<close>): the state of a \<open>flora::internal::Client\<close>, its
  operations, the handling of what the service sends, and the \<open>ReplyImpl\<close> objects handed to the
  application. A client has two threads of its own, one that receives and one that pings; an
  operation that blocks (\<open>auth\<close>, the synchronous \<open>call\<close>) is split where it waits, so that what the
  receiving thread does meanwhile can be placed in between. The outer \<open>None\<close> of an operation is
  undefined behaviour or an uncaught exception: a null \<open>connection\<close> or \<open>auth_result\<close> that is
  followed, a reply written to a \<open>Response\<close> that no longer exists, an empty \<open>std::function\<close> that is
  called. What the application is told is recorded in order in \<open>upcalls\<close>.
\<close>

section \<open>State\<close>

definition FLORA_CALL_RETCODE_NORESP :: i32 where
  [flora_consts]: "FLORA_CALL_RETCODE_NORESP = - 2000000000"
definition FLORA_CLI_DEFAULT_BEEP_INTERVAL :: u32 where
  [flora_consts]: "FLORA_CLI_DEFAULT_BEEP_INTERVAL = 50000"
definition FLORA_CLI_DEFAULT_NORESP_TIMEOUT :: u32 where
  [flora_consts]: "FLORA_CLI_DEFAULT_NORESP_TIMEOUT = 100000"

record client_options =
  bufsize :: u32
  opt_flags :: u32
  beep_interval :: u32
  noresp_timeout :: u32

definition default_options :: client_options where
  "default_options = \<lparr>bufsize = 0, opt_flags = 0, beep_interval = FLORA_CLI_DEFAULT_BEEP_INTERVAL,
     noresp_timeout = FLORA_CLI_DEFAULT_NORESP_TIMEOUT\<rparr>"

text \<open>\<open>pr_node\<close> is the address of the list node, what an iterator holds; \<open>pr_result\<close> is the address
  of the caller's \<open>Response\<close>, \<open>None\<close> for an asynchronous call; \<open>pr_callback\<close> is \<open>None\<close> for an empty
  \<open>std::function\<close>.\<close>

record pending_request =
  pr_node :: nat
  pr_id :: i32
  pr_rcode :: i32
  pr_result :: "nat option"
  pr_callback :: "nat option"

text \<open>\<open>ReplyImpl\<close>; \<open>rp_client\<close> tells whether its client pointer is set.\<close>

record 'c reply_impl =
  rp_client :: bool
  rp_ret_code :: i32
  rp_data :: "'c option"
  rp_callid :: i32

datatype 'c upcall =
    UpPost string u32 "'c option" u64 string  \<comment> \<open>with \<open>MsgSender::tag\<close> and \<open>MsgSender::name\<close>\<close>
  | UpCall string "'c option" u64 string "'c reply_impl"
  | UpResp nat i32 "'c response"
  | UpDisconnected
  | MonListAll "monitor_list_item list"
  | MonListAdd monitor_list_item
  | MonListRemove u32
  | MonSubAll | MonSubAdd | MonSubRemove | MonDeclAll | MonDeclAdd | MonDeclRemove
  | MonPost | MonCall
  | MonDisconnected

datatype handler = BeforeAuth | AfterAuth

text \<open>\<open>auth_result\<close> tells whether the pointer is set; \<open>ares_result\<close> and \<open>ares_notified\<close> are the object
  on the stack of \<open>auth\<close> it points to. \<open>weak_ptr\<close> tells whether \<open>this_weak_ptr.lock()\<close> succeeds.
  \<open>responses\<close> are the \<open>Response\<close> objects of the callers of \<open>call\<close>, \<open>live_resps\<close> those that exist.
  \<open>recv_on\<close> and \<open>keepalive_on\<close>: the two threads run. \<open>next_node\<close> is the next fresh node address.\<close>

record 'c client =
  rbuffer :: "byte list"
  rbuf_off :: u32
  options :: client_options
  connection :: "conn option"
  pending_requests :: "pending_request list"
  cl_reqseq :: i32
  cl_serialize_flags :: u32
  close_reason :: i32
  weak_ptr :: bool
  mon_callback :: bool
  cli_callback :: bool
  cmd_handler :: handler
  auth_result_set :: bool
  ares_result :: i32
  ares_notified :: bool
  auth_extra :: string
  cl_tag :: u64
  sender_name :: string
  recv_on :: bool
  keepalive_on :: bool
  responses :: "nat \<Rightarrow> 'c response"
  live_resps :: "nat set"
  next_node :: nat
  upcalls :: "'c upcall list"

record uri =
  u_scheme :: string
  u_path :: string
  u_host :: string
  u_port :: i32
  u_fragment :: string

text \<open>What a client runs with: the Caps library, the URI parser, the kernel's answers to \<open>::write\<close>,
  the process id, and the value an unassigned \<open>ret_code\<close> happens to have.\<close>

record 'c cenv =
  ccaps :: "'c caps_ops"
  uri_parse :: "string \<Rightarrow> uri option"
  cwrite :: wkernel
  getpid :: i32
  cjunk :: i32

definition new_Client :: "client_options \<Rightarrow> 'c client" where
  "new_Client opts =
     \<lparr>rbuffer = replicate (unat (bufsize opts)) 0, rbuf_off = 0, options = opts, connection = None,
      pending_requests = [], cl_reqseq = 0, cl_serialize_flags = 0, close_reason = 0, weak_ptr = False,
      mon_callback = False, cli_callback = False, cmd_handler = BeforeAuth, auth_result_set = False,
      ares_result = FLORA_CLI_EAUTH, ares_notified = False, auth_extra = [], cl_tag = 0,
      sender_name = [], recv_on = False, keepalive_on = False,
      responses = (\<lambda>_. \<lparr>ret_code = 0, resp_data = None, resp_extra = []\<rparr>), live_resps = {},
      next_node = 0, upcalls = []\<rparr>"

definition emit :: "'c upcall \<Rightarrow> 'c client \<Rightarrow> 'c client" where
  "emit u s = s\<lparr>upcalls := upcalls s @ [u]\<rparr>"

definition undef_response :: "'c cenv \<Rightarrow> 'c response" where
  "undef_response E = \<lparr>ret_code = cjunk E, resp_data = None, resp_extra = []\<rparr>"

section \<open>Sending\<close>

text \<open>\<open>connection->send(sbuffer, c)\<close> after a serialiser put \<open>c\<close> bytes into the buffer.\<close>

definition send_buffer :: "'c cenv \<Rightarrow> i32 \<times> byte list \<Rightarrow> 'c client \<Rightarrow> (bool \<times> 'c client) option" where
  "send_buffer E m s =
     (case connection s of
        None \<Rightarrow> None
      | Some c \<Rightarrow>
          (let (ok, c) = conn_send (cwrite E) (fst m) (snd m) c in Some (ok, s\<lparr>connection := Some c\<rparr>)))"

text \<open>The tail the plain requests share: nothing is sent if serialising failed.\<close>

definition send_request :: "'c cenv \<Rightarrow> i32 \<times> byte list \<Rightarrow> 'c client \<Rightarrow> (i32 \<times> 'c client) option" where
  "send_request E m s =
     (if sint (fst m) \<le> 0 then Some (FLORA_CLI_EINVAL, s)
      else
        map_option (\<lambda>(ok, s). (if ok then FLORA_CLI_SUCCESS else FLORA_CLI_ECONN, s)) (send_buffer E m s))"

definition client_subscribe :: "'c cenv \<Rightarrow> string option \<Rightarrow> 'c client \<Rightarrow> (i32 \<times> 'c client) option" where
  "client_subscribe E name s =
     (if name = None then Some (FLORA_CLI_EINVAL, s)
      else if is_monitor (opt_flags (options s)) then Some (FLORA_CLI_EMONITOR, s)
      else send_request E (req_serialize_subscribe (ccaps E) name (bufsize (options s)) (cl_serialize_flags s)) s)"

definition client_unsubscribe :: "'c cenv \<Rightarrow> string option \<Rightarrow> 'c client \<Rightarrow> (i32 \<times> 'c client) option" where
  "client_unsubscribe E name s =
     (if name = None then Some (FLORA_CLI_EINVAL, s)
      else if is_monitor (opt_flags (options s)) then Some (FLORA_CLI_EMONITOR, s)
      else send_request E (req_serialize_unsubscribe (ccaps E) name (bufsize (options s)) (cl_serialize_flags s)) s)"

definition client_declare_method :: "'c cenv \<Rightarrow> string option \<Rightarrow> 'c client \<Rightarrow> (i32 \<times> 'c client) option" where
  "client_declare_method E name s =
     (if name = None then Some (FLORA_CLI_EINVAL, s)
      else if is_monitor (opt_flags (options s)) then Some (FLORA_CLI_EMONITOR, s)
      else send_request E (req_serialize_declare_method (ccaps E) name (bufsize (options s)) (cl_serialize_flags s)) s)"

definition client_remove_method :: "'c cenv \<Rightarrow> string option \<Rightarrow> 'c client \<Rightarrow> (i32 \<times> 'c client) option" where
  "client_remove_method E name s =
     (if name = None then Some (FLORA_CLI_EINVAL, s)
      else if is_monitor (opt_flags (options s)) then Some (FLORA_CLI_EMONITOR, s)
      else send_request E (req_serialize_remove_method (ccaps E) name (bufsize (options s)) (cl_serialize_flags s)) s)"

definition client_post ::
  "'c cenv \<Rightarrow> string option \<Rightarrow> 'c option \<Rightarrow> u32 \<Rightarrow> 'c client \<Rightarrow> (i32 \<times> 'c client) option" where
  "client_post E name msg msgtype s =
     (if name = None \<or> \<not> is_valid_msgtype msgtype then Some (FLORA_CLI_EINVAL, s)
      else if is_monitor (opt_flags (options s)) then Some (FLORA_CLI_EMONITOR, s)
      else send_request E (req_serialize_post (ccaps E) name msgtype msg (bufsize (options s)) (cl_serialize_flags s)) s)"

definition client_ping :: "'c cenv \<Rightarrow> 'c client \<Rightarrow> 'c client option" where
  "client_ping E s =
     (let m = req_serialize_ping (ccaps E) (bufsize (options s)) (cl_serialize_flags s) in
      if sint (fst m) \<le> 0 then Some s else map_option snd (send_buffer E m s))"

definition send_reply :: "'c cenv \<Rightarrow> i32 \<Rightarrow> i32 \<Rightarrow> 'c option \<Rightarrow> 'c client \<Rightarrow> 'c client option" where
  "send_reply E callid code data s =
     (let m = req_serialize_reply (ccaps E) callid code data (bufsize (options s)) (cl_serialize_flags s) in
      if sint (fst m) \<le> 0 then Some s else map_option snd (send_buffer E m s))"

section \<open>Calls\<close>

definition upd_node :: "nat \<Rightarrow> (pending_request \<Rightarrow> pending_request) \<Rightarrow> pending_request list \<Rightarrow> pending_request list" where
  "upd_node n f prs = map (\<lambda>pr. if pr_node pr = n then f pr else pr) prs"

definition erase_node :: "nat \<Rightarrow> 'c client \<Rightarrow> 'c client" where
  "erase_node n s = s\<lparr>pending_requests := filter (\<lambda>pr. pr_node pr \<noteq> n) (pending_requests s)\<rparr>"

text \<open>A new node at the end of the list.\<close>

definition add_pending :: "nat option \<Rightarrow> nat option \<Rightarrow> 'c client \<Rightarrow> 'c client" where
  "add_pending result cb s =
     s\<lparr>pending_requests := pending_requests s @
          [\<lparr>pr_node = next_node s, pr_id = cl_reqseq s, pr_rcode = 0, pr_result = result, pr_callback = cb\<rparr>],
       next_node := next_node s + 1\<rparr>"

text \<open>The synchronous call up to the point where it waits: it has returned already, or it waits at a
  node. \<open>in_cb\<close>: the caller is the receiving thread. When sending fails the node stays in the list.\<close>

datatype call_status = CallReturned i32 | CallWaiting nat

definition client_call ::
  "'c cenv \<Rightarrow> bool \<Rightarrow> string option \<Rightarrow> 'c option \<Rightarrow> string option \<Rightarrow> nat \<Rightarrow> u32 \<Rightarrow> 'c client \<Rightarrow>
   (call_status \<times> 'c client) option" where
  "client_call E in_cb name msg target reply timeout s =
     (if name = None then Some (CallReturned FLORA_CLI_EINVAL, s)
      else if is_monitor (opt_flags (options s)) then Some (CallReturned FLORA_CLI_EMONITOR, s)
      else if in_cb then Some (CallReturned FLORA_CLI_EDEADLOCK, s)
      else
        (let s = s\<lparr>cl_reqseq := cl_reqseq s + 1\<rparr>;
             m = req_serialize_call (ccaps E) name msg target (cl_reqseq s) timeout (bufsize (options s))
                   (cl_serialize_flags s)
         in if sint (fst m) \<le> 0 then Some (CallReturned FLORA_CLI_EINVAL, s)
            else
              (let it = next_node s; s = add_pending (Some reply) None s in
               map_option
                 (\<lambda>(ok, s). (if ok then CallWaiting it else CallReturned FLORA_CLI_ECONN, s))
                 (send_buffer E m s))))"

text \<open>One turn of the waiting loop: the reply is there, or the connection is closed, or it has to
  wait (\<open>None\<close> inside). \<open>call_timeout\<close> is the turn after the wait timed out.\<close>

definition find_node :: "nat \<Rightarrow> 'c client \<Rightarrow> pending_request option" where
  "find_node n s = find (\<lambda>pr. pr_node pr = n) (pending_requests s)"

definition is_closed :: "'c client \<Rightarrow> bool option" where
  "is_closed s = map_option conn_closed (connection s)"

definition call_check :: "nat \<Rightarrow> 'c client \<Rightarrow> (i32 option \<times> 'c client) option" where
  "call_check it s =
     Option.bind (find_node it s) (\<lambda>pr.
       if pr_id pr = 0 then Some (Some (pr_rcode pr), erase_node it s)
       else
         Option.bind (is_closed s) (\<lambda>cl.
           if cl then Some (Some (close_reason s), erase_node it s) else Some (None, s)))"

definition call_timeout :: "nat \<Rightarrow> 'c client \<Rightarrow> (i32 \<times> 'c client) option" where
  "call_timeout it s =
     map_option (\<lambda>pr. (FLORA_CLI_ETIMEOUT, erase_node it s)) (find_node it s)"

definition client_call_nb ::
  "'c cenv \<Rightarrow> string option \<Rightarrow> 'c option \<Rightarrow> string option \<Rightarrow> nat option \<Rightarrow> u32 \<Rightarrow> 'c client \<Rightarrow>
   (i32 \<times> 'c client) option" where
  "client_call_nb E name msg target cb timeout s =
     (if name = None then Some (FLORA_CLI_EINVAL, s)
      else if is_monitor (opt_flags (options s)) then Some (FLORA_CLI_EMONITOR, s)
      else
        (let s = s\<lparr>cl_reqseq := cl_reqseq s + 1\<rparr>;
             m = req_serialize_call (ccaps E) name msg target (cl_reqseq s) timeout (bufsize (options s))
                   (cl_serialize_flags s)
         in if sint (fst m) \<le> 0 then Some (FLORA_CLI_EINVAL, s)
            else
              map_option (\<lambda>(ok, s). (if ok then FLORA_CLI_SUCCESS else FLORA_CLI_ECONN, s))
                (send_buffer E m (add_pending None cb s))))"

definition client_get_socket :: "'c client \<Rightarrow> int" where
  "client_get_socket s = (case connection s of None \<Rightarrow> - 1 | Some c \<Rightarrow> conn_get_socket c)"

section \<open>Closing\<close>

definition iclose :: "'c cenv \<Rightarrow> bool \<Rightarrow> i32 \<Rightarrow> 'c client \<Rightarrow> 'c client option" where
  "iclose E passive err s =
     (case connection s of
        None \<Rightarrow> Some s
      | Some c \<Rightarrow>
          if conn_closed c then Some s
          else
            (let s = s\<lparr>connection := Some (conn_close c), close_reason := err\<rparr>;
                 cbs = map pr_callback (filter (\<lambda>pr. pr_result pr = None) (pending_requests s));
                 s = s\<lparr>pending_requests := filter (\<lambda>pr. pr_result pr \<noteq> None) (pending_requests s)\<rparr>
             in map_option
                  (\<lambda>s.
                     if passive then
                       (let s = (if cli_callback s then emit UpDisconnected s else s)
                        in if mon_callback s then emit MonDisconnected s else s)
                     else s)
                  (iterate (\<lambda>cb s. map_option (\<lambda>f. emit (UpResp f err (undef_response E)) s) cb) cbs s)))"

text \<open>\<open>close\<close> waits for both threads after \<open>iclose\<close>; all that is left for them to do once the
  connection is closed is to leave their loops (lemmas \<open>recv_iter_closed\<close>, \<open>keepalive_closed\<close>).\<close>

definition client_close :: "'c cenv \<Rightarrow> bool \<Rightarrow> bool \<Rightarrow> 'c client \<Rightarrow> (i32 \<times> 'c client) option" where
  "client_close E in_cb passive s =
     (if in_cb then Some (FLORA_CLI_EDEADLOCK, s)
      else
        map_option
          (\<lambda>s. (FLORA_CLI_SUCCESS, s\<lparr>recv_on := False, cmd_handler := BeforeAuth, keepalive_on := False\<rparr>))
          (iclose E passive FLORA_CLI_ECLOSED s))"

text \<open>The destructor closes the client. When it runs on the receiving thread \<open>close\<close> refuses, and the
  destruction of the thread object, still joinable, terminates the program, which is \<open>None\<close>.\<close>

definition delete_Client :: "'c cenv \<Rightarrow> bool \<Rightarrow> 'c client \<Rightarrow> 'c client option" where
  "delete_Client E in_cb s =
     Option.bind (client_close E in_cb False s) (\<lambda>(r, s). if r = FLORA_CLI_EDEADLOCK then None else Some s)"

section \<open>What the service sends\<close>

text \<open>Each handler gives the code's \<open>bool\<close> with the new state.\<close>

type_synonym 'c handled = "(bool \<times> 'c client) option"

definition handle_cmd_before_auth :: "'c cenv \<Rightarrow> i32 \<Rightarrow> 'c \<Rightarrow> 'c client \<Rightarrow> 'c handled" where
  "handle_cmd_before_auth E cmd resp s =
     (if cmd \<noteq> CMD_AUTH_RESP then Some (False, s)
      else if \<not> auth_result_set s then None
      else
        (case resp_parse_auth (ccaps E) resp of
           None \<Rightarrow> Some (False, s)
         | Some (result, version) \<Rightarrow>
             Some (True, s\<lparr>ares_result := result, ares_notified := True, cmd_handler := AfterAuth\<rparr>)))"

definition handle_monitor_list_all :: "'c cenv \<Rightarrow> 'c \<Rightarrow> 'c client \<Rightarrow> 'c handled" where
  "handle_monitor_list_all E resp s =
     map_option (\<lambda>r. case r of None \<Rightarrow> (False, s) | Some items \<Rightarrow> (True, emit (MonListAll items) s))
       (resp_parse_monitor_list_all (ccaps E) resp)"

definition handle_monitor_list_add :: "'c cenv \<Rightarrow> 'c \<Rightarrow> 'c client \<Rightarrow> 'c handled" where
  "handle_monitor_list_add E resp s =
     map_option (\<lambda>r. case r of None \<Rightarrow> (False, s) | Some item \<Rightarrow> (True, emit (MonListAdd item) s))
       (resp_parse_monitor_list_add (ccaps E) resp)"

definition handle_monitor_list_remove :: "'c cenv \<Rightarrow> 'c \<Rightarrow> 'c client \<Rightarrow> 'c handled" where
  "handle_monitor_list_remove E resp s =
     (case resp_parse_monitor_list_remove (ccaps E) resp of
        None \<Rightarrow> Some (False, s) | Some i \<Rightarrow> Some (True, emit (MonListRemove i) s))"

definition handle_monitor_sub_all :: "'c \<Rightarrow> 'c client \<Rightarrow> 'c handled" where
  "handle_monitor_sub_all resp s =
     (if sint (resp_parse_monitor_sub_all resp) < 0 then Some (False, s) else Some (True, emit MonSubAll s))"

definition handle_monitor_sub_add :: "'c \<Rightarrow> 'c client \<Rightarrow> 'c handled" where
  "handle_monitor_sub_add resp s =
     (if sint (resp_parse_monitor_sub_add resp) < 0 then Some (False, s) else Some (True, emit MonSubAdd s))"

definition handle_monitor_sub_remove :: "'c \<Rightarrow> 'c client \<Rightarrow> 'c handled" where
  "handle_monitor_sub_remove resp s =
     (if sint (resp_parse_monitor_sub_remove resp) < 0 then Some (False, s) else Some (True, emit MonSubRemove s))"

definition handle_monitor_decl_all :: "'c \<Rightarrow> 'c client \<Rightarrow> 'c handled" where
  "handle_monitor_decl_all resp s =
     (if sint (resp_parse_monitor_decl_all resp) < 0 then Some (False, s) else Some (True, emit MonDeclAll s))"

definition handle_monitor_decl_add :: "'c \<Rightarrow> 'c client \<Rightarrow> 'c handled" where
  "handle_monitor_decl_add resp s =
     (if sint (resp_parse_monitor_decl_add resp) < 0 then Some (False, s) else Some (True, emit MonDeclAdd s))"

definition handle_monitor_decl_remove :: "'c \<Rightarrow> 'c client \<Rightarrow> 'c handled" where
  "handle_monitor_decl_remove resp s =
     (if sint (resp_parse_monitor_decl_remove resp) < 0 then Some (False, s) else Some (True, emit MonDeclRemove s))"

definition handle_monitor_post :: "'c \<Rightarrow> 'c client \<Rightarrow> 'c handled" where
  "handle_monitor_post resp s =
     (if sint (resp_parse_monitor_post resp) < 0 then Some (False, s) else Some (True, emit MonPost s))"

definition handle_monitor_call :: "'c \<Rightarrow> 'c client \<Rightarrow> 'c handled" where
  "handle_monitor_call resp s =
     (if sint (resp_parse_monitor_call resp) < 0 then Some (False, s) else Some (True, emit MonCall s))"

definition monitor_handlers :: "'c cenv \<Rightarrow> ('c \<Rightarrow> 'c client \<Rightarrow> 'c handled) list" where
  "monitor_handlers E =
     [handle_monitor_list_all E, handle_monitor_list_add E, handle_monitor_list_remove E,
      handle_monitor_sub_all, handle_monitor_sub_add, handle_monitor_sub_remove,
      handle_monitor_decl_all, handle_monitor_decl_add, handle_monitor_decl_remove,
      handle_monitor_post, handle_monitor_call]"

text \<open>The five cases of \<open>handle_cmd_after_auth\<close>. A parser that fails after it has assigned \<open>tag\<close>
  ends the receiving thread, and with it the thread-local variables.\<close>

definition on_post_resp :: "'c cenv \<Rightarrow> 'c \<Rightarrow> 'c client \<Rightarrow> 'c handled" where
  "on_post_resp E resp s =
     (case resp_parse_post (ccaps E) resp of
        None \<Rightarrow> Some (False, s)
      | Some (name, msgtype, args, tg, cliname) \<Rightarrow>
          (let s = s\<lparr>cl_tag := tg, sender_name := cliname\<rparr> in
           Some (True, if cli_callback s then emit (UpPost (c_str name) msgtype args tg cliname) s else s)))"

definition new_reply :: "bool \<Rightarrow> i32 \<Rightarrow> 'c reply_impl" where
  "new_reply c callid = \<lparr>rp_client = c, rp_ret_code = FLORA_CALL_RETCODE_NORESP, rp_data = None, rp_callid = callid\<rparr>"

definition on_call_resp :: "'c cenv \<Rightarrow> 'c \<Rightarrow> 'c client \<Rightarrow> 'c handled" where
  "on_call_resp E resp s =
     (case resp_parse_call (ccaps E) resp of
        None \<Rightarrow> Some (False, s)
      | Some (name, args, msgid, tg, cliname) \<Rightarrow>
          (let s = s\<lparr>cl_tag := tg, sender_name := cliname\<rparr> in
           Some (True,
             if cli_callback s
             then emit (UpCall (c_str name) args tg cliname (new_reply (weak_ptr s) msgid)) s else s)))"

definition on_reply_resp :: "'c cenv \<Rightarrow> 'c \<Rightarrow> 'c client \<Rightarrow> 'c handled" where
  "on_reply_resp E resp s =
     (case resp_parse_reply (ccaps E) (undef_response E) resp of
        None \<Rightarrow> Some (False, s)
      | Some (msgid, rescode, response, tg) \<Rightarrow>
          (let s = s\<lparr>cl_tag := tg\<rparr> in
           case find (\<lambda>pr. pr_id pr = msgid) (pending_requests s) of
             None \<Rightarrow> Some (True, s)
           | Some pr \<Rightarrow>
               (case pr_result pr of
                  Some r \<Rightarrow>
                    (let s = s\<lparr>pending_requests :=
                           upd_node (pr_node pr) (\<lambda>p. p\<lparr>pr_id := 0, pr_rcode := rescode\<rparr>) (pending_requests s)\<rparr>
                     in if rescode = FLORA_CLI_SUCCESS then
                          (if r \<notin> live_resps s then None
                           else Some (True, s\<lparr>responses := (responses s)(r := response)\<rparr>))
                        else Some (True, s))
                | None \<Rightarrow>
                    (let response = (if rescode \<noteq> FLORA_CLI_SUCCESS then response\<lparr>ret_code := 0\<rparr> else response);
                         s = erase_node (pr_node pr) s
                     in Some (True, case pr_callback pr of None \<Rightarrow> s
                                    | Some cb \<Rightarrow> emit (UpResp cb rescode response) s)))))"

definition on_monitor_resp :: "'c cenv \<Rightarrow> 'c \<Rightarrow> 'c client \<Rightarrow> 'c handled" where
  "on_monitor_resp E resp s =
     (if \<not> mon_callback s then Some (True, s)
      else
        (case read_u32 (ccaps E) resp of
           (None, _) \<Rightarrow> Some (False, s)
         | (Some subtype, resp) \<Rightarrow>
             if MONITOR_SUBTYPE_NUM \<le> subtype then Some (False, s)
             else (monitor_handlers E ! unat subtype) resp s))"

definition handle_cmd_after_auth :: "'c cenv \<Rightarrow> i32 \<Rightarrow> 'c \<Rightarrow> 'c client \<Rightarrow> 'c handled" where
  "handle_cmd_after_auth E cmd resp s =
     (if cmd = CMD_POST_RESP then on_post_resp E resp s
      else if cmd = CMD_CALL_RESP then on_call_resp E resp s
      else if cmd = CMD_REPLY_RESP then on_reply_resp E resp s
      else if cmd = CMD_MONITOR_RESP then on_monitor_resp E resp s
      else if cmd = CMD_PONG_RESP then Some (True, s)
      else Some (False, s))"

definition run_handler :: "'c cenv \<Rightarrow> i32 \<Rightarrow> 'c \<Rightarrow> 'c client \<Rightarrow> 'c handled" where
  "run_handler E cmd resp s =
     (case cmd_handler s of
        BeforeAuth \<Rightarrow> handle_cmd_before_auth E cmd resp s
      | AfterAuth \<Rightarrow> handle_cmd_after_auth E cmd resp s)"

section \<open>Receiving\<close>

text \<open>The loop of \<open>handle_received\<close> from offset \<open>off\<close>: the result tells whether it left the loop
  normally, and at which offset. \<open>None\<close> is undefined behaviour or a loop that does not end.\<close>

partial_function (option) received_loop ::
  "'c cenv \<Rightarrow> u32 \<Rightarrow> u32 \<Rightarrow> 'c client \<Rightarrow> (bool \<times> u32 \<times> 'c client) option" where
  "received_loop E sz off s =
     (if \<not> off < sz then Some (True, off, s)
      else if sz - off < 8 then Some (True, off, s)
      else
        (case binary_info (ccaps E) (drop (unat off) (rbuffer s)) of
           None \<Rightarrow> Some (False, off, s)
         | Some (version, len) \<Rightarrow>
             if sz - off < len then Some (True, off, s)
             else
               (case caps_parse (ccaps E) (take (unat len) (drop (unat off) (rbuffer s))) of
                  None \<Rightarrow> Some (False, off, s)
                | Some resp \<Rightarrow>
                    (case read_i32 (ccaps E) resp of
                       (None, _) \<Rightarrow> Some (False, off + len, s)
                     | (Some cmd, resp) \<Rightarrow>
                         Option.bind (run_handler E cmd resp s)
                           (\<lambda>(ok, s). if ok then received_loop E sz (off + len) s
                                      else Some (False, off + len, s))))))"

declare received_loop.simps [code]

definition handle_received :: "'c cenv \<Rightarrow> u32 \<Rightarrow> 'c client \<Rightarrow> 'c handled" where
  "handle_received E sz s =
     map_option
       (\<lambda>(ok, off, s).
          if \<not> ok then (False, s)
          else
            (True,
             s\<lparr>rbuffer := (if 0 < off \<and> 0 < sz - off
                          then take (unat (sz - off)) (drop (unat off) (rbuffer s)) @ drop (unat (sz - off)) (rbuffer s)
                          else rbuffer s),
               rbuf_off := sz - off\<rparr>))
       (received_loop E sz 0 s)"

text \<open>The read puts its bytes behind those already in the buffer.\<close>

definition store_bytes :: "byte list \<Rightarrow> 'c client \<Rightarrow> 'c client" where
  "store_bytes bs s =
     s\<lparr>rbuffer := take (unat (rbuf_off s)) (rbuffer s) @ bs @ drop (unat (rbuf_off s) + length bs) (rbuffer s)\<rparr>"

text \<open>How the loop of \<open>recv_loop\<close> is left: a waiting \<open>auth\<close> is woken, unless the buffer was full.\<close>

definition recv_fail :: "'c client \<Rightarrow> i32 \<times> 'c client" where
  "recv_fail s =
     (if auth_result_set s
      then (FLORA_CLI_EAUTH, s\<lparr>ares_notified := True, auth_result_set := False\<rparr>)
      else (FLORA_CLI_ECONN, s))"

definition recv_exit :: "'c cenv \<Rightarrow> i32 \<Rightarrow> 'c client \<Rightarrow> 'c client option" where
  "recv_exit E err s = map_option (\<lambda>s. s\<lparr>recv_on := False\<rparr>) (iclose E True err s)"

text \<open>One turn of \<open>recv_loop\<close>, given what the reads return; while they do not return nothing
  happens.\<close>

definition recv_iter :: "'c cenv \<Rightarrow> read_out list \<Rightarrow> 'c client \<Rightarrow> 'c client option" where
  "recv_iter E outs s =
     (if rbuf_off s = bufsize (options s) then recv_exit E FLORA_CLI_EINSUFF_BUF s
      else
        (case connection s of
           None \<Rightarrow> None
         | Some c \<Rightarrow>
             (case conn_recv outs c of
                None \<Rightarrow> Some s
              | Some (n, bs) \<Rightarrow>
                  if sint n \<le> 0 then (let (err, s) = recv_fail s in recv_exit E err s)
                  else
                    Option.bind (handle_received E (rbuf_off s + n) (store_bytes bs s))
                      (\<lambda>(ok, s). if ok then Some s else (let (err, s) = recv_fail s in recv_exit E err s)))))"

text \<open>One turn of \<open>keepalive_loop\<close>; the flag tells whether the wait timed out.\<close>

definition keepalive_iter :: "'c cenv \<Rightarrow> bool \<Rightarrow> 'c client \<Rightarrow> 'c client option" where
  "keepalive_iter E timed_out s =
     Option.bind (is_closed s) (\<lambda>cl.
       if cl then Some (s\<lparr>keepalive_on := False\<rparr>)
       else if timed_out then client_ping E s else Some s)"

section \<open>Connecting\<close>

text \<open>The answers of the system calls made while connecting: the socket, the address of the host, and
  whether the peer accepts.\<close>

record net =
  n_fd :: int
  n_dns :: "u32 option"
  n_reach :: bool

text \<open>\<open>connect\<close> up to the start of the receiving thread. \<open>None\<close> for the URI is the null pointer.\<close>

definition connect_open ::
  "'c cenv \<Rightarrow> net \<Rightarrow> string option \<Rightarrow> bool \<Rightarrow> 'c client \<Rightarrow> (i32 \<times> 'c client) option" where
  "connect_open E net uri mcb s =
     (case Option.bind uri (uri_parse E) of
        None \<Rightarrow> Some (FLORA_CLI_EINVAL, s)
      | Some u \<Rightarrow>
          if u_scheme u = ''unix'' then
            map_option
              (\<lambda>(ok, c).
                 if \<not> ok then (FLORA_CLI_ECONN, s)
                 else (FLORA_CLI_SUCCESS,
                       s\<lparr>connection := Some c, cl_serialize_flags := 0, mon_callback := mcb, recv_on := True\<rparr>))
              (connect_unix (n_fd net) (n_reach net) (u_path u) (new_SocketConn 0))
          else if u_scheme u = ''tcp'' then
            (let (ok, c) = connect_tcp (n_fd net) (n_dns net) (n_reach net) (u_port u)
                             (new_SocketConn (noresp_timeout (options s)))
             in Some (if \<not> ok then (FLORA_CLI_ECONN, s)
                      else (FLORA_CLI_SUCCESS,
                            s\<lparr>connection := Some c, cl_serialize_flags := CAPS_FLAG_NET_BYTEORDER (ccaps E),
                              mon_callback := mcb, recv_on := True\<rparr>)))
          else Some (FLORA_CLI_EINVAL, s))"

text \<open>\<open>auth\<close> up to its wait: \<open>CallReturned\<close> when it fails at once.\<close>

definition auth_send :: "'c cenv \<Rightarrow> string \<Rightarrow> u32 \<Rightarrow> 'c client \<Rightarrow> (i32 option \<times> 'c client) option" where
  "auth_send E extra flags s =
     (let m = req_serialize_auth (ccaps E) FLORA_VERSION (Some (c_str extra)) (getpid E) flags
                (bufsize (options s)) (cl_serialize_flags s)
      in if sint (fst m) \<le> 0 then Some (Some FLORA_CLI_EAUTH, s)
         else
           map_option
             (\<lambda>(ok, s). if ok then (None, s) else (Some FLORA_CLI_EAUTH, s\<lparr>auth_result_set := False\<rparr>))
             (send_buffer E m
               (s\<lparr>auth_result_set := True, ares_result := FLORA_CLI_EAUTH, ares_notified := False\<rparr>)))"

text \<open>\<open>auth\<close> after its wait.\<close>

definition auth_return :: "'c client \<Rightarrow> i32 \<times> 'c client" where
  "auth_return s = (ares_result s, s\<lparr>auth_result_set := False\<rparr>)"

definition connect_finish ::
  "'c cenv \<Rightarrow> i32 \<Rightarrow> string \<Rightarrow> bool \<Rightarrow> 'c client \<Rightarrow> (i32 \<times> 'c client) option" where
  "connect_finish E r extra ccb s =
     (if r \<noteq> FLORA_CLI_SUCCESS
      then map_option (\<lambda>(_, s). (r, s)) (client_close E False False (s\<lparr>mon_callback := False\<rparr>))
      else Some (FLORA_CLI_SUCCESS, s\<lparr>keepalive_on := True, cli_callback := ccb, auth_extra := extra\<rparr>))"

text \<open>What the receiving thread does while \<open>auth\<close> waits: turns of its loop, each with what its reads
  return, until \<open>auth\<close> is woken.\<close>

fun recv_until_woken :: "'c cenv \<Rightarrow> read_out list list \<Rightarrow> 'c client \<Rightarrow> 'c client option" where
  "recv_until_woken E [] s = Some s"
| "recv_until_woken E (outs # script) s =
     (if ares_notified s \<or> \<not> recv_on s then Some s
      else Option.bind (recv_iter E outs s) (recv_until_woken E script))"

text \<open>The whole of \<open>Client::connect\<close>, the receiving thread being scheduled while \<open>auth\<close> waits. The
  inner \<open>None\<close>: \<open>auth\<close> still waits.\<close>

definition client_connect ::
  "'c cenv \<Rightarrow> net \<Rightarrow> string option \<Rightarrow> bool \<Rightarrow> bool \<Rightarrow> read_out list list \<Rightarrow> 'c client \<Rightarrow>
   (i32 option \<times> 'c client) option" where
  "client_connect E net uri ccb mcb script s =
     Option.bind (connect_open E net uri mcb s) (\<lambda>(r, s).
       if r \<noteq> FLORA_CLI_SUCCESS then Some (Some r, s)
       else
         (let extra = u_fragment (the (uri_parse E (the uri))) in
          Option.bind (auth_send E extra (opt_flags (options s)) s) (\<lambda>(ar, s).
            case ar of
              Some r \<Rightarrow> map_option (apfst Some) (connect_finish E r extra ccb s)
            | None \<Rightarrow>
                Option.bind (recv_until_woken E script s) (\<lambda>s.
                  if \<not> ares_notified s then Some (None, s)
                  else
                    (let (r, s) = auth_return s
                     in map_option (apfst Some) (connect_finish E r extra ccb s))))))"

text \<open>\<open>flora::Client::connect\<close> with options: the buffer has at least the default size, and the weak
  pointer is set after a successful connect.\<close>

definition connect_options :: "client_options option \<Rightarrow> client_options" where
  "connect_options opts =
     (let opt = (case opts of None \<Rightarrow> default_options | Some opt \<Rightarrow> opt)
      in if bufsize opt < DEFAULT_MSG_BUF_SIZE then opt\<lparr>bufsize := DEFAULT_MSG_BUF_SIZE\<rparr> else opt)"

definition flora_Client_connect ::
  "'c cenv \<Rightarrow> net \<Rightarrow> string option \<Rightarrow> bool \<Rightarrow> bool \<Rightarrow> client_options option \<Rightarrow> read_out list list \<Rightarrow>
   (i32 option \<times> 'c client) option" where
  "flora_Client_connect E net uri ccb mcb opts script =
     map_option (\<lambda>(r, s). (r, if r = Some FLORA_CLI_SUCCESS then s\<lparr>weak_ptr := True\<rparr> else s))
       (client_connect E net uri ccb mcb script (new_Client (connect_options opts)))"

definition flora_Client_connect_bufsize ::
  "'c cenv \<Rightarrow> net \<Rightarrow> string option \<Rightarrow> bool \<Rightarrow> u32 \<Rightarrow> read_out list list \<Rightarrow> (i32 option \<times> 'c client) option" where
  "flora_Client_connect_bufsize E net uri cb msg_buf_size script =
     flora_Client_connect E net uri cb False (Some (default_options\<lparr>bufsize := msg_buf_size\<rparr>)) script"

section \<open>\<open>ReplyImpl\<close>\<close>

definition reply_write_code :: "i32 \<Rightarrow> 'c reply_impl \<Rightarrow> 'c reply_impl" where
  "reply_write_code code r = r\<lparr>rp_ret_code := code\<rparr>"

definition reply_write_data :: "'c option \<Rightarrow> 'c reply_impl \<Rightarrow> 'c reply_impl" where
  "reply_write_data data r = r\<lparr>rp_data := data\<rparr>"

definition reply_do_send ::
  "'c cenv \<Rightarrow> 'c reply_impl \<Rightarrow> 'c client \<Rightarrow> ('c reply_impl \<times> 'c client) option" where
  "reply_do_send E r s =
     (if rp_client r
      then map_option (\<lambda>s. (r\<lparr>rp_client := False\<rparr>, s)) (send_reply E (rp_callid r) (rp_ret_code r) (rp_data r) s)
      else Some (r, s))"

definition reply_end ::
  "'c cenv \<Rightarrow> 'c reply_impl \<Rightarrow> 'c client \<Rightarrow> ('c reply_impl \<times> 'c client) option" where
  "reply_end E r s = reply_do_send E (reply_write_code 0 r) s"

definition reply_end_code ::
  "'c cenv \<Rightarrow> i32 \<Rightarrow> 'c reply_impl \<Rightarrow> 'c client \<Rightarrow> ('c reply_impl \<times> 'c client) option" where
  "reply_end_code E code r s = reply_do_send E (reply_write_code code r) s"

definition reply_end_data ::
  "'c cenv \<Rightarrow> i32 \<Rightarrow> 'c option \<Rightarrow> 'c reply_impl \<Rightarrow> 'c client \<Rightarrow> ('c reply_impl \<times> 'c client) option" where
  "reply_end_data E code data r s = reply_do_send E (reply_write_data data (reply_write_code code r)) s"

definition delete_ReplyImpl ::
  "'c cenv \<Rightarrow> 'c reply_impl \<Rightarrow> 'c client \<Rightarrow> ('c reply_impl \<times> 'c client) option" where
  "delete_ReplyImpl E r s = reply_do_send E r s"

section \<open>\<open>MsgSender\<close>\<close>

definition sender_connection_type :: "'c client \<Rightarrow> u32" where
  "sender_connection_type s = tag_type (cl_tag s)"

definition sender_pid :: "'c client \<Rightarrow> i32" where
  "sender_pid s = tag_pid (cl_tag s)"

definition sender_tag :: "'c client \<Rightarrow> u64" where
  "sender_tag s = cl_tag s"

definition sender_ipaddr :: "'c client \<Rightarrow> string" where
  "sender_ipaddr s = tag_ipaddr (cl_tag s)"

definition sender_port :: "'c client \<Rightarrow> u16" where
  "sender_port s = tag_port (cl_tag s)"

definition sender_cname :: "'c client \<Rightarrow> string" where
  "sender_cname s = c_str (sender_name s)"

definition sender_to_string :: "'c client \<Rightarrow> string" where
  "sender_to_string s = ''['' @ tag_to_string (cl_tag s) @ '']'' @ sender_cname s"

end
