(* ===== verification/ClientC.thy ===== *)
theory ClientC
  imports Client
begin

text \<open>
  The C interface of the client (the second half of \<open>src/cli.cc\<close>): handles around clients, the
  conversion of results, and the wrapper that turns C callbacks into a \<open>ClientCallback\<close>. A handle
  is the client it stands for, or \<open>None\<close> for 0.
\<close>

section \<open>Results\<close>

record 'c c_result =
  c_ret_code :: i32
  c_data :: "'c option"
  c_extra :: "string option"

definition cxxresp_to_cresp :: "'c response \<Rightarrow> 'c c_result" where
  "cxxresp_to_cresp resp =
     \<lparr>c_ret_code = ret_code resp, c_data = resp_data resp,
      c_extra = (if resp_extra resp \<noteq> [] then Some (c_str (resp_extra resp)) else None)\<rparr>"

definition flora_result_delete :: "'c c_result option \<Rightarrow> 'c c_result option" where
  "flora_result_delete result = map_option (\<lambda>r. r\<lparr>c_extra := None, c_data := None\<rparr>) result"

section \<open>Handles\<close>

definition flora_cli_connect ::
  "'c cenv \<Rightarrow> net \<Rightarrow> string option \<Rightarrow> bool \<Rightarrow> u32 \<Rightarrow> bool \<Rightarrow> read_out list list \<Rightarrow>
   (i32 option \<times> 'c client option) option" where
  "flora_cli_connect E net uri cb msg_buf_size has_result script =
     (if \<not> has_result then Some (Some FLORA_CLI_EINVAL, None)
      else
        (let opts = default_options\<lparr>bufsize :=
               (if msg_buf_size < DEFAULT_MSG_BUF_SIZE then DEFAULT_MSG_BUF_SIZE else msg_buf_size)\<rparr>
         in map_option
              (\<lambda>(r, s). (r, if r = Some FLORA_CLI_SUCCESS then Some (s\<lparr>weak_ptr := True\<rparr>) else None))
              (client_connect E net uri cb False script (new_Client opts))))"

text \<open>Lifting an operation of a client to a handle.\<close>

definition with_handle ::
  "('c client \<Rightarrow> (i32 \<times> 'c client) option) \<Rightarrow> 'c client option \<Rightarrow> (i32 \<times> 'c client option) option" where
  "with_handle f handle =
     (case handle of
        None \<Rightarrow> Some (FLORA_CLI_EINVAL, None)
      | Some s \<Rightarrow> map_option (\<lambda>(r, s). (r, Some s)) (f s))"

definition flora_cli_delete :: "'c cenv \<Rightarrow> bool \<Rightarrow> 'c client option \<Rightarrow> 'c client option option" where
  "flora_cli_delete E in_cb handle =
     (case handle of
        None \<Rightarrow> Some None
      | Some s \<Rightarrow> map_option (\<lambda>(r, s). Some s) (client_close E in_cb False s))"

definition flora_cli_subscribe ::
  "'c cenv \<Rightarrow> 'c client option \<Rightarrow> string option \<Rightarrow> (i32 \<times> 'c client option) option" where
  "flora_cli_subscribe E handle name = with_handle (client_subscribe E name) handle"

definition flora_cli_unsubscribe ::
  "'c cenv \<Rightarrow> 'c client option \<Rightarrow> string option \<Rightarrow> (i32 \<times> 'c client option) option" where
  "flora_cli_unsubscribe E handle name = with_handle (client_unsubscribe E name) handle"

definition flora_cli_declare_method ::
  "'c cenv \<Rightarrow> 'c client option \<Rightarrow> string option \<Rightarrow> (i32 \<times> 'c client option) option" where
  "flora_cli_declare_method E handle name = with_handle (client_declare_method E name) handle"

definition flora_cli_remove_method ::
  "'c cenv \<Rightarrow> 'c client option \<Rightarrow> string option \<Rightarrow> (i32 \<times> 'c client option) option" where
  "flora_cli_remove_method E handle name = with_handle (client_remove_method E name) handle"

definition flora_cli_post ::
  "'c cenv \<Rightarrow> 'c client option \<Rightarrow> string option \<Rightarrow> 'c option \<Rightarrow> u32 \<Rightarrow> (i32 \<times> 'c client option) option" where
  "flora_cli_post E handle name msg msgtype = with_handle (client_post E name msg msgtype) handle"

text \<open>\<open>flora_cli_call\<close>: its beginning, and what it makes of the code the C++ call returned and of the
  \<open>Response\<close> on its stack.\<close>

definition flora_cli_call ::
  "'c cenv \<Rightarrow> bool \<Rightarrow> 'c client option \<Rightarrow> string option \<Rightarrow> 'c option \<Rightarrow> string option \<Rightarrow> nat \<Rightarrow> u32 \<Rightarrow>
   (call_status \<times> 'c client option) option" where
  "flora_cli_call E in_cb handle name msg target resp timeout =
     (case handle of
        None \<Rightarrow> Some (CallReturned FLORA_CLI_EINVAL, None)
      | Some s \<Rightarrow>
          map_option (\<lambda>(r, s). (r, Some s))
            (client_call E in_cb name msg target resp timeout (s\<lparr>live_resps := insert resp (live_resps s)\<rparr>)))"

definition flora_cli_call_end ::
  "i32 \<Rightarrow> bool \<Rightarrow> nat \<Rightarrow> 'c client \<Rightarrow> i32 \<times> 'c c_result option \<times> 'c client" where
  "flora_cli_call_end r has_result resp s =
     (r,
      (if r \<noteq> FLORA_CLI_SUCCESS \<or> \<not> has_result then None else Some (cxxresp_to_cresp (responses s resp))),
      s\<lparr>live_resps := live_resps s - {resp}\<rparr>)"

text \<open>\<open>flora_cli_call_nb\<close> passes a lambda, never an empty function; \<open>call_nb_callback\<close> is what the
  lambda gives to the C callback, if there is one.\<close>

definition flora_cli_call_nb ::
  "'c cenv \<Rightarrow> 'c client option \<Rightarrow> string option \<Rightarrow> 'c option \<Rightarrow> string option \<Rightarrow> nat \<Rightarrow> u32 \<Rightarrow>
   (i32 \<times> 'c client option) option" where
  "flora_cli_call_nb E handle name msg target cb timeout =
     with_handle (client_call_nb E name msg target (Some cb) timeout) handle"

definition call_nb_callback :: "bool \<Rightarrow> i32 \<Rightarrow> 'c response \<Rightarrow> (i32 \<times> 'c c_result option) option" where
  "call_nb_callback has_cb rcode resp =
     (if \<not> has_cb then None
      else Some (rcode, if rcode = FLORA_CLI_SUCCESS then Some (cxxresp_to_cresp resp) else None))"

section \<open>Callbacks\<close>

text \<open>\<open>flora_cli_callback_t\<close>: which of its functions are set.\<close>

record c_callbacks =
  cb_recv_post :: bool
  cb_recv_call :: bool
  cb_disconnected :: bool

text \<open>The upcalls of \<open>WrapClientCallback\<close> that reach the application.\<close>

fun wrap_upcall :: "c_callbacks \<Rightarrow> 'c upcall \<Rightarrow> 'c upcall option" where
  "wrap_upcall cb (UpPost name msgtype msg tg sender) =
     (if cb_recv_post cb then Some (UpPost name msgtype msg tg sender) else None)"
| "wrap_upcall cb (UpCall name msg tg sender reply) =
     (if cb_recv_call cb then Some (UpCall name msg tg sender reply) else None)"
| "wrap_upcall cb UpDisconnected = (if cb_disconnected cb then Some UpDisconnected else None)"
| "wrap_upcall cb _ = None"

definition flora_call_reply_write_code :: "'c reply_impl \<Rightarrow> i32 \<Rightarrow> 'c reply_impl" where
  "flora_call_reply_write_code reply code = reply_write_code code reply"

definition flora_call_reply_write_data :: "'c reply_impl \<Rightarrow> 'c option \<Rightarrow> 'c reply_impl" where
  "flora_call_reply_write_data reply data = reply_write_data data reply"

text \<open>\<open>flora_call_reply_end\<close> sends the reply, with code 0, and destroys the object, whose destructor
  finds the client pointer already reset.\<close>

definition flora_call_reply_end ::
  "'c cenv \<Rightarrow> 'c reply_impl \<Rightarrow> 'c client \<Rightarrow> 'c client option" where
  "flora_call_reply_end E reply s =
     Option.bind (reply_end E reply s) (\<lambda>(r, s). map_option snd (delete_ReplyImpl E r s))"

end
