(* ===== verification/ClientInv.thy ===== *)
theory ClientInv
  imports ClientC
begin

text \<open>
  The client as a transition system: the calls of the application, the turns of the two threads and
  the life of the \<open>Response\<close> objects the callers own, interleaved; and the invariant of its list of
  pending requests.
\<close>

section \<open>Steps\<close>

text \<open>\<open>w\<close> lists the synchronous calls in progress, with the addresses of their nodes and of their
  \<open>Response\<close> objects. A \<open>Response\<close> exists while its call is in progress; when the call has returned
  its owner may destroy it at any time. Asynchronous calls pass a function that can be called.

  One case of the code is left out: a synchronous call whose request cannot be written returns
  \<open>FLORA_CLI_ECONN\<close> but leaves its node in the list. What that leads to is shown in
  \<open>ClientDefects\<close>. The counter of the requests is a signed number whose overflow is undefined, so calls
  are made while it is below its maximum. \<open>F\<close> are the functions the application passes to
  asynchronous calls.\<close>

definition seq_left :: "'c client \<Rightarrow> bool" where
  "seq_left s \<longleftrightarrow> sint (cl_reqseq s) < 2 ^ 31 - 1"

inductive cl_step ::
  "'c cenv \<Rightarrow> nat set \<Rightarrow> 'c client \<times> (nat \<times> nat) list \<Rightarrow> 'c client \<times> (nat \<times> nat) list \<Rightarrow> bool" for E F where
  call_wait: "\<lbrakk>seq_left s; r \<in> live_resps s; client_call E in_cb name msg target r timeout s = Some (CallWaiting it, t)\<rbrakk> \<Longrightarrow>
    cl_step E F (s, w) (t, (it, r) # w)"
| call_fail: "\<lbrakk>seq_left s; client_call E in_cb name msg target r timeout s = Some (CallReturned code, t);
    code \<noteq> FLORA_CLI_ECONN\<rbrakk> \<Longrightarrow> cl_step E F (s, w) (t, w)"
| call_done: "\<lbrakk>(it, r) \<in> set w; call_check it s = Some (Some code, t)\<rbrakk> \<Longrightarrow>
    cl_step E F (s, w) (t, filter (\<lambda>p. fst p \<noteq> it) w)"
| call_late: "\<lbrakk>(it, r) \<in> set w; call_timeout it s = Some (code, t)\<rbrakk> \<Longrightarrow>
    cl_step E F (s, w) (t, filter (\<lambda>p. fst p \<noteq> it) w)"
| call_nb: "\<lbrakk>seq_left s; f \<in> F; client_call_nb E name msg target (Some f) timeout s = Some (code, t)\<rbrakk> \<Longrightarrow>
    cl_step E F (s, w) (t, w)"
| send: "\<lbrakk>m = (c, bs); send_buffer E m s = Some (ok, t)\<rbrakk> \<Longrightarrow> cl_step E F (s, w) (t, w)"
| recv: "\<lbrakk>recv_on s; recv_iter E outs s = Some t\<rbrakk> \<Longrightarrow> cl_step E F (s, w) (t, w)"
| keepalive: "\<lbrakk>keepalive_on s; keepalive_iter E timed_out s = Some t\<rbrakk> \<Longrightarrow> cl_step E F (s, w) (t, w)"
| close: "client_close E in_cb passive s = Some (code, t) \<Longrightarrow> cl_step E F (s, w) (t, w)"
| own: "cl_step E F (s, w) (s\<lparr>live_resps := insert r (live_resps s)\<rparr>, w)"
| disown: "r \<notin> snd ` set w \<Longrightarrow> cl_step E F (s, w) (s\<lparr>live_resps := live_resps s - {r}\<rparr>, w)"

text \<open>The states of a client that \<open>flora::Client::connect\<close> has handed out.\<close>

inductive cl_reachable :: "'c cenv \<Rightarrow> nat set \<Rightarrow> 'c client \<times> (nat \<times> nat) list \<Rightarrow> bool" for E F where
  connected: "flora_Client_connect E net uri ccb mcb opts script = Some (Some FLORA_CLI_SUCCESS, s) \<Longrightarrow>
    cl_reachable E F (s, [])"
| step: "\<lbrakk>cl_reachable E F p; cl_step E F p q\<rbrakk> \<Longrightarrow> cl_reachable E F q"

section \<open>Properties the receiving thread keeps\<close>

text \<open>Every partial function the receiving thread runs keeps what its handlers keep.\<close>

lemma received_loop_inv:
  assumes h: "\<And>cmd resp s ok t. P s \<Longrightarrow> run_handler E cmd resp s = Some (ok, t) \<Longrightarrow> P t"
    and "received_loop E sz off s = Some (ok, off', t)" and "P s"
  shows "P t"
proof -
  have "E' = E \<longrightarrow> P s \<longrightarrow> P (snd (snd y))" if "received_loop E' sz off s = Some y" for E' sz off s y
  proof (rule received_loop.raw_induct [where P = "\<lambda>E' sz off s y. E' = E \<longrightarrow> P s \<longrightarrow> P (snd (snd y))", OF _ that])
    fix f E' sz off s y
    assume IH: "\<And>E' sz off s y. f E' sz off s = Some y \<Longrightarrow> E' = E \<longrightarrow> P s \<longrightarrow> P (snd (snd y))"
      and prem: "(if \<not> off < sz then Some (True, off, s)
        else if sz - off < 8 then Some (True, off, s)
        else case binary_info (ccaps E') (drop (unat off) (rbuffer s)) of
            None \<Rightarrow> Some (False, off, s)
          | Some (version, len) \<Rightarrow>
              if sz - off < len then Some (True, off, s)
              else case caps_parse (ccaps E') (take (unat len) (drop (unat off) (rbuffer s))) of
                  None \<Rightarrow> Some (False, off, s)
                | Some resp \<Rightarrow>
                    case read_i32 (ccaps E') resp of
                      (None, _) \<Rightarrow> Some (False, off + len, s)
                    | (Some cmd, resp) \<Rightarrow>
                        Option.bind (run_handler E' cmd resp s)
                          (\<lambda>(ok, s). if ok then f E' sz (off + len) s else Some (False, off + len, s))) = Some y"
    show "E' = E \<longrightarrow> P s \<longrightarrow> P (snd (snd y))"
    proof (intro impI)
      assume e: "E' = E" and p: "P s"
      from prem consider "snd (snd y) = s"
        | cmd resp t where "run_handler E' cmd resp s = Some (False, t)" "snd (snd y) = t"
        | cmd resp t len where "run_handler E' cmd resp s = Some (True, t)" "f E' sz (off + len) t = Some y"
        by (auto simp: bind_eq_Some split: if_split_asm option.split_asm prod.split_asm)
      then show "P (snd (snd y))"
      proof cases
        case 2
        with h [OF p] e show ?thesis by simp
      next
        case 3
        from h [OF p] 3(1) e have "P t" by blast
        with IH [OF 3(2)] e show ?thesis by simp
      qed (use p in simp)
    qed
  qed
  from this [OF assms(2)] assms(3) show ?thesis by simp
qed

text \<open>Properties that do not look at the receive buffer, the authentication and the thread flags.\<close>

definition robust :: "('c client \<Rightarrow> bool) \<Rightarrow> bool" where
  "robust P \<longleftrightarrow> (\<forall>s b off ar n on. P s \<longrightarrow>
     P (s\<lparr>rbuffer := b\<rparr>) \<and> P (s\<lparr>rbuf_off := off\<rparr>) \<and> P (s\<lparr>ares_notified := n\<rparr>) \<and>
     P (s\<lparr>auth_result_set := ar\<rparr>) \<and> P (s\<lparr>recv_on := on\<rparr>))"

lemma robustD:
  assumes "robust P" and "P s"
  shows "P (s\<lparr>rbuffer := b\<rparr>)" and "P (s\<lparr>rbuf_off := off\<rparr>)" and "P (s\<lparr>ares_notified := n\<rparr>)"
    and "P (s\<lparr>auth_result_set := ar\<rparr>)" and "P (s\<lparr>recv_on := on\<rparr>)"
  using assms by (auto simp: robust_def)

lemma handle_received_inv:
  assumes r: "robust P" and h: "\<And>cmd resp s ok t. P s \<Longrightarrow> run_handler E cmd resp s = Some (ok, t) \<Longrightarrow> P t"
    and "handle_received E sz s = Some (ok, t)" and "P s"
  shows "P t"
proof -
  from assms(3) obtain k off u where u: "received_loop E sz 0 s = Some (k, off, u)"
    by (auto simp: handle_received_def)
  have p: "P u" using received_loop_inv [of P E, OF h u assms(4)] .
  show ?thesis using assms(3) u robustD(2) [OF r robustD(1) [OF r p]] robustD(2) [OF r p] p
    by (auto simp: handle_received_def split: if_splits)
qed

lemma recv_exit_inv:
  assumes r: "robust P" and c: "\<And>err s t. P s \<Longrightarrow> iclose E True err s = Some t \<Longrightarrow> P t"
    and "recv_exit E err s = Some t" and "P s"
  shows "P t"
  using assms(3,4) c robustD(5) [OF r] by (auto simp: recv_exit_def)

lemma recv_fail_inv: "robust P \<Longrightarrow> P s \<Longrightarrow> P (snd (recv_fail s))"
  using robustD(3,4) [of P] by (auto simp: recv_fail_def)

lemma recv_iter_inv:
  assumes r: "robust P" and h: "\<And>cmd resp s ok t. P s \<Longrightarrow> run_handler E cmd resp s = Some (ok, t) \<Longrightarrow> P t"
    and c: "\<And>err s t. P s \<Longrightarrow> iclose E True err s = Some t \<Longrightarrow> P t"
    and "recv_iter E outs s = Some t" and "P s"
  shows "P t"
proof -
  have exit: "P t" if "(let (err, s) = recv_fail u in recv_exit E err s) = Some t" "P u" for u
    using that recv_fail_inv [OF r that(2)] recv_exit_inv [OF r c] by (auto split: prod.splits)
  have st: "P (store_bytes bs s)" for bs using robustD(1) [OF r assms(5)] by (simp add: store_bytes_def)
  consider "recv_exit E FLORA_CLI_EINSUFF_BUF s = Some t" | "t = s"
    | "(let (err, s) = recv_fail s in recv_exit E err s) = Some t"
    | n bs ok u where "handle_received E n (store_bytes bs s) = Some (ok, u)"
        "(if ok then Some u else (let (err, s) = recv_fail u in recv_exit E err s)) = Some t"
  proof (cases "rbuf_off s = bufsize (options s)")
    case False
    with assms(4) obtain c where c: "connection s = Some c" by (cases "connection s") (simp_all add: recv_iter_def)
    show ?thesis
    proof (cases "conn_recv outs c")
      case None
      with False c assms(4) that(2) show ?thesis by (simp add: recv_iter_def)
    next
      case (Some x)
      obtain n bs where "x = (n, bs)" by (cases x)
      with False c Some assms(4) that(3,4) show ?thesis
        by (auto simp: recv_iter_def bind_eq_Some split: if_splits)
    qed
  qed (use assms(4) in \<open>simp add: recv_iter_def\<close>)
  then show ?thesis
  proof cases
    case 1
    show ?thesis using recv_exit_inv [of P E, OF r c 1 assms(5)] .
  next
    case 3
    then show ?thesis using assms(5) by (rule exit)
  next
    case 4
    have "P u" using handle_received_inv [of P E, OF r h 4(1) st] .
    with 4(2) exit show ?thesis by (auto split: if_splits)
  qed (use assms(5) in simp)
qed

section \<open>The invariant\<close>

text \<open>The list of pending requests, seen with the synchronous calls in progress: nodes are distinct
  and older than the next one; the nodes of synchronous requests are exactly those of the calls in
  progress, and their responses exist; asynchronous requests have a function to call.\<close>

definition requests_ok :: "(nat \<times> nat) list \<Rightarrow> nat set \<Rightarrow> nat \<Rightarrow> pending_request list \<Rightarrow> bool" where
  "requests_ok w live nxt prs \<longleftrightarrow>
     distinct (map pr_node prs) \<and> (\<forall>pr\<in>set prs. pr_node pr < nxt) \<and>
     (\<forall>pr\<in>set prs. \<forall>r. pr_result pr = Some r \<longrightarrow> (pr_node pr, r) \<in> set w) \<and>
     (\<forall>(it, r)\<in>set w. r \<in> live \<and> (\<exists>pr\<in>set prs. pr_node pr = it \<and> pr_result pr = Some r)) \<and>
     (\<forall>pr\<in>set prs. pr_result pr = None \<longrightarrow> pr_callback pr \<noteq> None)"

definition client_inv :: "(nat \<times> nat) list \<Rightarrow> 'c client \<Rightarrow> bool" where
  "client_inv w s \<longleftrightarrow>
     connection s \<noteq> None \<and> requests_ok w (live_resps s) (next_node s) (pending_requests s)"

lemma robust_client_inv: "robust (client_inv w)"
  by (simp add: robust_def client_inv_def)

lemma requests_ok_same_node:
  "requests_ok w live nxt prs \<Longrightarrow> pr \<in> set prs \<Longrightarrow> qr \<in> set prs \<Longrightarrow> pr_node pr = pr_node qr \<Longrightarrow> pr = qr"
  by (simp add: requests_ok_def distinct_map inj_on_def)

lemma requests_ok_upd:
  assumes "requests_ok w live nxt prs"
    and "\<And>p. pr_node (f p) = pr_node p" and "\<And>p. pr_result (f p) = pr_result p"
    and "\<And>p. pr_callback (f p) = pr_callback p"
  shows "requests_ok w live nxt (upd_node n f prs)"
proof -
  define g where "g p = (if pr_node p = n then f p else p)" for p
  have g: "pr_node (g p) = pr_node p" "pr_result (g p) = pr_result p" "pr_callback (g p) = pr_callback p" for p
    by (simp_all add: g_def assms(2-4))
  have u: "upd_node n f prs = map g prs" by (simp add: upd_node_def g_def)
  have "pr_node \<circ> g = pr_node" by (simp add: fun_eq_iff g)
  then show ?thesis using assms(1) unfolding requests_ok_def u by (fastforce simp: g)
qed

text \<open>Erasing a node: one of an asynchronous request, or one whose call returns.\<close>

lemma requests_ok_erase_async:
  assumes "requests_ok w live nxt prs" and "pr \<in> set prs" and "pr_result pr = None"
  shows "requests_ok w live nxt (filter (\<lambda>p. pr_node p \<noteq> pr_node pr) prs)"
proof -
  have "pr_node qr \<noteq> pr_node pr" if "qr \<in> set prs" "pr_result qr = Some r" for qr r
    using requests_ok_same_node [OF assms(1) that(1) assms(2)] that(2) assms(3) by auto
  then show ?thesis using assms(1) unfolding requests_ok_def
    by (auto simp: distinct_map_filter) blast
qed

lemma requests_ok_erase_done:
  assumes "requests_ok w live nxt prs"
  shows "requests_ok (filter (\<lambda>p. fst p \<noteq> it) w) live nxt (filter (\<lambda>p. pr_node p \<noteq> it) prs)"
  using assms unfolding requests_ok_def by (auto simp: distinct_map_filter)

lemma requests_ok_flush:
  "requests_ok w live nxt prs \<Longrightarrow> requests_ok w live nxt (filter (\<lambda>pr. pr_result pr \<noteq> None) prs)"
  unfolding requests_ok_def by (auto simp: distinct_map_filter) blast

lemma find_SomeD: "find P xs = Some x \<Longrightarrow> x \<in> set xs \<and> P x"
  by (auto simp: find_Some_iff)

section \<open>Preservation\<close>

text \<open>What most messages do: they tell the application something that is not the answer to a call, and
  change who sent the last message.\<close>

definition tells :: "'c client \<Rightarrow> 'c client \<Rightarrow> bool" where
  "tells s t \<longleftrightarrow> (\<exists>us tg sn. t = s\<lparr>cl_tag := tg, sender_name := sn, upcalls := upcalls s @ us\<rparr> \<and>
     (\<forall>f code r. UpResp f code r \<notin> set us))"

lemma tells_refl [simp]: "tells s s"
  unfolding tells_def by (rule exI [of _ "[]"], rule exI [of _ "cl_tag s"], rule exI [of _ "sender_name s"]) simp

lemma tells_tag: "tells s (s\<lparr>cl_tag := tg\<rparr>)"
  unfolding tells_def by (rule exI [of _ "[]"], rule exI [of _ tg], rule exI [of _ "sender_name s"]) simp

lemma tells_sender: "tells s (s\<lparr>cl_tag := tg, sender_name := sn\<rparr>)"
  unfolding tells_def by (rule exI [of _ "[]"], rule exI [of _ tg], rule exI [of _ sn]) simp

lemma tells_emit: "(\<And>f code r. u \<noteq> UpResp f code r) \<Longrightarrow> tells s (emit u s)"
  unfolding tells_def emit_def
  by (rule exI [of _ "[u]"], rule exI [of _ "cl_tag s"], rule exI [of _ "sender_name s"]) auto

lemma tells_trans:
  assumes "tells s t" and "tells t u"
  shows "tells s u"
proof -
  from assms obtain us vs tg tg' sn sn' where
    "t = s\<lparr>cl_tag := tg, sender_name := sn, upcalls := upcalls s @ us\<rparr>" "\<forall>f code r. UpResp f code r \<notin> set us"
    "u = t\<lparr>cl_tag := tg', sender_name := sn', upcalls := upcalls t @ vs\<rparr>" "\<forall>f code r. UpResp f code r \<notin> set vs"
    unfolding tells_def by blast
  then show ?thesis unfolding tells_def
    by (intro exI [of _ "us @ vs"] exI [of _ tg'] exI [of _ sn']) simp
qed

lemma tells_fields:
  assumes "tells s t"
  shows "pending_requests t = pending_requests s" "connection t = connection s" "live_resps t = live_resps s"
    "next_node t = next_node s" "cl_reqseq t = cl_reqseq s" "options t = options s" "rbuffer t = rbuffer s"
    "rbuf_off t = rbuf_off s" "cmd_handler t = cmd_handler s" "mon_callback t = mon_callback s"
    "cli_callback t = cli_callback s" "responses t = responses s" "weak_ptr t = weak_ptr s"
  using assms by (auto simp: tells_def)

lemma monitor_handler_tells:
  assumes "k < 11" and "(monitor_handlers E ! k) resp s = Some (ok, t)"
  shows "tells s t"
proof -
  from assms(1) have "k \<in> {0, 1, 2, 3, 4, 5, 6, 7, 8, 9, 10}" unfolding insert_iff empty_iff by presburger
  with assms(2) show ?thesis
    by (auto simp: monitor_handlers_def handle_monitor_list_all_def handle_monitor_list_add_def
        handle_monitor_list_remove_def handle_monitor_sub_all_def handle_monitor_sub_add_def
        handle_monitor_sub_remove_def handle_monitor_decl_all_def handle_monitor_decl_add_def
        handle_monitor_decl_remove_def handle_monitor_post_def handle_monitor_call_def
        intro!: tells_emit split: option.splits if_splits)
qed

lemma on_monitor_tells:
  assumes "on_monitor_resp E resp s = Some (ok, t)"
  shows "tells s t"
proof (cases "\<not> mon_callback s \<or> fst (read_u32 (ccaps E) resp) = None")
  case True
  with assms have "t = s"
    by (cases "mon_callback s"; cases "read_u32 (ccaps E) resp") (auto simp: on_monitor_resp_def)
  then show ?thesis by simp
next
  case False
  then obtain k resp' where k: "read_u32 (ccaps E) resp = (Some k, resp')" "mon_callback s"
    by (cases "read_u32 (ccaps E) resp") auto
  show ?thesis
  proof (cases "MONITOR_SUBTYPE_NUM \<le> k")
    case True
    with assms k show ?thesis by (auto simp: on_monitor_resp_def)
  next
    case False
    then have "unat k < 11" by (simp add: MONITOR_SUBTYPE_NUM_def word_le_nat_alt)
    moreover have "(monitor_handlers E ! unat k) resp' s = Some (ok, t)"
      using assms k False by (simp add: on_monitor_resp_def)
    ultimately show ?thesis by (rule monitor_handler_tells)
  qed
qed

text \<open>What a message can do to the requests: nothing; answer a synchronous one, whose caller is told
  in its node; or answer an asynchronous one, whose function is called and whose node goes.\<close>

inductive answers :: "'c client \<Rightarrow> 'c client \<Rightarrow> bool" where
  told_only: "tells s t \<Longrightarrow> answers s t"
| auth: "answers s (s\<lparr>ares_result := a, ares_notified := True, cmd_handler := AfterAuth\<rparr>)"
| sync: "\<lbrakk>tells s t; pr \<in> set (pending_requests s); pr_result pr = Some r\<rbrakk> \<Longrightarrow>
    answers s (t\<lparr>pending_requests := upd_node (pr_node pr) (\<lambda>p. p\<lparr>pr_id := 0, pr_rcode := code\<rparr>) (pending_requests s),
      responses := rs\<rparr>)"
| async: "\<lbrakk>tells s t; pr \<in> set (pending_requests s); pr_result pr = None; pr_callback pr = Some f\<rbrakk> \<Longrightarrow>
    answers s (emit (UpResp f code resp) (erase_node (pr_node pr) t))"
| dropped: "\<lbrakk>tells s t; pr \<in> set (pending_requests s); pr_result pr = None; pr_callback pr = None\<rbrakk> \<Longrightarrow>
    answers s (erase_node (pr_node pr) t)"

lemma on_reply_answers:
  assumes "on_reply_resp E resp s = Some (ok, t)"
  shows "answers s t"
proof (cases "resp_parse_reply (ccaps E) (undef_response E) resp")
  case None
  with assms show ?thesis by (auto simp: on_reply_resp_def intro: answers.told_only)
next
  case (Some x)
  obtain i code response tg where x: "x = (i, code, response, tg)" by (rule prod_cases4)
  let ?u = "s\<lparr>cl_tag := tg\<rparr>"
  show ?thesis
  proof (cases "find (\<lambda>pr. pr_id pr = i) (pending_requests s)")
    case None
    with assms Some x show ?thesis by (auto simp: on_reply_resp_def intro: answers.told_only tells_tag)
  next
    case pr: (Some pr)
    then have m: "pr \<in> set (pending_requests s)" by (auto dest: find_SomeD)
    show ?thesis
    proof (cases "pr_result pr")
      case None
      show ?thesis
      proof (cases "pr_callback pr")
        case cb: None
        with assms Some x pr None have "t = erase_node (pr_node pr) ?u" by (simp add: on_reply_resp_def)
        with answers.dropped [OF tells_tag m None cb] show ?thesis by simp
      next
        case cb: (Some f)
        with assms Some x pr None show ?thesis
          by (auto simp: on_reply_resp_def intro!: answers.async [OF tells_tag m None cb])
      qed
    next
      case r: (Some r)
      define v where "v = ?u\<lparr>pending_requests := upd_node (pr_node pr) (\<lambda>p. p\<lparr>pr_id := 0, pr_rcode := code\<rparr>) (pending_requests s)\<rparr>"
      have "t = v\<lparr>responses := responses t\<rparr>"
        using assms Some x pr r by (auto simp: on_reply_resp_def v_def Let_def split: if_splits)
      also have "answers s \<dots>" unfolding v_def
        using answers.sync [OF tells_tag m r] by simp
      finally show ?thesis .
    qed
  qed
qed

lemma run_handler_answers:
  assumes "run_handler E cmd resp s = Some (ok, t)"
  shows "answers s t"
proof (cases "cmd_handler s")
  case BeforeAuth
  then have "t = s \<or> (\<exists>a. t = s\<lparr>ares_result := a, ares_notified := True, cmd_handler := AfterAuth\<rparr>)"
    using assms by (auto simp: run_handler_def handle_cmd_before_auth_def split: if_splits option.splits)
  then show ?thesis by (auto intro: answers.intros)
next
  case AfterAuth
  note te = tells_trans [OF tells_sender tells_emit]
  have "answers s t" if "on_post_resp E resp s = Some (ok, t)"
    using that by (auto simp: on_post_resp_def Let_def intro!: answers.told_only te tells_sender split: option.splits if_splits)
  moreover have "answers s t" if "on_call_resp E resp s = Some (ok, t)"
    using that by (auto simp: on_call_resp_def Let_def intro!: answers.told_only te tells_sender split: option.splits if_splits)
  moreover have "answers s t" if "on_monitor_resp E resp s = Some (ok, t)"
    using on_monitor_tells [OF that] by (rule answers.told_only)
  ultimately show ?thesis
    using assms AfterAuth on_reply_answers answers.told_only [OF tells_refl]
    by (auto simp: run_handler_def handle_cmd_after_auth_def split: if_splits)
qed

text \<open>An answer keeps the invariant, and so does every step.\<close>

lemma answers_connection: "answers s t \<Longrightarrow> connection t = connection s"
  by (induction rule: answers.induct) (auto simp: emit_def erase_node_def dest: tells_fields(2))

lemma answers_inv:
  assumes "answers s t" and "client_inv w s"
  shows "client_inv w t"
  using assms
proof (induction rule: answers.induct)
  case (sync s t pr r code rs)
  then show ?case
    by (auto simp: client_inv_def tells_fields [OF sync(1)] intro!: requests_ok_upd)
next
  case (async s t pr f code resp)
  then show ?case using requests_ok_erase_async [of w _ _ "pending_requests s" pr]
    by (auto simp: client_inv_def tells_fields [OF async(1)] emit_def erase_node_def)
next
  case (dropped s t pr)
  then show ?case using requests_ok_erase_async [of w _ _ "pending_requests s" pr]
    by (auto simp: client_inv_def tells_fields [OF dropped(1)] erase_node_def)
qed (auto simp: client_inv_def tells_fields)

definition called_back :: "'c cenv \<Rightarrow> i32 \<Rightarrow> pending_request list \<Rightarrow> 'c upcall list" where
  "called_back E err prs = map (\<lambda>pr. UpResp (the (pr_callback pr)) err (undef_response E)) (filter (\<lambda>pr. pr_result pr = None) prs)"

lemma iterate_callbacks:
  "\<forall>pr\<in>set prs. pr_callback pr \<noteq> None \<Longrightarrow>
   iterate (\<lambda>cb s. map_option (\<lambda>f. emit (UpResp f err x) s) cb) (map pr_callback prs) s =
     Some (s\<lparr>upcalls := upcalls s @ map (\<lambda>pr. UpResp (the (pr_callback pr)) err x) prs\<rparr>)"
  by (induction prs arbitrary: s) (auto simp: emit_def)

lemma iterate_emits:
  "iterate (\<lambda>cb s. map_option (\<lambda>f. emit (UpResp f err x) s) cb) cbs s = Some t \<Longrightarrow> \<exists>us. t = s\<lparr>upcalls := us\<rparr>"
proof (induction cbs arbitrary: s)
  case Nil
  then show ?case by (auto intro: exI [of _ "upcalls s"])
next
  case (Cons cb cbs)
  then obtain f where f: "cb = Some f" by (cases cb) auto
  with Cons.prems have "iterate (\<lambda>cb s. map_option (\<lambda>f. emit (UpResp f err x) s) cb) cbs (emit (UpResp f err x) s) = Some t"
    by simp
  from Cons.IH [OF this] show ?case by (auto simp: emit_def)
qed

lemma iclose_keeps:
  assumes "iclose E passiv err s = Some t"
  shows "cmd_handler t = cmd_handler s" "mon_callback t = mon_callback s" "recv_on t = recv_on s"
    "cl_reqseq t = cl_reqseq s" "responses t = responses s" "ares_result t = ares_result s"
proof -
  have "t = s \<or> (\<exists>c r prs us. t = s\<lparr>connection := c, close_reason := r, pending_requests := prs, upcalls := us\<rparr>)"
  proof (cases "connection s = None \<or> conn_closed (the (connection s))")
    case True
    with assms show ?thesis by (auto simp: iclose_def split: option.splits if_splits)
  next
    case False
    then obtain c where c: "connection s = Some c" "\<not> conn_closed c" by auto
    let ?u = "s\<lparr>connection := Some (conn_close c), close_reason := err,
      pending_requests := filter (\<lambda>pr. pr_result pr \<noteq> None) (pending_requests s)\<rparr>"
    from assms c obtain v where v: "iterate (\<lambda>cb s. map_option (\<lambda>f. emit (UpResp f err (undef_response E)) s) cb)
        (map pr_callback (filter (\<lambda>pr. pr_result pr = None) (pending_requests s))) ?u = Some v"
      and t: "t = (if passiv then
                    (let s = (if cli_callback v then emit UpDisconnected v else v)
                     in if mon_callback s then emit MonDisconnected s else s) else v)"
      by (auto simp: iclose_def Let_def)
    from iterate_emits [OF v] obtain us where "v = ?u\<lparr>upcalls := us\<rparr>" by blast
    with t show ?thesis by (auto simp: emit_def Let_def)
  qed
  then show "cmd_handler t = cmd_handler s" "mon_callback t = mon_callback s" "recv_on t = recv_on s"
    "cl_reqseq t = cl_reqseq s" "responses t = responses s" "ares_result t = ares_result s" by auto
qed

definition goodbyes :: "bool \<Rightarrow> 'c client \<Rightarrow> 'c upcall list" where
  "goodbyes passive s =
     (if passive then (if cli_callback s then [UpDisconnected] else []) @
        (if mon_callback s then [MonDisconnected] else []) else [])"

text \<open>Closing an open client: every asynchronous call is answered with the error and forgotten.\<close>

lemma iclose_open:
  assumes "requests_ok w live nxt (pending_requests s)" and "connection s = Some c" and "\<not> conn_closed c"
  shows "iclose E passive err s = Some
    (s\<lparr>connection := Some (conn_close c), close_reason := err,
       pending_requests := filter (\<lambda>pr. pr_result pr \<noteq> None) (pending_requests s),
       upcalls := upcalls s @ called_back E err (pending_requests s) @ goodbyes passive s\<rparr>)"
proof -
  have cb: "\<forall>pr\<in>set (filter (\<lambda>pr. pr_result pr = None) (pending_requests s)). pr_callback pr \<noteq> None"
    using assms(1) by (auto simp: requests_ok_def)
  show ?thesis using assms(2,3)
    by (simp add: iclose_def iterate_callbacks [OF cb] called_back_def goodbyes_def Let_def)
      (auto simp: emit_def)
qed

lemma iclose_closed: "connection s = Some c \<Longrightarrow> conn_closed c \<Longrightarrow> iclose E passive err s = Some s"
  by (simp add: iclose_def)

lemma client_invE:
  assumes "client_inv w s"
  obtains c where "connection s = Some c" "requests_ok w (live_resps s) (next_node s) (pending_requests s)"
  using assms by (auto simp: client_inv_def)

lemma iclose_inv:
  assumes "client_inv w s"
  shows "\<exists>t. iclose E passive err s = Some t \<and> client_inv w t \<and> is_closed t = Some True"
proof -
  from assms obtain c where c: "connection s = Some c" "requests_ok w (live_resps s) (next_node s) (pending_requests s)"
    by (rule client_invE)
  show ?thesis
  proof (cases "conn_closed c")
    case True
    with c assms show ?thesis by (simp add: iclose_closed is_closed_def)
  next
    case False
    with iclose_open [OF c(2,1)] requests_ok_flush [OF c(2)] show ?thesis
      by (simp add: client_inv_def is_closed_def)
  qed
qed

lemma iclose_inv': "client_inv w s \<Longrightarrow> iclose E passive err s = Some t \<Longrightarrow> client_inv w t"
  using iclose_inv [of w s E "passive" err] by auto

lemma recv_iter_client_inv: "recv_iter E outs s = Some t \<Longrightarrow> client_inv w s \<Longrightarrow> client_inv w t"
  by (rule recv_iter_inv [OF robust_client_inv, of w E]) (blast dest: run_handler_answers intro: answers_inv iclose_inv')+

lemma send_buffer_fields:
  assumes "send_buffer E m s = Some (ok, t)"
  shows "\<exists>c c'. connection s = Some c \<and> t = s\<lparr>connection := Some c'\<rparr> \<and> conn_closed c' = conn_closed c \<and>
    (ok \<longrightarrow> \<not> conn_closed c)"
proof -
  from assms obtain c where c: "connection s = Some c" by (cases "connection s") (simp_all add: send_buffer_def)
  obtain k c' where k: "conn_send (cwrite E) (fst m) (snd m) c = (k, c')" by fastforce
  with assms c have "t = s\<lparr>connection := Some c'\<rparr>" "ok = k" by (auto simp: send_buffer_def)
  with c k conn_send_ready [of "cwrite E" "fst m" "snd m" c] conn_send_closed [of c "cwrite E" "fst m" "snd m"]
  show ?thesis by auto
qed

lemma send_buffer_inv: "send_buffer E m s = Some (ok, t) \<Longrightarrow> client_inv w s \<Longrightarrow> client_inv w t"
  by (drule send_buffer_fields) (auto simp: client_inv_def)

lemma client_inv_same:
  "\<lbrakk>client_inv w s; connection t = connection s; live_resps t = live_resps s; next_node t = next_node s;
    pending_requests t = pending_requests s\<rbrakk> \<Longrightarrow> client_inv w t"
  by (simp add: client_inv_def)

text \<open>The effects of the calls.\<close>

lemma requests_ok_add_sync:
  assumes "requests_ok w live nxt prs" and "r \<in> live"
  shows "requests_ok ((nxt, r) # w) live (nxt + 1)
    (prs @ [\<lparr>pr_node = nxt, pr_id = i, pr_rcode = 0, pr_result = Some r, pr_callback = None\<rparr>])"
  using assms unfolding requests_ok_def by fastforce

lemma requests_ok_add_async:
  assumes "requests_ok w live nxt prs"
  shows "requests_ok w live (nxt + 1)
    (prs @ [\<lparr>pr_node = nxt, pr_id = i, pr_rcode = 0, pr_result = None, pr_callback = Some f\<rparr>])"
  using assms unfolding requests_ok_def by fastforce

lemma reqseq_same: "\<exists>n. s = s\<lparr>cl_reqseq := n\<rparr>"
  by (rule exI [of _ "cl_reqseq s"]) simp

lemma client_call_cases:
  assumes "client_call E in_cb name msg target r timeout s = Some (st, t)"
  obtains (early) "\<exists>n. t = s\<lparr>cl_reqseq := n\<rparr>" "\<exists>code. st = CallReturned code \<and> code \<noteq> FLORA_CLI_ECONN"
  | (sent) m ok where
      "send_buffer E m (add_pending (Some r) None (s\<lparr>cl_reqseq := cl_reqseq s + 1\<rparr>)) = Some (ok, t)"
      "st = (if ok then CallWaiting (next_node s) else CallReturned FLORA_CLI_ECONN)"
proof -
  let ?s = "s\<lparr>cl_reqseq := cl_reqseq s + 1\<rparr>"
  let ?m = "req_serialize_call (ccaps E) name msg target (cl_reqseq ?s) timeout (bufsize (options s)) (cl_serialize_flags s)"
  have codes: "FLORA_CLI_EINVAL \<noteq> FLORA_CLI_ECONN" "FLORA_CLI_EMONITOR \<noteq> FLORA_CLI_ECONN"
    "FLORA_CLI_EDEADLOCK \<noteq> FLORA_CLI_ECONN" by (simp_all add: flora_consts)
  show ?thesis
  proof (cases "name = None \<or> is_monitor (opt_flags (options s)) \<or> in_cb \<or> sint (fst ?m) \<le> 0")
    case True
    with assms codes reqseq_same [of s] show ?thesis
      by (intro early) (auto simp: client_call_def Let_def split: if_splits)
  next
    case False
    then obtain ok where "send_buffer E ?m (add_pending (Some r) None ?s) = Some (ok, t)"
        "st = (if ok then CallWaiting (next_node s) else CallReturned FLORA_CLI_ECONN)"
      using assms by (auto simp: client_call_def Let_def add_pending_def)
    then show ?thesis by (rule sent)
  qed
qed

lemma client_call_nb_cases:
  assumes "client_call_nb E name msg target cb timeout s = Some (code, t)"
  obtains (early) "\<exists>n. t = s\<lparr>cl_reqseq := n\<rparr>" "code \<noteq> FLORA_CLI_SUCCESS" "code \<noteq> FLORA_CLI_ECONN"
  | (sent) m ok where
      "send_buffer E m (add_pending None cb (s\<lparr>cl_reqseq := cl_reqseq s + 1\<rparr>)) = Some (ok, t)"
      "code = (if ok then FLORA_CLI_SUCCESS else FLORA_CLI_ECONN)"
proof -
  let ?s = "s\<lparr>cl_reqseq := cl_reqseq s + 1\<rparr>"
  let ?m = "req_serialize_call (ccaps E) name msg target (cl_reqseq ?s) timeout (bufsize (options s)) (cl_serialize_flags s)"
  have codes: "FLORA_CLI_EINVAL \<noteq> FLORA_CLI_ECONN" "FLORA_CLI_EMONITOR \<noteq> FLORA_CLI_ECONN"
    "FLORA_CLI_EINVAL \<noteq> FLORA_CLI_SUCCESS" "FLORA_CLI_EMONITOR \<noteq> FLORA_CLI_SUCCESS" by (simp_all add: flora_consts)
  show ?thesis
  proof (cases "name = None \<or> is_monitor (opt_flags (options s)) \<or> sint (fst ?m) \<le> 0")
    case True
    with assms codes reqseq_same [of s] show ?thesis
      by (intro early) (auto simp: client_call_nb_def Let_def split: if_splits)
  next
    case False
    then obtain ok where "send_buffer E ?m (add_pending None cb ?s) = Some (ok, t)"
        "code = (if ok then FLORA_CLI_SUCCESS else FLORA_CLI_ECONN)"
      using assms by (auto simp: client_call_nb_def Let_def)
    then show ?thesis by (rule sent)
  qed
qed

lemma call_check_cases:
  assumes "call_check it s = Some (Some code, t)"
  shows "t = erase_node it s"
  using assms by (auto simp: call_check_def bind_eq_Some split: if_splits)

lemma keepalive_fields:
  assumes "keepalive_iter E timed_out s = Some t"
  shows "t = s \<or> t = s\<lparr>keepalive_on := False\<rparr> \<or> 
    (\<exists>ok. send_buffer E (req_serialize_ping (ccaps E) (bufsize (options s)) (cl_serialize_flags s)) s = Some (ok, t))"
  using assms by (auto simp: keepalive_iter_def bind_eq_Some client_ping_def Let_def split: if_splits)

lemma cl_step_inv:
  assumes "cl_step E F p q"
  shows "client_inv (snd p) (fst p) \<Longrightarrow> client_inv (snd q) (fst q)"
  using assms
proof (induction rule: cl_step.induct)
  case (call_wait s r in_cb name msg target timeout it t w)
  from call_wait(3) show ?case
  proof (cases rule: client_call_cases)
    case (sent m ok)
    have "client_inv ((next_node s, r) # w) (add_pending (Some r) None (s\<lparr>cl_reqseq := cl_reqseq s + 1\<rparr>))"
      using call_wait(1,2,4) requests_ok_add_sync by (simp add: client_inv_def add_pending_def)
    with sent(2) send_buffer_inv [OF sent(1)] show ?thesis by (auto split: if_splits)
  qed simp
next
  case (call_fail s in_cb name msg target r timeout code t w)
  from call_fail(2) show ?case
  proof (cases rule: client_call_cases)
    case early
    with call_fail(4) show ?thesis by (auto simp: client_inv_def)
  qed (use call_fail(3) in \<open>simp split: if_splits\<close>)
next
  case (call_done it r w s code t)
  with call_check_cases [OF call_done(2)] requests_ok_erase_done show ?case
    by (simp add: client_inv_def erase_node_def)
next
  case (call_late it r w s code t)
  then have "t = erase_node it s" by (auto simp: call_timeout_def)
  with call_late requests_ok_erase_done show ?case by (simp add: client_inv_def erase_node_def)
next
  case (call_nb s f name msg target timeout code t w)
  from call_nb(3) show ?case
  proof (cases rule: client_call_nb_cases)
    case early
    with call_nb(4) show ?thesis by (auto simp: client_inv_def)
  next
    case (sent m ok)
    have "client_inv w (add_pending None (Some f) (s\<lparr>cl_reqseq := cl_reqseq s + 1\<rparr>))"
      using call_nb(1,4) requests_ok_add_async by (simp add: client_inv_def add_pending_def)
    with send_buffer_inv [OF sent(1)] show ?thesis by auto
  qed
next
  case (keepalive s timed_out t w)
  from keepalive_fields [OF keepalive(2)] show ?case
  proof (elim disjE exE)
    fix ok assume "send_buffer E (req_serialize_ping (ccaps E) (bufsize (options s)) (cl_serialize_flags s)) s = Some (ok, t)"
    from send_buffer_inv [OF this] keepalive(3) show ?thesis by simp
  qed (use keepalive(3) in \<open>auto simp: client_inv_def\<close>)
next
  case (close in_cb passv s code t w)
  from close(1) consider "t = s" | u where "iclose E passv FLORA_CLI_ECLOSED s = Some u"
      "t = u\<lparr>recv_on := False, cmd_handler := BeforeAuth, keepalive_on := False\<rparr>"
    by (auto simp: client_close_def split: if_splits)
  then show ?case
  proof cases
    case 2
    from iclose_inv' [OF _ 2(1)] close(2) have "client_inv w u" by simp
    with 2(2) show ?thesis by (simp add: client_inv_def)
  qed (use close in simp)
next
  case (disown r w s)
  then have "requests_ok w (live_resps s - {r}) (next_node s) (pending_requests s)"
    by (force simp: client_inv_def requests_ok_def)
  with disown show ?case by (simp add: client_inv_def)
next
  case (send m c bs s ok t w)
  from send_buffer_inv [OF send(2)] send(3) show ?case by simp
next
  case (recv s outs t w)
  from recv_iter_client_inv [OF recv(2)] recv(3) show ?case by simp
next
  case (own s w r)
  then have "requests_ok w (insert r (live_resps s)) (next_node s) (pending_requests s)"
    by (auto simp: client_inv_def requests_ok_def)
  with own show ?case by (simp add: client_inv_def)
qed

section \<open>Connected clients\<close>

lemma connect_open_fields:
  assumes "connect_open E net uri mcb s = Some (r, t)"
  shows "(r \<noteq> FLORA_CLI_SUCCESS \<and> t = s) \<or>
    (\<exists>c fl. r = FLORA_CLI_SUCCESS \<and> sock_ready c \<and>
      t = s\<lparr>connection := Some c, cl_serialize_flags := fl, mon_callback := mcb, recv_on := True\<rparr>)"
proof -
  have codes: "FLORA_CLI_EINVAL \<noteq> FLORA_CLI_SUCCESS" "FLORA_CLI_ECONN \<noteq> FLORA_CLI_SUCCESS"
    by (simp_all add: flora_consts)
  have u: "connect_unix fd reach path c = Some (True, c') \<Longrightarrow> sock_ready c'" for fd reach path c c'
    by (auto simp: connect_unix_def Let_def split: if_splits)
  have t: "connect_tcp fd dns reach port c = (True, c') \<Longrightarrow> sock_ready c'" for fd dns reach port c c'
    by (auto simp: connect_tcp_def Let_def split: if_splits option.splits)
  show ?thesis
    using assms codes
    by (auto simp: connect_open_def split: option.splits if_splits prod.splits dest: u t)
qed

lemma recv_until_woken_inv:
  "recv_until_woken E script s = Some t \<Longrightarrow> client_inv w s \<Longrightarrow> client_inv w t"
proof (induction script arbitrary: s)
  case (Cons outs script)
  then show ?case by (auto simp: bind_eq_Some split: if_splits dest: recv_iter_client_inv)
qed simp

lemma auth_send_inv: "auth_send E extra flags s = Some (r, t) \<Longrightarrow> client_inv w s \<Longrightarrow> client_inv w t"
  by (auto simp: auth_send_def Let_def client_inv_def split: if_splits dest!: send_buffer_fields)

text \<open>What \<open>Client::connect\<close> did when it succeeded.\<close>

lemma client_connect_success:
  assumes "client_connect E net uri ccb mcb script s = Some (Some FLORA_CLI_SUCCESS, t)"
  shows "\<exists>s1 s2 s3 extra. connect_open E net uri mcb s = Some (FLORA_CLI_SUCCESS, s1) \<and>
    auth_send E extra (opt_flags (options s1)) s1 = Some (None, s2) \<and>
    recv_until_woken E script s2 = Some s3 \<and> ares_notified s3 \<and> ares_result s3 = FLORA_CLI_SUCCESS \<and>
    t = s3\<lparr>auth_result_set := False, keepalive_on := True, cli_callback := ccb, auth_extra := extra\<rparr>"
proof -
  from assms obtain r s1 where s1: "connect_open E net uri mcb s = Some (r, s1)"
    by (auto simp: client_connect_def bind_eq_Some)
  with assms have r: "r = FLORA_CLI_SUCCESS" by (auto simp: client_connect_def split: if_splits)
  let ?x = "u_fragment (the (uri_parse E (the uri)))"
  from assms s1 r obtain ar s2 where s2: "auth_send E ?x (opt_flags (options s1)) s1 = Some (ar, s2)"
    by (auto simp: client_connect_def Let_def bind_eq_Some)
  have fin: "r = FLORA_CLI_SUCCESS" if "connect_finish E r x ccb u = Some (FLORA_CLI_SUCCESS, t)" for r x u
    using that by (auto simp: connect_finish_def split: if_splits)
  have "ar = None"
  proof (cases ar)
    case (Some a)
    with assms s1 r s2 have "a = FLORA_CLI_SUCCESS" by (auto simp: client_connect_def Let_def dest: fin)
    with Some s2 show ?thesis
      by (auto simp: auth_send_def Let_def FLORA_CLI_EAUTH_def FLORA_CLI_SUCCESS_def split: if_splits)
  qed simp
  with assms s1 r s2 obtain s3 where s3: "recv_until_woken E script s2 = Some s3" "ares_notified s3"
      "connect_finish E (ares_result s3) ?x ccb (s3\<lparr>auth_result_set := False\<rparr>) = Some (FLORA_CLI_SUCCESS, t)"
    by (auto simp: client_connect_def auth_return_def Let_def bind_eq_Some split: if_splits)
  from fin [OF s3(3)] have "ares_result s3 = FLORA_CLI_SUCCESS" .
  with s1 r s2 s3 \<open>ar = None\<close> show ?thesis by (auto simp: connect_finish_def)
qed

lemma flora_connect_inv:
  assumes "flora_Client_connect E net uri ccb mcb opts script = Some (Some FLORA_CLI_SUCCESS, s)"
  shows "client_inv [] s"
proof -
  from assms obtain t where t: "client_connect E net uri ccb mcb script (new_Client (connect_options opts)) =
      Some (Some FLORA_CLI_SUCCESS, t)" and s: "s = t\<lparr>weak_ptr := True\<rparr>"
    by (auto simp: flora_Client_connect_def)
  from client_connect_success [OF t] obtain s1 s2 s3 x where
    c: "connect_open E net uri mcb (new_Client (connect_options opts)) = Some (FLORA_CLI_SUCCESS, s1)"
      "auth_send E x (opt_flags (options s1)) s1 = Some (None, s2)" "recv_until_woken E script s2 = Some s3"
    and t': "t = s3\<lparr>auth_result_set := False, keepalive_on := True, cli_callback := ccb, auth_extra := x\<rparr>"
    by blast
  from connect_open_fields [OF c(1)] have "client_inv [] s1"
    by (auto simp: client_inv_def requests_ok_def new_Client_def)
  from recv_until_woken_inv [OF c(3) auth_send_inv [OF c(2) this]] have "client_inv [] s3" .
  then show ?thesis by (simp add: s t' client_inv_def)
qed

lemma cl_reachable_inv: "cl_reachable E F (s, w) \<Longrightarrow> client_inv w s"
proof -
  have "cl_reachable E F p \<Longrightarrow> client_inv (snd p) (fst p)" for p
    by (induction rule: cl_reachable.induct) (auto simp: flora_connect_inv dest: cl_step_inv)
  then show "cl_reachable E F (s, w) \<Longrightarrow> client_inv w s" by fastforce
qed

section \<open>The ids of the requests\<close>

text \<open>The ids of the unanswered requests are positive, not above the counter, and distinct; an
  answered synchronous request has id 0.\<close>

definition ids_ok :: "i32 \<Rightarrow> pending_request list \<Rightarrow> bool" where
  "ids_ok seq prs \<longleftrightarrow> 0 \<le> sint seq \<and>
     (\<forall>pr\<in>set prs. pr_id pr \<noteq> 0 \<longrightarrow> 0 < sint (pr_id pr) \<and> sint (pr_id pr) \<le> sint seq) \<and>
     distinct (filter (\<lambda>i. i \<noteq> 0) (map pr_id prs)) \<and>
     (\<forall>pr\<in>set prs. pr_result pr = None \<longrightarrow> pr_id pr \<noteq> 0)"

definition client_ids :: "'c client \<Rightarrow> bool" where
  "client_ids s \<longleftrightarrow> ids_ok (cl_reqseq s) (pending_requests s)"

lemma distinct_ids_filter:
  "distinct (filter P (map g xs)) \<Longrightarrow> distinct (filter P (map g (filter Q xs)))"
  by (induction xs) auto

lemma ids_ok_filter: "ids_ok seq prs \<Longrightarrow> ids_ok seq (filter Q prs)"
  by (simp add: ids_ok_def distinct_ids_filter)

lemma ids_upd_subset:
  "set (filter (\<lambda>i. i \<noteq> 0) (map pr_id (upd_node n (\<lambda>p. p\<lparr>pr_id := 0, pr_rcode := c\<rparr>) prs)))
     \<subseteq> set (filter (\<lambda>i. i \<noteq> 0) (map pr_id prs))"
  by (auto simp: upd_node_def)

lemma distinct_ids_upd:
  "distinct (filter (\<lambda>i. i \<noteq> 0) (map pr_id prs)) \<Longrightarrow>
   distinct (filter (\<lambda>i. i \<noteq> 0) (map pr_id (upd_node n (\<lambda>p. p\<lparr>pr_id := 0, pr_rcode := c\<rparr>) prs)))"
proof (induction prs)
  case (Cons p prs)
  let ?u = "upd_node n (\<lambda>p. p\<lparr>pr_id := 0, pr_rcode := c\<rparr>)"
  have u: "?u (p # prs) = (if pr_node p = n then p\<lparr>pr_id := 0, pr_rcode := c\<rparr> else p) # ?u prs"
    by (simp add: upd_node_def)
  from Cons.prems have d: "distinct (filter (\<lambda>i. i \<noteq> 0) (map pr_id prs))"
    and n: "pr_id p \<noteq> 0 \<longrightarrow> pr_id p \<notin> set (filter (\<lambda>i. i \<noteq> 0) (map pr_id prs))"
    by (auto split: if_splits)
  from n ids_upd_subset [of n c prs] have "pr_id p \<noteq> 0 \<longrightarrow> pr_id p \<notin> set (filter (\<lambda>i. i \<noteq> 0) (map pr_id (?u prs)))"
    by blast
  with Cons.IH [OF d] show ?case unfolding u by simp
qed (simp add: upd_node_def)

lemma ids_ok_upd:
  assumes "requests_ok w live nxt prs" and "pr \<in> set prs" and "pr_result pr = Some r" and "ids_ok seq prs"
  shows "ids_ok seq (upd_node (pr_node pr) (\<lambda>p. p\<lparr>pr_id := 0, pr_rcode := c\<rparr>) prs)"
proof -
  have "pr_result qr \<noteq> None" if "qr \<in> set prs" "pr_node qr = pr_node pr" for qr
    using requests_ok_same_node [OF assms(1) that(1) assms(2) that(2)] assms(3) by simp
  then have "\<forall>qr\<in>set (upd_node (pr_node pr) (\<lambda>p. p\<lparr>pr_id := 0, pr_rcode := c\<rparr>) prs). pr_result qr = None \<longrightarrow> pr_id qr \<noteq> 0"
    using assms(4) unfolding upd_node_def ids_ok_def by fastforce
  moreover have "\<forall>qr\<in>set (upd_node (pr_node pr) (\<lambda>p. p\<lparr>pr_id := 0, pr_rcode := c\<rparr>) prs).
      pr_id qr \<noteq> 0 \<longrightarrow> 0 < sint (pr_id qr) \<and> sint (pr_id qr) \<le> sint seq"
    using assms(4) unfolding upd_node_def ids_ok_def by fastforce
  ultimately show ?thesis
    using assms(4) distinct_ids_upd [of prs "pr_node pr" c] unfolding ids_ok_def by blast
qed

lemma sint_inc: "0 \<le> sint (x :: 32 word) \<Longrightarrow> sint x < 2 ^ 31 - 1 \<Longrightarrow> sint (x + 1) = sint x + 1"
  by (simp add: sint_word_ariths signed_take_bit_int_eq_self)


lemma ids_ok_add:
  assumes "ids_ok seq prs" and "sint seq < 2 ^ 31 - 1"
  shows "ids_ok (seq + 1) (prs @ [\<lparr>pr_node = n, pr_id = seq + 1, pr_rcode = 0, pr_result = r, pr_callback = f\<rparr>])"
proof -
  have z: "0 \<le> sint seq" using assms(1) by (simp add: ids_ok_def)
  note i = sint_inc [OF z assms(2)]
  have "seq + 1 \<noteq> 0"
  proof
    assume "seq + 1 = 0"
    with i z show False by simp
  qed
  moreover have "pr_id pr \<noteq> seq + 1" if "pr \<in> set prs" for pr
    using that assms(1) i z by (cases "pr_id pr = 0") (force simp: ids_ok_def)+
  ultimately show ?thesis using assms(1) i z unfolding ids_ok_def by force
qed

lemma ids_ok_seq:
  assumes "ids_ok seq prs" and "sint seq < 2 ^ 31 - 1"
  shows "ids_ok (seq + 1) prs"
proof -
  have z: "0 \<le> sint seq" using assms(1) by (simp add: ids_ok_def)
  show ?thesis using assms(1) sint_inc [OF z assms(2)] by (fastforce simp: ids_ok_def)
qed

lemma answers_reqseq: "answers s t \<Longrightarrow> cl_reqseq t = cl_reqseq s"
  by (induction rule: answers.induct) (auto simp: emit_def erase_node_def dest: tells_fields(5))

lemma answers_ids:
  assumes "answers s t" and "client_inv w s" and "client_ids s"
  shows "client_ids t"
  using assms
proof (induction rule: answers.induct)
  case (sync s t pr r code rs)
  then show ?case using ids_ok_upd [of w _ _ "pending_requests s" pr r]
    by (auto simp: client_inv_def client_ids_def tells_fields [OF sync(1)])
next
  case (async s t pr f code resp)
  then show ?case by (simp add: client_ids_def emit_def erase_node_def tells_fields [OF async(1)] ids_ok_filter)
next
  case (dropped s t pr)
  then show ?case by (simp add: client_ids_def erase_node_def tells_fields [OF dropped(1)] ids_ok_filter)
qed (auto simp: client_ids_def tells_fields)

text \<open>The client before and after its ids are checked: both invariants together.\<close>

definition client_ok :: "(nat \<times> nat) list \<Rightarrow> 'c client \<Rightarrow> bool" where
  "client_ok w s \<longleftrightarrow> client_inv w s \<and> client_ids s"

lemma robust_client_ok: "robust (client_ok w)"
  by (simp add: robust_def client_ok_def client_inv_def client_ids_def)

lemma iclose_ok:
  assumes "client_ok w s" and "iclose E passiv err s = Some t"
  shows "client_ok w t"
proof -
  from assms(1) obtain c where c: "connection s = Some c" "requests_ok w (live_resps s) (next_node s) (pending_requests s)"
    by (auto simp: client_ok_def elim: client_invE)
  have "client_ids t"
  proof (cases "conn_closed c")
    case True
    with c assms show ?thesis by (simp add: iclose_closed client_ok_def)
  next
    case False
    with iclose_open [OF c(2,1)] assms show ?thesis by (auto simp: client_ids_def client_ok_def ids_ok_filter)
  qed
  with assms iclose_inv' show ?thesis by (auto simp: client_ok_def)
qed

lemma run_handler_ok: "client_ok w s \<Longrightarrow> run_handler E cmd resp s = Some (ok, t) \<Longrightarrow> client_ok w t"
  by (drule run_handler_answers) (auto simp: client_ok_def intro: answers_inv answers_ids)

lemma handle_received_ok: "handle_received E n s = Some (ok, t) \<Longrightarrow> client_ok w s \<Longrightarrow> client_ok w t"
  by (rule handle_received_inv [OF robust_client_ok, of w E]) (blast intro: run_handler_ok)+

lemma recv_iter_ok: "recv_iter E outs s = Some t \<Longrightarrow> client_ok w s \<Longrightarrow> client_ok w t"
  by (rule recv_iter_inv [OF robust_client_ok, of w E]) (blast intro: run_handler_ok iclose_ok)+

lemma client_call_seq:
  assumes "client_call E in_cb name msg target r timeout s = Some (CallReturned code, t)" "code \<noteq> FLORA_CLI_ECONN"
  shows "t = s \<or> t = s\<lparr>cl_reqseq := cl_reqseq s + 1\<rparr>"
  using assms by (auto simp: client_call_def Let_def split: if_splits)

lemma client_call_nb_seq:
  assumes "client_call_nb E name msg target cb timeout s = Some (code, t)" "code \<noteq> FLORA_CLI_SUCCESS" "code \<noteq> FLORA_CLI_ECONN"
  shows "t = s \<or> t = s\<lparr>cl_reqseq := cl_reqseq s + 1\<rparr>"
  using assms by (auto simp: client_call_nb_def Let_def split: if_splits)

lemma send_buffer_ids: "send_buffer E m s = Some (ok, t) \<Longrightarrow> client_ids t = client_ids s"
  by (drule send_buffer_fields) (auto simp: client_ids_def)

lemma cl_step_ids:
  assumes "cl_step E F p q"
  shows "client_inv (snd p) (fst p) \<Longrightarrow> client_ids (fst p) \<Longrightarrow> client_ids (fst q)"
  using assms
proof (induction rule: cl_step.induct)
  case (call_wait s r in_cb name msg target timeout it t w)
  from call_wait(3) show ?case
  proof (cases rule: client_call_cases)
    case (sent m ok)
    with call_wait(1,5) send_buffer_ids [OF sent(1)] ids_ok_add show ?thesis
      by (simp add: client_ids_def add_pending_def seq_left_def)
  qed simp
next
  case (call_fail s in_cb name msg target r timeout code t w)
  with client_call_seq [OF call_fail(2,3)] ids_ok_seq show ?case
    by (auto simp: client_ids_def seq_left_def)
next
  case (call_done it r w s code t)
  with call_check_cases [OF call_done(2)] show ?case by (simp add: client_ids_def erase_node_def ids_ok_filter)
next
  case (call_late it r w s code t)
  then have "t = erase_node it s" by (auto simp: call_timeout_def)
  with call_late show ?case by (simp add: client_ids_def erase_node_def ids_ok_filter)
next
  case (call_nb s f name msg target timeout code t w)
  from call_nb(3) show ?case
  proof (cases rule: client_call_nb_cases)
    case early
    with client_call_nb_seq [OF call_nb(3)] call_nb(1,5) ids_ok_seq show ?thesis
      by (auto simp: client_ids_def seq_left_def)
  next
    case (sent m ok)
    with call_nb(1,5) send_buffer_ids [OF sent(1)] ids_ok_add show ?thesis
      by (simp add: client_ids_def add_pending_def seq_left_def)
  qed
next
  case (send m c bs s ok t w)
  with send_buffer_ids [OF send(2)] show ?case by simp
next
  case (recv s outs t w)
  with recv_iter_ok [OF recv(2), of w] show ?case by (simp add: client_ok_def)
next
  case (keepalive s timed_out t w)
  from keepalive_fields [OF keepalive(2)] show ?case
  proof (elim disjE exE)
    fix ok assume "send_buffer E (req_serialize_ping (ccaps E) (bufsize (options s)) (cl_serialize_flags s)) s = Some (ok, t)"
    from send_buffer_ids [OF this] keepalive(4) show ?thesis by simp
  qed (use keepalive(4) in \<open>auto simp: client_ids_def\<close>)
next
  case (close in_cb passv s code t w)
  from close(1) consider "t = s" | u where "iclose E passv FLORA_CLI_ECLOSED s = Some u"
      "t = u\<lparr>recv_on := False, cmd_handler := BeforeAuth, keepalive_on := False\<rparr>"
    by (auto simp: client_close_def split: if_splits)
  then show ?case
  proof cases
    case 2
    from iclose_ok [OF _ 2(1), of w] close(2,3) have "client_ids u" by (simp add: client_ok_def)
    with 2(2) show ?thesis by (simp add: client_ids_def)
  qed (use close in simp)
qed (simp_all add: client_ids_def)

lemma flora_connect_ids:
  assumes "flora_Client_connect E net uri ccb mcb opts script = Some (Some FLORA_CLI_SUCCESS, s)"
  shows "client_ids s"
proof -
  from assms obtain t where t: "client_connect E net uri ccb mcb script (new_Client (connect_options opts)) =
      Some (Some FLORA_CLI_SUCCESS, t)" and s: "s = t\<lparr>weak_ptr := True\<rparr>"
    by (auto simp: flora_Client_connect_def)
  from client_connect_success [OF t] obtain s1 s2 s3 x where
    c: "connect_open E net uri mcb (new_Client (connect_options opts)) = Some (FLORA_CLI_SUCCESS, s1)"
      "auth_send E x (opt_flags (options s1)) s1 = Some (None, s2)" "recv_until_woken E script s2 = Some s3"
    and t': "t = s3\<lparr>auth_result_set := False, keepalive_on := True, cli_callback := ccb, auth_extra := x\<rparr>"
    by blast
  from connect_open_fields [OF c(1)] have "client_ok [] s1"
    by (auto simp: client_ok_def client_inv_def client_ids_def requests_ok_def ids_ok_def new_Client_def)
  then have "client_ok [] s2" using auth_send_inv [OF c(2)] c(2)
    by (auto simp: client_ok_def auth_send_def Let_def client_ids_def split: if_splits dest!: send_buffer_fields)
  moreover have "client_ok [] u \<Longrightarrow> recv_until_woken E scr u = Some v \<Longrightarrow> client_ok [] v" for scr u v
    by (induction scr arbitrary: u) (auto simp: bind_eq_Some split: if_splits dest: recv_iter_ok)
  ultimately have "client_ok [] s3" using c(3) by blast
  then show ?thesis by (simp add: s t' client_ok_def client_ids_def)
qed

lemma cl_step_ok: "cl_step E F (s, w) (t, w') \<Longrightarrow> client_ok w s \<Longrightarrow> client_ok w' t"
  using cl_step_inv [of E F "(s, w)" "(t, w')"] cl_step_ids [of E F "(s, w)" "(t, w')"] by (simp add: client_ok_def)

lemma cl_reachable_ok: "cl_reachable E F (s, w) \<Longrightarrow> client_ok w s"
proof -
  have "cl_reachable E F p \<Longrightarrow> client_ok (snd p) (fst p)" for p
  proof (induction rule: cl_reachable.induct)
    case (connected net uri ccb mcb opts script s)
    then show ?case using flora_connect_inv flora_connect_ids by (auto simp: client_ok_def)
  next
    case (step p q)
    then show ?case using cl_step_ok [of E F "fst p" "snd p" "fst q" "snd q"] by simp
  qed
  then show "cl_reachable E F (s, w) \<Longrightarrow> client_ok w s" by fastforce
qed

end
