(* ===== verification/ClientProps.thy ===== *)
theory ClientProps
  imports ClientInv
begin

text \<open>
  The receiving thread survives whatever the service sends: in every state of a connected client each
  turn of its loop has a defined result.
\<close>

section \<open>Robustness\<close>

definition steady :: "(nat \<times> nat) list \<Rightarrow> 'c client \<Rightarrow> bool" where
  "steady w s \<longleftrightarrow> client_ok w s \<and> cmd_handler s = AfterAuth \<and> \<not> mon_callback s"

lemma answers_handler: "answers s t \<Longrightarrow> cmd_handler s = AfterAuth \<Longrightarrow> cmd_handler t = AfterAuth"
  by (induction rule: answers.induct) (auto simp: emit_def erase_node_def dest: tells_fields(9))

lemma answers_mon: "answers s t \<Longrightarrow> mon_callback t = mon_callback s"
  by (induction rule: answers.induct) (auto simp: emit_def erase_node_def dest: tells_fields(10))

lemma run_handler_steady: "steady w s \<Longrightarrow> run_handler E cmd resp s = Some (ok, t) \<Longrightarrow> steady w t"
  using run_handler_ok [of w s E cmd resp ok t] run_handler_answers [of E cmd resp s ok t]
  by (simp add: steady_def answers_handler answers_mon)

lemma run_handler_defined:
  assumes "steady w s"
  shows "\<exists>ok t. run_handler E cmd resp s = Some (ok, t)"
proof -
  have "\<exists>x. on_reply_resp E resp s = Some x"
  proof (cases "resp_parse_reply (ccaps E) (undef_response E) resp")
    case None
    then show ?thesis by (auto simp: on_reply_resp_def)
  next
    case (Some x)
    obtain i code response tg where x: "x = (i, code, response, tg)" by (rule prod_cases4)
    have "r \<in> live_resps s" if "pr \<in> set (pending_requests s)" "pr_result pr = Some r" for pr r
      using assms that by (fastforce simp: steady_def client_ok_def client_inv_def requests_ok_def)
    with Some x show ?thesis
      by (auto simp: on_reply_resp_def Let_def split: option.split dest: find_SomeD)
  qed
  moreover have "\<exists>x. on_post_resp E resp s = Some x" "\<exists>x. on_call_resp E resp s = Some x"
    by (auto simp: on_post_resp_def on_call_resp_def Let_def split: option.split)
  ultimately show ?thesis using assms
    by (auto simp: steady_def run_handler_def handle_cmd_after_auth_def on_monitor_resp_def)
qed

lemma received_loop_defined:
  assumes "caps_nonempty (ccaps E)"
  shows "steady w s \<Longrightarrow> \<exists>x. received_loop E sz off s = Some x"
proof (induction "unat sz - unat off" arbitrary: off s rule: less_induct)
  case less
  show ?case
  proof (cases "\<not> off < sz \<or> sz - off < 8")
    case True
    then show ?thesis by (subst received_loop.simps) auto
  next
    case False
    then have o: "off < sz" "\<not> sz - off < 8" by simp_all
    show ?thesis
    proof (cases "binary_info (ccaps E) (drop (unat off) (rbuffer s))")
      case None
      with o show ?thesis by (subst received_loop.simps) auto
    next
      case (Some vl)
      obtain v len where vl: "vl = (v, len)" by (cases vl)
      show ?thesis
      proof (cases "sz - off < len \<or> caps_parse (ccaps E) (take (unat len) (drop (unat off) (rbuffer s))) = None")
        case True
        with o Some vl show ?thesis by (subst received_loop.simps) auto
      next
        case False
        then obtain resp where p: "\<not> sz - off < len"
            "caps_parse (ccaps E) (take (unat len) (drop (unat off) (rbuffer s))) = Some resp" by auto
        have "len \<noteq> 0" using p(2) assms by (auto simp: caps_nonempty_def)
        then have len: "0 < unat len" by (simp add: unat_gt_0)
        from p(1) o(1) have le: "unat len \<le> unat sz - unat off"
          by (simp add: word_less_nat_alt unat_sub_le)
        then have a: "unat (off + len) = unat off + unat len"
          using o(1) unat_lt32 [of sz] by (subst unat_add_le) (auto simp: word_less_nat_alt)
        obtain oc resp' where rd: "read_i32 (ccaps E) resp = (oc, resp')" by fastforce
        show ?thesis
        proof (cases oc)
          case None
          with o Some vl p rd show ?thesis by (subst received_loop.simps) auto
        next
          case cmd: (Some cmd)
          from run_handler_defined [OF less.prems] obtain ok t where h: "run_handler E cmd resp' s = Some (ok, t)" by blast
          have "\<exists>x. received_loop E sz (off + len) t = Some x"
            using a len le o(1) run_handler_steady [OF less.prems h] by (intro less.hyps) (simp_all add: word_less_nat_alt)
          with o Some vl p rd cmd h show ?thesis by (subst received_loop.simps) auto
        qed
      qed
    qed
  qed
qed

lemma recv_exit_defined: "client_inv w s \<Longrightarrow> \<exists>t. recv_exit E err s = Some t"
  using iclose_inv [of w s E True err] by (auto simp: recv_exit_def)

lemma answers_ares: "answers s t \<Longrightarrow> ares_result t = ares_result s \<or> cmd_handler t = AfterAuth"
  by (induction rule: answers.induct) (auto simp: emit_def erase_node_def tells_def)

text \<open>A client whose receiving thread runs has authenticated.\<close>

lemma recv_iter_keeps:
  assumes "recv_iter E outs s = Some t"
  shows "mon_callback t = mon_callback s" and "cmd_handler s = AfterAuth \<Longrightarrow> cmd_handler t = AfterAuth"
    and "(ares_result s = FLORA_CLI_SUCCESS \<longrightarrow> cmd_handler s = AfterAuth) \<Longrightarrow>
      ares_result t = FLORA_CLI_SUCCESS \<longrightarrow> cmd_handler t = AfterAuth"
proof -
  have a: "mon_callback v = mon_callback u" "cmd_handler u = AfterAuth \<Longrightarrow> cmd_handler v = AfterAuth"
      "ares_result v = ares_result u \<or> cmd_handler v = AfterAuth" if "run_handler E cmd resp u = Some (ok, v)" for u v cmd resp ok
    using run_handler_answers [OF that] answers_mon answers_handler answers_ares by blast+
  show "mon_callback t = mon_callback s"
    by (rule recv_iter_inv [where P = "\<lambda>u. mon_callback u = mon_callback s", OF _ _ _ assms])
      (simp_all add: robust_def a iclose_keeps)
  show "cmd_handler s = AfterAuth \<Longrightarrow> cmd_handler t = AfterAuth"
    by (rule recv_iter_inv [where P = "\<lambda>u. cmd_handler u = AfterAuth", OF _ _ _ assms])
      (simp_all add: robust_def a iclose_keeps)
  show "(ares_result s = FLORA_CLI_SUCCESS \<longrightarrow> cmd_handler s = AfterAuth) \<Longrightarrow>
      ares_result t = FLORA_CLI_SUCCESS \<longrightarrow> cmd_handler t = AfterAuth"
  proof (rule recv_iter_inv [where P = "\<lambda>u. ares_result u = FLORA_CLI_SUCCESS \<longrightarrow> cmd_handler u = AfterAuth", OF _ _ _ assms])
    show "ares_result v = FLORA_CLI_SUCCESS \<longrightarrow> cmd_handler v = AfterAuth"
      if "ares_result u = FLORA_CLI_SUCCESS \<longrightarrow> cmd_handler u = AfterAuth" "run_handler E cmd resp u = Some (ok, v)"
      for cmd resp u ok v using that(1) a(2,3) [OF that(2)] by auto
  qed (simp_all add: robust_def iclose_keeps)
qed

lemma connect_after_auth:
  assumes "flora_Client_connect E net uri ccb mcb opts script = Some (Some FLORA_CLI_SUCCESS, s)"
  shows "cmd_handler s = AfterAuth"
proof -
  from assms obtain t where t: "client_connect E net uri ccb mcb script (new_Client (connect_options opts)) =
      Some (Some FLORA_CLI_SUCCESS, t)" and s: "s = t\<lparr>weak_ptr := True\<rparr>"
    by (auto simp: flora_Client_connect_def)
  let ?P = "\<lambda>u. ares_result u = FLORA_CLI_SUCCESS \<longrightarrow> cmd_handler u = AfterAuth"
  from client_connect_success [OF t] obtain s1 s2 s3 x where
    c: "auth_send E x (opt_flags (options s1)) s1 = Some (None, s2)" "recv_until_woken E script s2 = Some s3"
      "ares_result s3 = FLORA_CLI_SUCCESS"
    and t': "t = s3\<lparr>auth_result_set := False, keepalive_on := True, cli_callback := ccb, auth_extra := x\<rparr>"
    by blast
  have "?P s2" using c(1)
    by (auto simp: auth_send_def Let_def FLORA_CLI_EAUTH_def FLORA_CLI_SUCCESS_def split: if_splits dest!: send_buffer_fields)
  moreover have "?P u \<Longrightarrow> recv_until_woken E scr u = Some v \<Longrightarrow> ?P v" for scr u v
  proof (induction scr arbitrary: u)
    case (Cons outs scr)
    then show ?case using recv_iter_keeps(3) [of E outs u] by (auto simp: bind_eq_Some split: if_splits)
  qed simp
  ultimately have "cmd_handler s3 = AfterAuth" using c(2,3) by blast
  then show ?thesis by (simp add: s t')
qed

lemma cl_step_keeps:
  assumes "cl_step E F p q"
  shows "(recv_on (fst p) \<longrightarrow> cmd_handler (fst p) = AfterAuth) \<Longrightarrow> recv_on (fst q) \<longrightarrow> cmd_handler (fst q) = AfterAuth"
  using assms
proof (induction rule: cl_step.induct)
  case (call_wait s r in_cb name msg target timeout it t w)
  from call_wait(3) show ?case
  proof (cases rule: client_call_cases)
    case (sent m ok)
    with send_buffer_fields [OF sent(1)] call_wait(4) show ?thesis by (auto simp: add_pending_def)
  qed (use call_wait(4) in auto)
next
  case (call_fail s in_cb name msg target r timeout code t w)
  with client_call_seq [OF call_fail(2,3)] show ?case by auto
next
  case (call_done it r w s code t)
  with call_check_cases [OF call_done(2)] show ?case by (simp add: erase_node_def)
next
  case (call_late it r w s code t)
  then show ?case by (auto simp: call_timeout_def erase_node_def)
next
  case (call_nb s f name msg target timeout code t w)
  from call_nb(3) show ?case
  proof (cases rule: client_call_nb_cases)
    case (sent m ok)
    with send_buffer_fields [OF sent(1)] call_nb(4) show ?thesis by (auto simp: add_pending_def)
  qed (use call_nb(4) in auto)
next
  case (send m c bs s ok t w)
  with send_buffer_fields [OF send(2)] show ?case by auto
next
  case (recv s outs t w)
  with recv_iter_keeps(2) [OF recv(2)] show ?case by simp
next
  case (keepalive s timed_out t w)
  from keepalive_fields [OF keepalive(2)] keepalive(3) show ?case by (auto dest!: send_buffer_fields)
next
  case (close in_cb passv s code t w)
  then show ?case by (auto simp: client_close_def split: if_splits)
qed simp_all

lemma cl_reachable_after_auth:
  assumes "cl_reachable E F (s, w)" and "recv_on s"
  shows "cmd_handler s = AfterAuth"
proof -
  have "cl_reachable E F p \<Longrightarrow> recv_on (fst p) \<longrightarrow> cmd_handler (fst p) = AfterAuth" for p
    by (induction rule: cl_reachable.induct) (auto simp: connect_after_auth dest: cl_step_keeps)
  with assms show ?thesis by fastforce
qed



end
