(* ===== verification/ClientStream.thy ===== *)
theory ClientStream
  imports ClientProps
begin

text \<open>
  The client's end of the byte stream: \<open>handle_received\<close> meets the contract of a receiver
  (\<open>stream_receiver\<close>), with the state apart from the receive buffer as what the messages act on.
\<close>

section \<open>Handlers do not touch the buffer\<close>

definition with_buf :: "byte list \<Rightarrow> u32 \<Rightarrow> 'c client \<Rightarrow> 'c client" where
  "with_buf b n s = s\<lparr>rbuffer := b, rbuf_off := n\<rparr>"

definition rebuf :: "byte list \<Rightarrow> u32 \<Rightarrow> 'c handled \<Rightarrow> 'c handled" where
  "rebuf b n r = map_option (\<lambda>(ok, t). (ok, with_buf b n t)) r"

lemma with_buf_fields [simp]:
  "options (with_buf b n s) = options s" "connection (with_buf b n s) = connection s"
  "pending_requests (with_buf b n s) = pending_requests s" "cli_callback (with_buf b n s) = cli_callback s"
  "mon_callback (with_buf b n s) = mon_callback s" "weak_ptr (with_buf b n s) = weak_ptr s"
  "cmd_handler (with_buf b n s) = cmd_handler s" "auth_result_set (with_buf b n s) = auth_result_set s"
  "live_resps (with_buf b n s) = live_resps s" "responses (with_buf b n s) = responses s"
  "rbuffer (with_buf b n s) = b" "rbuf_off (with_buf b n s) = n" "with_buf b n (with_buf b' n' s) = with_buf b n s"
  "emit u (with_buf b n s) = with_buf b n (emit u s)" "erase_node k (with_buf b n s) = with_buf b n (erase_node k s)"
  by (simp_all add: with_buf_def emit_def erase_node_def)

lemma with_buf_updates:
  "(with_buf b n s)\<lparr>sender_name := sn\<rparr> = with_buf b n (s\<lparr>sender_name := sn\<rparr>)"
  "(with_buf b n s)\<lparr>cl_tag := tg\<rparr> = with_buf b n (s\<lparr>cl_tag := tg\<rparr>)"
  "(with_buf b n s)\<lparr>ares_result := a\<rparr> = with_buf b n (s\<lparr>ares_result := a\<rparr>)"
  "(with_buf b n s)\<lparr>ares_notified := x\<rparr> = with_buf b n (s\<lparr>ares_notified := x\<rparr>)"
  "(with_buf b n s)\<lparr>cmd_handler := h\<rparr> = with_buf b n (s\<lparr>cmd_handler := h\<rparr>)"
  "(with_buf b n s)\<lparr>pending_requests := prs\<rparr> = with_buf b n (s\<lparr>pending_requests := prs\<rparr>)"
  "(with_buf b n s)\<lparr>responses := rs\<rparr> = with_buf b n (s\<lparr>responses := rs\<rparr>)"
  by (simp_all add: with_buf_def)

lemma monitor_handlers_buf:
  assumes "k < 11"
  shows "(monitor_handlers E ! k) resp (with_buf b n s) = rebuf b n ((monitor_handlers E ! k) resp s)"
proof -
  from assms have "k \<in> {0, 1, 2, 3, 4, 5, 6, 7, 8, 9, 10}" unfolding insert_iff empty_iff by presburger
  then show ?thesis
    by (auto simp: monitor_handlers_def handle_monitor_list_all_def handle_monitor_list_add_def
        handle_monitor_list_remove_def handle_monitor_sub_all_def handle_monitor_sub_add_def
        handle_monitor_sub_remove_def handle_monitor_decl_all_def handle_monitor_decl_add_def
        handle_monitor_decl_remove_def handle_monitor_post_def handle_monitor_call_def rebuf_def
        option.map_comp comp_def intro!: map_option_cong split: option.split)
qed

lemma run_handler_buf: "run_handler E cmd resp (with_buf b n s) = rebuf b n (run_handler E cmd resp s)"
proof -
  have "on_post_resp E resp (with_buf b n s) = rebuf b n (on_post_resp E resp s)"
    "on_call_resp E resp (with_buf b n s) = rebuf b n (on_call_resp E resp s)"
    "handle_cmd_before_auth E cmd resp (with_buf b n s) = rebuf b n (handle_cmd_before_auth E cmd resp s)"
    by (auto simp: on_post_resp_def on_call_resp_def handle_cmd_before_auth_def rebuf_def with_buf_updates Let_def
        split: option.split)
  moreover have "on_reply_resp E resp (with_buf b n s) = rebuf b n (on_reply_resp E resp s)"
    by (auto simp: on_reply_resp_def rebuf_def with_buf_updates Let_def split: option.split)
  moreover have "on_monitor_resp E resp (with_buf b n s) = rebuf b n (on_monitor_resp E resp s)"
    using monitor_handlers_buf [where E = E]
    by (auto simp: on_monitor_resp_def rebuf_def MONITOR_SUBTYPE_NUM_def word_le_nat_alt split: option.split prod.split)
  ultimately show ?thesis
    by (auto simp: run_handler_def handle_cmd_after_auth_def rebuf_def split: handler.split)
qed

section \<open>One chunk\<close>

definition client_view :: "'c client \<Rightarrow> 'c client" where
  "client_view s = with_buf [] 0 s"

definition client_pend :: "'c client \<Rightarrow> byte list" where
  "client_pend s = take (unat (rbuf_off s)) (rbuffer s)"

text \<open>A turn of the receiving loop whose read delivers \<open>bs\<close>.\<close>

definition client_chunk :: "'c cenv \<Rightarrow> byte list \<Rightarrow> 'c client \<Rightarrow> 'c client option" where
  "client_chunk E bs s = recv_iter E [RoData bs] s"

definition client_fits :: "byte list \<Rightarrow> 'c client \<Rightarrow> bool" where
  "client_fits bs s \<longleftrightarrow> bs \<noteq> [] \<and> length bs \<le> unat (bufsize (options s)) - unat (rbuf_off s)"

text \<open>An open connection and a buffer of the size of the options, whose double, both buffers
  together, is a 32-bit number.\<close>

definition client_buf_ok :: "u32 \<Rightarrow> 'c client \<Rightarrow> bool" where
  "client_buf_ok sz s \<longleftrightarrow> bufsize (options s) = sz \<and> length (rbuffer s) = unat sz \<and> rbuf_off s \<le> sz \<and>
     2 * unat sz < 2 ^ 32 \<and> is_closed s = Some False"

lemma client_chunk_received:
  assumes "client_buf_ok sz s" and "client_fits bs s"
    and "handle_received E (rbuf_off s + word_of_nat (length bs)) (store_bytes bs s) = Some (True, t)"
  shows "client_chunk E bs s = Some t"
proof -
  from assms(1) obtain c where c: "connection s = Some c" "sock_ready c"
    by (auto simp: client_buf_ok_def is_closed_def conn_closed_def)
  have b: "length bs \<le> unat sz" "bs \<noteq> []" "unat (rbuf_off s) < unat sz" "2 * unat sz < 2 ^ 32" "bufsize (options s) = sz"
    using assms(1,2) by (auto simp: client_buf_ok_def client_fits_def neq_Nil_conv)
  have "sint (word_of_nat (length bs) :: 32 word) = int (length bs)"
    using b(1,4) by (simp add: signed_of_nat signed_take_bit_int_eq_self)
  with b(2) have "\<not> sint (word_of_nat (length bs) :: 32 word) \<le> 0" by simp
  moreover have "rbuf_off s \<noteq> bufsize (options s)" using b(3,5) by auto
  ultimately show ?thesis using c assms(3) by (simp add: client_chunk_def recv_iter_def conn_recv_def)
qed

definition client_deliver :: "'c cenv \<Rightarrow> byte list \<Rightarrow> 'c client \<Rightarrow> 'c client option" where
  "client_deliver E f v =
     (case caps_parse (ccaps E) f of
        None \<Rightarrow> None
      | Some resp \<Rightarrow>
          (case read_i32 (ccaps E) resp of
             (None, _) \<Rightarrow> None
           | (Some cmd, resp) \<Rightarrow>
               (case run_handler E cmd resp v of Some (True, v) \<Rightarrow> Some v | _ \<Rightarrow> None)))"

lemma answers_options: "answers s t \<Longrightarrow> options t = options s \<and> rbuffer t = rbuffer s \<and> rbuf_off t = rbuf_off s"
  by (induction rule: answers.induct) (auto simp: emit_def erase_node_def tells_def)

lemma client_deliver_step:
  assumes "client_deliver E f (client_view s) = Some v"
  shows "\<exists>resp cmd resp' t. caps_parse (ccaps E) f = Some resp \<and> read_i32 (ccaps E) resp = (Some cmd, resp') \<and>
    run_handler E cmd resp' s = Some (True, t) \<and> client_view t = v \<and>
    rbuffer t = rbuffer s \<and> rbuf_off t = rbuf_off s \<and> options t = options s \<and> connection t = connection s"
proof -
  from assms obtain resp cmd resp' where r: "caps_parse (ccaps E) f = Some resp" "read_i32 (ccaps E) resp = (Some cmd, resp')"
      "run_handler E cmd resp' (client_view s) = Some (True, v)"
    by (auto simp: client_deliver_def split: option.splits prod.splits bool.splits)
  then obtain t where t: "run_handler E cmd resp' s = Some (True, t)" "v = client_view t"
    by (auto simp: client_view_def run_handler_buf rebuf_def)
  with answers_options [OF run_handler_answers [OF t(1)]] answers_connection [OF run_handler_answers [OF t(1)]] r show ?thesis by blast
qed

lemma received_loop_frames:
  assumes "caps_header_law (ccaps E)"
  shows "\<lbrakk>drop (unat off) (rbuffer s) = concat fs @ p @ junk; unat sz = unat off + length (concat fs @ p);
    \<forall>f\<in>set fs. good_frame (ccaps E) bsz f; partial (ccaps E) bsz p;
    iterate (client_deliver E) fs (client_view s) = Some v\<rbrakk> \<Longrightarrow>
   \<exists>off' t. received_loop E sz off s = Some (True, off', t) \<and> unat off' = unat off + length (concat fs) \<and>
     client_view t = v \<and> rbuffer t = rbuffer s \<and> rbuf_off t = rbuf_off s \<and> options t = options s \<and>
     connection t = connection s"
proof (induction fs arbitrary: off s)
  case Nil
  have "received_loop E sz off s = Some (True, off, s)"
  proof (cases "off < sz \<and> \<not> sz - off < 8")
    case True
    then have d: "unat (sz - off) = length p" using Nil.prems(2) by (subst unat_sub_le) auto
    with True have l: "8 \<le> length p" by (simp add: word_less_nat_alt)
    from Nil.prems(4) obtain q v len where q: "q \<noteq> []" "binary_info (ccaps E) (p @ q) = Some (v, len)" "unat len = length (p @ q)"
      by (auto simp: partial_def is_frame_def split: option.splits)
    have "binary_info (ccaps E) (drop (unat off) (rbuffer s)) = Some (v, len)"
      using binary_info_prefix [OF assms l] Nil.prems(1) q(2) by simp
    moreover have "sz - off < len" using d q(1,3) by (simp add: word_less_nat_alt)
    ultimately show ?thesis using True by (subst received_loop.simps) simp
  qed (subst received_loop.simps, auto)
  with Nil show ?case by auto
next
  case (Cons f fs)
  from Cons.prems(3) obtain ver len where f: "8 \<le> length f" "binary_info (ccaps E) f = Some (ver, len)" "unat len = length f"
    by (auto simp: good_frame_def is_frame_def split: option.splits)
  have bi: "binary_info (ccaps E) (drop (unat off) (rbuffer s)) = Some (ver, len)"
    using binary_info_prefix [OF assms f(1)] Cons.prems(1) f(2) by simp
  have tk: "take (unat len) (drop (unat off) (rbuffer s)) = f" using Cons.prems(1) f(3) by simp
  have "length f \<le> length (concat (f # fs) @ p)" by simp
  with Cons.prems(2) f(1) have o: "off < sz" unfolding word_less_nat_alt by linarith
  have sz: "unat (sz - off) = length (concat (f # fs) @ p)"
    using Cons.prems(2) o by (simp add: unat_sub_le)
  have g: "\<not> sz - off < 8" "\<not> sz - off < len" using sz f(1,3) by (simp_all add: word_less_nat_alt)
  have no: "unat (off + len) = unat off + length f"
    using Cons.prems(2) f(3) unat_lt32 [of sz] by (subst unat_add_le) auto
  from Cons.prems(5) obtain v1 where v1: "client_deliver E f (client_view s) = Some v1"
      "iterate (client_deliver E) fs v1 = Some v" by (auto simp: bind_eq_Some)
  from client_deliver_step [OF v1(1)] obtain resp cmd resp' t where
    t: "caps_parse (ccaps E) f = Some resp" "read_i32 (ccaps E) resp = (Some cmd, resp')"
      "run_handler E cmd resp' s = Some (True, t)" "client_view t = v1" "rbuffer t = rbuffer s"
      "rbuf_off t = rbuf_off s" "options t = options s" "connection t = connection s" by blast
  have step: "received_loop E sz off s = received_loop E sz (off + len) t"
    using o g bi tk t by (subst received_loop.simps) simp
  have "drop (unat (off + len)) (rbuffer t) = concat fs @ p @ junk"
    using Cons.prems(1) t(5) no by (metis append_eq_conv_conj append.assoc concat.simps(2) drop_drop add.commute)
  then have "\<exists>off' u. received_loop E sz (off + len) t = Some (True, off', u) \<and>
      unat off' = unat (off + len) + length (concat fs) \<and> client_view u = v \<and> rbuffer u = rbuffer t \<and>
      rbuf_off u = rbuf_off t \<and> options u = options t \<and> connection u = connection t"
    using Cons.prems(2-4) no t(4) v1(2) by (intro Cons.IH) simp_all
  with step no t(5-8) show ?case by auto
qed

lemma store_bytes_pend:
  assumes "client_buf_ok sz s" and "client_fits bs s"
  shows "length (rbuffer (store_bytes bs s)) = unat sz"
    and "rbuffer (store_bytes bs s) = (client_pend s @ bs) @ drop (unat (rbuf_off s) + length bs) (rbuffer s)"
    and "unat (rbuf_off s + word_of_nat (length bs)) = length (client_pend s @ bs)"
    and "length (client_pend s @ bs) \<le> unat sz" and "client_view (store_bytes bs s) = client_view s"
proof -
  from assms have b: "length (rbuffer s) = unat sz" "unat (rbuf_off s) \<le> unat sz" "unat (rbuf_off s) + length bs \<le> unat sz"
    by (auto simp: client_buf_ok_def client_fits_def word_le_nat_alt)
  have lb: "unat (word_of_nat (length bs) :: u32) = length bs"
    using b(3) unat_lt32 [of sz] by (simp add: unat_of_nat)
  show "unat (rbuf_off s + word_of_nat (length bs)) = length (client_pend s @ bs)"
    using b lb unat_lt32 [of sz] by (subst unat_add_le) (simp_all add: client_pend_def)
  show "length (rbuffer (store_bytes bs s)) = unat sz" using b by (simp add: store_bytes_def)
  show "rbuffer (store_bytes bs s) = (client_pend s @ bs) @ drop (unat (rbuf_off s) + length bs) (rbuffer s)"
    by (simp add: store_bytes_def client_pend_def)
  show "length (client_pend s @ bs) \<le> unat sz" using b by (simp add: client_pend_def)
  show "client_view (store_bytes bs s) = client_view s" by (simp add: client_view_def with_buf_def store_bytes_def)
qed

interpretation cli: stream_receiver "ccaps E" sz "client_chunk E" client_fits "client_buf_ok sz" client_pend
  client_view "client_deliver E" for E sz
proof
  fix s :: "'a client" and bs fs p v
  assume *: "caps_header_law (ccaps E)" "client_buf_ok sz s" "client_fits bs s"
    "client_pend s @ bs = concat fs @ p" "\<forall>f\<in>set fs. good_frame (ccaps E) sz f" "partial (ccaps E) sz p"
    "iterate (client_deliver E) fs (client_view s) = Some v"
  let ?u = "store_bytes bs s" and ?n = "rbuf_off s + word_of_nat (length bs)"
  note sb = store_bytes_pend [OF *(2,3)]
  let ?junk = "drop (unat (rbuf_off s) + length bs) (rbuffer s)"
  have "\<exists>off t. received_loop E ?n 0 ?u = Some (True, off, t) \<and> unat off = unat (0 :: u32) + length (concat fs) \<and>
      client_view t = v \<and> rbuffer t = rbuffer ?u \<and> rbuf_off t = rbuf_off ?u \<and> options t = options ?u \<and>
      connection t = connection ?u"
    using sb(2,3,5) * by (intro received_loop_frames [where junk = ?junk]) simp_all
  then obtain off t where t: "received_loop E ?n 0 ?u = Some (True, off, t)" "unat off = length (concat fs)"
    "client_view t = v" "rbuffer t = rbuffer ?u" "options t = options ?u" "connection t = connection ?u" by auto
  define b where "b = (if 0 < off \<and> 0 < ?n - off
    then take (unat (?n - off)) (drop (unat off) (rbuffer t)) @ drop (unat (?n - off)) (rbuffer t) else rbuffer t)"
  have res: "client_chunk E bs s = Some (with_buf b (?n - off) t)"
    by (rule client_chunk_received [OF *(2,3)]) (simp add: handle_received_def t(1) b_def with_buf_def)
  have "unat ?n = length (concat fs) + length p" using sb(3) *(4) by simp
  then have no: "unat (?n - off) = length p" using t(2) by (subst unat_sub_le) (simp_all add: word_le_nat_alt)
  have buf: "rbuffer t = concat fs @ p @ ?junk" using sb(2) *(4) t(4) by simp
  have pb: "take (length p) b = p"
  proof (cases "0 < off \<and> 0 < ?n - off")
    case True
    then show ?thesis using no t(2) buf by (simp add: b_def)
  next
    case False
    then have "unat off = 0 \<or> unat (?n - off) = 0" by (auto simp: word_less_nat_alt)
    then have "concat fs = [] \<or> p = []" unfolding no t(2) by (simp only: length_0_conv)
    then have "take (length p) (concat fs @ p @ ?junk) = p"
    proof
      assume "concat fs = []"
      then show ?thesis by (simp only: append_Nil) simp
    qed simp
    moreover from False have "b = rbuffer t" unfolding b_def by (rule if_not_P)
    ultimately show ?thesis unfolding buf by simp
  qed
  have "length (concat fs) + length p \<le> unat sz" using sb(4) *(4) by simp
  then have "length b = unat sz" using sb(1) t(2,4) no by (simp add: b_def)
  moreover have "length p \<le> unat sz" using sb(4) *(4) by simp
  moreover have "options ?u = options s" "connection ?u = connection s" by (simp_all add: store_bytes_def)
  ultimately have "client_buf_ok sz (with_buf b (?n - off) t)"
    using *(2) t(5,6) no by (simp add: client_buf_ok_def word_le_nat_alt is_closed_def)
  moreover have "client_view (with_buf b (?n - off) t) = v" using t(3) by (simp add: client_view_def)
  moreover have "client_pend (with_buf b (?n - off) t) = p" using no pb by (simp add: client_pend_def)
  ultimately show "\<exists>t. client_chunk E bs s = Some t \<and> client_buf_ok sz t \<and> client_pend t = p \<and> client_view t = v"
    using res by blast
qed

text \<open>C24: The client's framing. However the kernel cuts what the service sends into chunks, handling
  them one after the other has exactly the effect of handling the messages of the stream one by one,
  in order, on the client's state, each turn of the receiving loop ending; the beginning of a message that is still incomplete stays in the
  receive buffer.\<close>

theorem client_frames_reassembled:
  assumes "caps_header_law (ccaps E)" and "client_buf_ok sz s" and "rbuf_off s = 0"
    and "all_fit (client_chunk E) client_fits bss s" and "concat bss = concat fs @ p"
    and "\<forall>f\<in>set fs. good_frame (ccaps E) sz f" and "partial (ccaps E) sz p"
    and "iterate (client_deliver E) fs (client_view s) = Some v"
  shows "\<exists>t. iterate (client_chunk E) bss s = Some t \<and> client_view t = v \<and> client_pend t = p"
proof -
  have "client_pend s = []" using assms(3) by (simp add: client_pend_def)
  moreover have "partial (ccaps E) sz []" using assms(7) by (auto simp: partial_def)
  ultimately show ?thesis
    using cli.feed_frames [OF assms(1,2) _ assms(4) _ assms(6-8)] assms(5) by auto
qed

end
