(* ===== verification/ClientCalls.thy ===== *)
theory ClientCalls
  imports ClientStream
begin

text \<open>
  Calls as the application sees them: a synchronous call returns, with its reply if that arrives in
  time; an asynchronous call has its function called exactly once.
\<close>

section \<open>Asynchronous calls\<close>

text \<open>How often the function \<open>f\<close> has been called, and how many pending requests will call it.\<close>

definition is_resp :: "nat \<Rightarrow> 'c upcall \<Rightarrow> bool" where
  "is_resp f u \<longleftrightarrow> (case u of UpResp g code r \<Rightarrow> g = f | _ \<Rightarrow> False)"

definition told :: "nat \<Rightarrow> 'c client \<Rightarrow> nat" where
  "told f s = length (filter (is_resp f) (upcalls s))"

definition waits :: "nat \<Rightarrow> pending_request \<Rightarrow> bool" where
  "waits f pr \<longleftrightarrow> pr_result pr = None \<and> pr_callback pr = Some f"

definition owed :: "nat \<Rightarrow> 'c client \<Rightarrow> nat" where
  "owed f s = length (filter (waits f) (pending_requests s))"

lemma is_resp_UpResp [simp]: "is_resp f (UpResp g code r) = (g = f)"
  by (simp add: is_resp_def)

lemma tells_told: "tells s t \<Longrightarrow> told f t = told f s"
  by (auto simp: tells_def told_def is_resp_def filter_empty_conv split: upcall.splits)

lemma owed_upd:
  "length (filter (waits f) (upd_node n (\<lambda>p. p\<lparr>pr_id := 0, pr_rcode := c\<rparr>) prs)) = length (filter (waits f) prs)"
  by (induction prs) (auto simp: upd_node_def waits_def)

lemma owed_erase:
  assumes "distinct (map pr_node prs)" and "pr \<in> set prs"
  shows "length (filter (waits f) prs) =
    length (filter (waits f) (filter (\<lambda>p. pr_node p \<noteq> pr_node pr) prs)) + (if waits f pr then 1 else 0)"
  using assms
proof (induction prs)
  case (Cons p prs)
  show ?case
  proof (cases "p = pr")
    case True
    with Cons.prems(1) have "\<forall>q\<in>set prs. pr_node q \<noteq> pr_node pr" by (auto simp: image_iff)
    then have "filter (\<lambda>q. pr_node q \<noteq> pr_node pr) prs = prs" by (simp add: filter_id_conv)
    with True show ?thesis by simp
  next
    case False
    with Cons.prems have "pr \<in> set prs" "pr_node p \<noteq> pr_node pr" by auto
    with Cons show ?thesis by auto
  qed
qed simp

text \<open>An answer calls a function exactly when it takes a request that waits for it.\<close>

lemma answers_told:
  assumes "answers s t" and "client_inv w s"
  shows "told f t + owed f t = told f s + owed f s"
  using assms
proof (induction rule: answers.induct)
  case (told_only s t)
  then show ?case by (simp add: tells_told owed_def tells_fields)
next
  case (sync s t pr r code rs)
  then show ?case using tells_told [OF sync(1), of f] by (simp add: told_def owed_def owed_upd)
next
  case (async s t pr g code resp)
  from async(5) have d: "distinct (map pr_node (pending_requests s))" by (simp add: client_inv_def requests_ok_def)
  from owed_erase [OF d async(2), of f] tells_told [OF async(1), of f] async(3,4) show ?case
    by (simp add: told_def owed_def emit_def erase_node_def tells_fields [OF async(1)] waits_def)
next
  case (dropped s t pr)
  from dropped(5) have d: "distinct (map pr_node (pending_requests s))" by (simp add: client_inv_def requests_ok_def)
  from owed_erase [OF d dropped(2), of f] tells_told [OF dropped(1), of f] dropped(3,4) show ?case
    by (simp add: told_def owed_def erase_node_def tells_fields [OF dropped(1)] waits_def)
qed (simp add: told_def owed_def)

lemma called_back_told:
  assumes "\<forall>pr\<in>set prs. pr_result pr = None \<longrightarrow> pr_callback pr \<noteq> None"
  shows "length (filter (is_resp f) (called_back E err prs)) = length (filter (waits f) prs)"
  using assms by (induction prs) (auto simp: called_back_def waits_def)

lemma goodbyes_told: "filter (is_resp f) (goodbyes b s) = []"
  by (simp add: goodbyes_def is_resp_def)

text \<open>The account of \<open>f\<close>: while the connection is open one call of the function is made or due;
  once it is closed it has been made.\<close>

definition balanced :: "nat \<Rightarrow> 'c client \<Rightarrow> bool" where
  "balanced f s \<longleftrightarrow> told f s + owed f s = 1 \<and> (is_closed s = Some True \<longrightarrow> owed f s = 0)"

definition account :: "nat \<Rightarrow> (nat \<times> nat) list \<Rightarrow> 'c client \<Rightarrow> bool" where
  "account f w s \<longleftrightarrow> client_ok w s \<and> balanced f s"

lemma balanced_same:
  "\<lbrakk>balanced f s; told f t = told f s; owed f t = owed f s; is_closed t = is_closed s\<rbrakk> \<Longrightarrow> balanced f t"
  by (simp add: balanced_def)

lemma robust_account: "robust (account f w)"
proof -
  have "robust (balanced f)" by (simp add: robust_def balanced_def told_def owed_def is_closed_def)
  with robust_client_ok [of w] show ?thesis unfolding robust_def account_def by blast
qed

lemma iclose_account:
  assumes "account f w s" and "iclose E b err s = Some t"
  shows "account f w t"
proof -
  from assms(1) have ok: "client_ok w s" by (simp add: account_def)
  then obtain c where c: "connection s = Some c" "requests_ok w (live_resps s) (next_node s) (pending_requests s)"
    by (auto simp: client_ok_def elim: client_invE)
  show ?thesis
  proof (cases "conn_closed c")
    case True
    with c assms show ?thesis by (simp add: iclose_closed)
  next
    case False
    from iclose_open [OF c(2,1) False] assms(2) have t: "t = s\<lparr>connection := Some (conn_close c), close_reason := err,
       pending_requests := filter (\<lambda>pr. pr_result pr \<noteq> None) (pending_requests s),
       upcalls := upcalls s @ called_back E err (pending_requests s) @ goodbyes b s\<rparr>" by simp
    have "\<forall>pr\<in>set (pending_requests s). pr_result pr = None \<longrightarrow> pr_callback pr \<noteq> None"
      using c(2) by (simp add: requests_ok_def)
    from called_back_told [OF this] have "told f t = told f s + owed f s"
      by (simp add: t told_def owed_def goodbyes_told)
    moreover have "owed f t = 0" by (auto simp: t owed_def waits_def filter_empty_conv)
    ultimately show ?thesis using assms(1) iclose_ok [OF ok assms(2)] by (simp add: account_def balanced_def)
  qed
qed

lemma run_handler_account:
  assumes "account f w s" and "run_handler E cmd resp s = Some (ok, t)"
  shows "account f w t"
proof -
  note a = run_handler_answers [OF assms(2)]
  have "told f t + owed f t = told f s + owed f s"
    using answers_told [OF a, of w f] assms(1) by (simp add: account_def client_ok_def)
  moreover have "owed f t = 0" if "owed f s = 0" "told f s + owed f s = 1"
  proof -
    have "told f s \<le> told f t" using a
      by (induction rule: answers.induct) (auto simp: told_def emit_def erase_node_def tells_def)
    with calculation that show ?thesis by simp
  qed
  moreover have "client_ok w t" using run_handler_ok [OF _ assms(2)] assms(1) by (simp add: account_def)
  moreover have "is_closed t = is_closed s" using answers_connection [OF a] by (simp add: is_closed_def)
  ultimately show ?thesis using assms(1) by (auto simp: account_def balanced_def)
qed

lemma recv_iter_account: "recv_iter E outs s = Some t \<Longrightarrow> account f w s \<Longrightarrow> account f w t"
  by (rule recv_iter_inv [OF robust_account, of f w E]) (blast intro: run_handler_account iclose_account)+

lemma send_buffer_account:
  assumes "send_buffer E m s = Some (ok, t)"
  shows "told f t = told f s" "owed f t = owed f s" "is_closed t = is_closed s"
  using send_buffer_fields [OF assms] by (auto simp: told_def owed_def is_closed_def)

lemma owed_erase_sync:
  assumes "client_inv w s" and "(it, r) \<in> set w"
  shows "owed f (erase_node it s) = owed f s"
proof -
  from assms obtain qr where q: "qr \<in> set (pending_requests s)" "pr_node qr = it" "pr_result qr = Some r"
    by (fastforce simp: client_inv_def requests_ok_def)
  have "pr_node pr \<noteq> it" if "pr \<in> set (pending_requests s)" "waits f pr" for pr
    using assms(1) q that requests_ok_same_node [of w _ _ "pending_requests s" pr qr]
    by (auto simp: client_inv_def waits_def)
  then have "filter (waits f) (filter (\<lambda>pr. pr_node pr \<noteq> it) (pending_requests s)) = filter (waits f) (pending_requests s)"
    by (auto simp: filter_filter intro: filter_cong)
  then show ?thesis by (simp add: owed_def erase_node_def)
qed

lemma cl_step_balanced:
  assumes "cl_step E F p q" and "f \<notin> F"
  shows "account f (snd p) (fst p) \<Longrightarrow> balanced f (fst q)"
  using assms(1)
proof (induction rule: cl_step.induct)
  case (call_wait s r in_cb name msg target timeout it t w)
  from call_wait(3) show ?case
  proof (cases rule: client_call_cases)
    case (sent m ok)
    with call_wait(4) send_buffer_account [OF sent(1)] show ?thesis
      by (simp add: account_def balanced_def told_def owed_def is_closed_def add_pending_def waits_def)
  qed simp
next
  case (call_fail s in_cb name msg target r timeout code t w)
  with client_call_seq [OF call_fail(2,3)] show ?case
    by (auto simp: account_def balanced_def told_def owed_def is_closed_def)
next
  case (call_done it r w s code t)
  with call_check_cases [OF call_done(2)] owed_erase_sync [OF _ call_done(1), of s f] show ?case
    by (auto simp: account_def client_ok_def told_def is_closed_def erase_node_def intro: balanced_same)
next
  case (call_late it r w s code t)
  then have "t = erase_node it s" by (auto simp: call_timeout_def)
  with call_late owed_erase_sync [OF _ call_late(1), of s f] show ?case
    by (auto simp: account_def client_ok_def told_def is_closed_def erase_node_def intro: balanced_same)
next
  case (call_nb s g name msg target timeout code t w)
  from call_nb(3) show ?case
  proof (cases rule: client_call_nb_cases)
    case early
    with call_nb(4) client_call_nb_seq [OF call_nb(3)] show ?thesis
      by (auto simp: account_def balanced_def told_def owed_def is_closed_def)
  next
    case (sent m ok)
    have "g \<noteq> f" using call_nb(2) assms(2) by auto
    with call_nb(4) send_buffer_account [OF sent(1)] show ?thesis
      by (simp add: account_def balanced_def told_def owed_def is_closed_def add_pending_def waits_def)
  qed
next
  case (send m c bs s ok t w)
  with send_buffer_account [OF send(2)] show ?case by (auto simp: account_def intro: balanced_same)
next
  case (recv s outs t w)
  with recv_iter_account [OF recv(2), of f w] show ?case by (simp add: account_def)
next
  case (keepalive s timed_out t w)
  from keepalive_fields [OF keepalive(2)] show ?case
  proof (elim disjE exE)
    fix ok' assume "send_buffer E (req_serialize_ping (ccaps E) (bufsize (options s)) (cl_serialize_flags s)) s = Some (ok', t)"
    from send_buffer_account [OF this] keepalive(3) show ?thesis by (auto simp: account_def intro: balanced_same)
  qed (use keepalive(3) in \<open>auto simp: account_def balanced_def told_def owed_def is_closed_def\<close>)
next
  case (close in_cb passv s code t w)
  from close(1) consider "t = s" | u where "iclose E passv FLORA_CLI_ECLOSED s = Some u"
      "t = u\<lparr>recv_on := False, cmd_handler := BeforeAuth, keepalive_on := False\<rparr>"
    by (auto simp: client_close_def split: if_splits)
  then show ?case
  proof cases
    case 2
    from iclose_account [OF _ 2(1), of f w] close(2) have "balanced f u" by (simp add: account_def)
    with 2(2) show ?thesis by (simp add: balanced_def told_def owed_def is_closed_def)
  qed (use close in \<open>simp add: account_def\<close>)
qed (simp_all add: account_def balanced_def told_def owed_def is_closed_def)

lemma cl_steps_account:
  assumes "(cl_step E F)\<^sup>*\<^sup>* p q" and "f \<notin> F" and "account f (snd p) (fst p)"
  shows "account f (snd q) (fst q)"
  using assms(1,3)
proof (induction rule: rtranclp_induct)
  case (step q r)
  then have "client_ok (snd r) (fst r)"
    using cl_step_ok [of E F "fst q" "snd q" "fst r" "snd r"] by (simp add: account_def)
  with step cl_step_balanced [OF step(2) assms(2)] show ?case by (simp add: account_def)
qed

text \<open>C9: An asynchronous call is answered exactly once. When a call with the function \<open>f\<close> has been
  accepted, then whatever happens afterwards, in whatever order (other calls, replies that belong to
  it or not, pings, a timeout of the connection, an error, \<open>close\<close>), \<open>f\<close> has been called at most once,
  it is due as long as it has not been called, and when the connection has been closed, by either
  side, it has been called.\<close>

theorem callback_exactly_once:
  assumes "cl_reachable E G (s, w)" and "seq_left s" and "told f s = 0" and "owed f s = 0"
    and "client_call_nb E name msg target (Some f) timeout s = Some (FLORA_CLI_SUCCESS, t)"
    and "(cl_step E F)\<^sup>*\<^sup>* (t, w) (u, w')" and "f \<notin> F"
  shows "told f u + owed f u = 1 \<and> (is_closed u = Some True \<longrightarrow> told f u = 1)"
proof -
  have "cl_step E (insert f G) (s, w) (t, w)" by (rule cl_step.call_nb [OF assms(2) _ assms(5)]) simp
  from cl_step_ok [OF this cl_reachable_ok [OF assms(1)]] have ok: "client_ok w t" .
  from assms(5) have "balanced f t"
  proof (cases rule: client_call_nb_cases)
    case (sent m ok)
    then have ok by (simp add: FLORA_CLI_SUCCESS_def FLORA_CLI_ECONN_def split: if_splits)
    with send_buffer_fields [OF sent(1)] have "is_closed t \<noteq> Some True"
      by (auto simp: is_closed_def add_pending_def)
    with assms(3,4) send_buffer_account [OF sent(1)] show ?thesis
      by (simp add: balanced_def told_def owed_def add_pending_def waits_def)
  qed simp
  with ok have "account f w t" by (simp add: account_def)
  from cl_steps_account [OF assms(6,7)] this have "balanced f u" by (simp add: account_def)
  then show ?thesis by (auto simp: balanced_def)
qed

section \<open>Synchronous calls\<close>

lemma waiting_node:
  assumes "client_inv w s" and "(it, r) \<in> set w"
  obtains pr where "find_node it s = Some pr" "pr \<in> set (pending_requests s)" "pr_node pr = it" "pr_result pr = Some r"
proof -
  from assms obtain qr where q: "qr \<in> set (pending_requests s)" "pr_node qr = it" "pr_result qr = Some r"
    by (fastforce simp: client_inv_def requests_ok_def)
  then obtain pr where p: "find_node it s = Some pr"
    by (cases "find_node it s") (auto simp: find_node_def find_None_iff)
  then have "pr \<in> set (pending_requests s)" "pr_node pr = it" by (auto simp: find_node_def dest: find_SomeD)
  with q assms(1) requests_ok_same_node [of w _ _ "pending_requests s" pr qr] have "pr = qr"
    by (auto simp: client_inv_def)
  with p q that show ?thesis by blast
qed

text \<open>C23: A synchronous call does not hang. In every reachable state, each call in progress can take
  its next turn; the turn after its deadline returns \<open>FLORA_CLI_ETIMEOUT\<close>; once the connection is
  closed, the next turn returns, with the reply's code if the reply had arrived and with the reason of
  the closing otherwise. When a call returns its request is gone from the list.\<close>

theorem call_completes:
  assumes "cl_reachable E F (s, w)" and "(it, r) \<in> set w"
  shows "(\<exists>t. call_timeout it s = Some (FLORA_CLI_ETIMEOUT, t) \<and> cl_reachable E F (t, filter (\<lambda>p. fst p \<noteq> it) w) \<and>
      find_node it t = None) \<and>
    (\<exists>res t. call_check it s = Some (res, t)) \<and>
    (is_closed s = Some True \<longrightarrow>
      (\<exists>pr t. find_node it s = Some pr \<and> find_node it t = None \<and>
        call_check it s = Some (Some (if pr_id pr = 0 then pr_rcode pr else close_reason s), t)))"
proof -
  from cl_reachable_inv [OF assms(1)] have inv: "client_inv w s" .
  from waiting_node [OF this assms(2)] obtain pr where pr: "find_node it s = Some pr" by blast
  from inv obtain c where c: "connection s = Some c" by (rule client_invE)
  have gone: "find_node it (erase_node it s) = None"
    by (simp add: find_node_def erase_node_def find_None_iff)
  have t: "call_timeout it s = Some (FLORA_CLI_ETIMEOUT, erase_node it s)" by (simp add: call_timeout_def pr)
  have "cl_reachable E F (erase_node it s, filter (\<lambda>p. fst p \<noteq> it) w)"
    by (rule cl_reachable.step [OF assms(1) cl_step.call_late [OF assms(2) t]])
  moreover have "call_check it s = Some (if pr_id pr = 0 then (Some (pr_rcode pr), erase_node it s)
      else if conn_closed c then (Some (close_reason s), erase_node it s) else (None, s))"
    by (simp add: call_check_def pr is_closed_def c)
  ultimately show ?thesis using t gone pr c by (auto simp: is_closed_def)
qed

text \<open>The node of a call keeps the id the call was sent with, until it is answered.\<close>

definition keeps_id :: "nat \<Rightarrow> i32 \<Rightarrow> 'c client \<Rightarrow> bool" where
  "keeps_id it i s \<longleftrightarrow> it < next_node s \<and>
     (\<forall>pr\<in>set (pending_requests s). pr_node pr = it \<longrightarrow> pr_id pr = 0 \<or> pr_id pr = i)"

lemma keeps_id_sub:
  "\<lbrakk>keeps_id it i s; next_node t = next_node s; set (pending_requests t) \<subseteq> set (pending_requests s)\<rbrakk> \<Longrightarrow> keeps_id it i t"
  by (auto simp: keeps_id_def)

lemma answers_keeps_id: "answers s t \<Longrightarrow> keeps_id it i s \<Longrightarrow> keeps_id it i t"
proof (induction rule: answers.induct)
  case (sync s t pr r code rs)
  then show ?case by (auto simp: keeps_id_def upd_node_def tells_fields [OF sync(1)] split: if_splits)
next
  case (told_only s t)
  then show ?case by (simp add: keeps_id_def tells_fields [OF told_only(1)])
next
  case (auth s a)
  then show ?case by (simp add: keeps_id_def)
next
  case (async s t pr f code resp)
  then show ?case by (simp add: keeps_id_def emit_def erase_node_def tells_fields [OF async(1)])
next
  case (dropped s t pr)
  then show ?case by (simp add: keeps_id_def erase_node_def tells_fields [OF dropped(1)])
qed

lemma iclose_sub:
  assumes "client_inv w s" and "iclose E b err s = Some t"
  shows "next_node t = next_node s" "set (pending_requests t) \<subseteq> set (pending_requests s)"
proof -
  from assms(1) obtain c where c: "connection s = Some c" "requests_ok w (live_resps s) (next_node s) (pending_requests s)"
    by (rule client_invE)
  show "next_node t = next_node s" "set (pending_requests t) \<subseteq> set (pending_requests s)"
    using assms(2) c iclose_open [OF c(2,1)] iclose_closed [OF c(1)] by (cases "conn_closed c"; auto)+
qed

lemma recv_iter_keeps_id:
  assumes "recv_iter E outs s = Some t" and "client_inv w s" and "keeps_id it i s"
  shows "keeps_id it i t"
proof -
  have "client_inv w t \<and> keeps_id it i t"
  proof (rule recv_iter_inv [where P = "\<lambda>u. client_inv w u \<and> keeps_id it i u", OF _ _ _ assms(1)])
    have "robust (keeps_id it i :: 'a client \<Rightarrow> bool)" by (simp add: robust_def keeps_id_def)
    with robust_client_inv [of w] show "robust (\<lambda>u :: 'a client. client_inv w u \<and> keeps_id it i u)"
      unfolding robust_def by blast
    show "client_inv w v \<and> keeps_id it i v" if "client_inv w u \<and> keeps_id it i u" "run_handler E cmd resp u = Some (ok, v)"
      for cmd resp u ok v
      using run_handler_answers [OF that(2)] that(1) answers_inv answers_keeps_id by blast
    show "client_inv w v \<and> keeps_id it i v" if "client_inv w u \<and> keeps_id it i u" "iclose E True err u = Some v"
      for err u v
      using that iclose_inv' [OF _ that(2)] iclose_sub [OF _ that(2)] keeps_id_sub [of it i u v] by blast
  qed (use assms in simp)
  then show ?thesis ..
qed

lemma cl_step_keeps_id:
  assumes "cl_step E F p q"
  shows "client_inv (snd p) (fst p) \<Longrightarrow> keeps_id it i (fst p) \<Longrightarrow> keeps_id it i (fst q)"
  using assms
proof (induction rule: cl_step.induct)
  case (call_wait s r in_cb name msg target timeout k t w)
  from call_wait(3) show ?case
  proof (cases rule: client_call_cases)
    case (sent m ok)
    with send_buffer_fields [OF sent(1)] call_wait(5) show ?thesis by (auto simp: keeps_id_def add_pending_def)
  qed simp
next
  case (call_fail s in_cb name msg target r timeout code t w)
  with client_call_seq [OF call_fail(2,3)] show ?case by (auto simp: keeps_id_def)
next
  case (call_done k r w s code t)
  with call_check_cases [OF call_done(2)] show ?case by (auto simp: erase_node_def intro: keeps_id_sub)
next
  case (call_late k r w s code t)
  then show ?case by (auto simp: call_timeout_def erase_node_def intro: keeps_id_sub)
next
  case (call_nb s f name msg target timeout code t w)
  from call_nb(3) show ?case
  proof (cases rule: client_call_nb_cases)
    case (sent m ok)
    with send_buffer_fields [OF sent(1)] call_nb(5) show ?thesis by (auto simp: keeps_id_def add_pending_def)
  qed (use call_nb(5) in \<open>auto simp: keeps_id_def\<close>)
next
  case (send m c bs s ok t w)
  with send_buffer_fields [OF send(2)] show ?case by (auto simp: keeps_id_def)
next
  case (recv s outs t w)
  with recv_iter_keeps_id [OF recv(2)] show ?case by simp
next
  case (keepalive s timed_out t w)
  from keepalive_fields [OF keepalive(2)] show ?case
  proof (elim disjE exE)
    fix ok' assume "send_buffer E (req_serialize_ping (ccaps E) (bufsize (options s)) (cl_serialize_flags s)) s = Some (ok', t)"
    from send_buffer_fields [OF this] keepalive(4) show ?thesis by (auto simp: keeps_id_def)
  qed (use keepalive(4) in \<open>simp_all add: keeps_id_def\<close>)
next
  case (close in_cb passv s code t w)
  from close(1) consider "t = s" | u where "iclose E passv FLORA_CLI_ECLOSED s = Some u"
      "t = u\<lparr>recv_on := False, cmd_handler := BeforeAuth, keepalive_on := False\<rparr>"
    by (auto simp: client_close_def split: if_splits)
  then show ?case
  proof cases
    case 2
    with iclose_sub [OF _ 2(1), of w] close(2) have "keeps_id it i u" using close(3) keeps_id_sub [of it i s u] by simp
    with 2(2) show ?thesis by (simp add: keeps_id_def)
  qed (use close in simp)
qed (simp_all add: keeps_id_def)

lemma cl_steps_keeps_id:
  assumes "(cl_step E F)\<^sup>*\<^sup>* p q" and "client_ok (snd p) (fst p)" and "keeps_id it i (fst p)"
  shows "client_ok (snd q) (fst q) \<and> keeps_id it i (fst q)"
  using assms(1)
proof (induction rule: rtranclp_induct)
  case (step q r)
  then show ?case using cl_step_ok [of E F "fst q" "snd q" "fst r" "snd r"] cl_step_keeps_id [OF step(2)]
    by (simp add: client_ok_def)
qed (use assms in simp)

lemma same_id:
  assumes "ids_ok seq prs" and "pr \<in> set prs" and "qr \<in> set prs" and "pr_id pr = pr_id qr" and "pr_id pr \<noteq> 0"
  shows "pr = qr"
proof -
  from assms(1) have "inj_on pr_id (set (filter (\<lambda>pr. pr_id pr \<noteq> 0) prs))"
    by (simp add: ids_ok_def filter_map comp_def distinct_map)
  with assms show ?thesis by (auto simp: inj_on_def)
qed

end
