(* ===== verification/ClientReply.thy ===== *)
theory ClientReply
  imports ClientCalls
begin

text \<open>
  The reply of a synchronous call: the request keeps its id while it waits, ids are unique, so the
  reply that carries the id wakes exactly that call.
\<close>

lemma upd_node_find:
  assumes "requests_ok w live nxt prs" and "pr \<in> set prs" and "pr_node (g pr) = pr_node pr"
  shows "find (\<lambda>p. pr_node p = pr_node pr) (upd_node (pr_node pr) g prs) = Some (g pr)"
proof -
  have "distinct (map pr_node prs)" using assms(1) by (simp add: requests_ok_def)
  from this assms(2) show ?thesis
    by (induction prs) (auto simp: upd_node_def assms(3))
qed

lemma find_unique:
  assumes "x \<in> set xs" and "P x" and uniq: "\<And>y. y \<in> set xs \<Longrightarrow> P y \<Longrightarrow> y = x"
  shows "find P xs = Some x"
proof (cases "find P xs")
  case None
  with assms(1,2) show ?thesis by (auto simp: find_None_iff)
next
  case (Some y)
  with uniq [of y] show ?thesis by (auto dest: find_SomeD)
qed

lemma reply_answers:
  assumes ok: "client_ok w u" and w: "(it, r) \<in> set w" and keeps: "keeps_id it i u"
    and open_call: "find_node it u = Some pr" "pr_id pr \<noteq> 0"
    and resp: "resp_parse_reply (ccaps E) (undef_response E) resp = Some (i, code, response, tg)"
  shows "\<exists>v. on_reply_resp E resp u = Some (True, v) \<and>
    call_check it v = Some (Some code, erase_node it v) \<and>
    (code = FLORA_CLI_SUCCESS \<longrightarrow> responses v r = response)"
proof -
  from ok have inv: "client_inv w u" by (simp add: client_ok_def)
  from waiting_node [OF inv w] open_call(1) have pr: "pr \<in> set (pending_requests u)" "pr_node pr = it" "pr_result pr = Some r"
    by auto
  from keeps pr open_call(2) have i: "pr_id pr = i" "i \<noteq> 0" by (auto simp: keeps_id_def)
  have fnd: "find (\<lambda>p. pr_id p = i) (pending_requests u) = Some pr"
  proof (rule find_unique)
    show "y = pr" if "y \<in> set (pending_requests u)" "pr_id y = i" for y
      using same_id [of "cl_reqseq u" "pending_requests u" y pr] ok pr(1) i that by (simp add: client_ok_def client_ids_def)
  qed (use pr i in simp_all)
  have live: "r \<in> live_resps u" and req: "requests_ok w (live_resps u) (next_node u) (pending_requests u)"
    using inv w by (auto simp: client_inv_def requests_ok_def)
  let ?g = "\<lambda>p. p\<lparr>pr_id := 0, pr_rcode := code\<rparr>"
  define v where "v = u\<lparr>cl_tag := tg, pending_requests := upd_node it ?g (pending_requests u)\<rparr>"
  have node: "find_node it v = Some (?g pr)"
    using upd_node_find [OF req pr(1), of ?g] pr(2) by (simp add: v_def find_node_def)
  show ?thesis
  proof (cases "code = FLORA_CLI_SUCCESS")
    case True
    let ?v = "v\<lparr>responses := (responses v)(r := response)\<rparr>"
    have "on_reply_resp E resp u = Some (True, ?v)"
      using True by (simp add: on_reply_resp_def resp fnd pr live v_def Let_def)
    moreover have "find_node it ?v = Some (?g pr)" using node by (simp add: find_node_def)
    ultimately show ?thesis by (intro exI [of _ ?v]) (simp add: call_check_def)
  next
    case False
    have "on_reply_resp E resp u = Some (True, v)"
      using False by (simp add: on_reply_resp_def resp fnd pr v_def Let_def)
    with False node show ?thesis by (intro exI [of _ v]) (simp add: call_check_def)
  qed
qed

text \<open>A call that waits keeps the id it was sent with.\<close>

lemma waiting_call_id:
  assumes "cl_reachable E G (s, w)" and "seq_left s" and "r \<in> live_resps s"
    and call: "client_call E in_cb name msg target r timeout s = Some (CallWaiting it, t)"
    and "(cl_step E F)\<^sup>*\<^sup>* (t, (it, r) # w) (u, w')"
  shows "client_ok w' u" and "keeps_id it (cl_reqseq t) u"
proof -
  have step: "cl_step E G (s, w) (t, (it, r) # w)" by (rule cl_step.call_wait [OF assms(2,3) call])
  from cl_step_ok [OF step cl_reachable_ok [OF assms(1)]] have ok: "client_ok ((it, r) # w) t" .
  from cl_reachable_inv [OF assms(1)] have fresh: "\<forall>pr\<in>set (pending_requests s). pr_node pr < next_node s"
    by (auto simp: client_inv_def requests_ok_def)
  from call have "keeps_id it (cl_reqseq t) t"
  proof (cases rule: client_call_cases)
    case (sent m ok)
    then have "it = next_node s" by (simp split: if_splits)
    with fresh have "\<forall>pr\<in>set (pending_requests s). pr_node pr \<noteq> it" by auto
    with send_buffer_fields [OF sent(1)] \<open>it = next_node s\<close> show ?thesis by (auto simp: keeps_id_def add_pending_def)
  qed simp
  with cl_steps_keeps_id [OF assms(5)] ok show "client_ok w' u" "keeps_id it (cl_reqseq t) u" by simp_all
qed

text \<open>C8: A synchronous call gets the reply that belongs to it. However the client's threads and other
  calls go on after a call has begun to wait, as long as it has not been answered, a reply that carries
  the id of its request is handled without undefined behaviour, and the call's next turn returns the
  reply's code; if that is success, the caller's \<open>Response\<close> is the one the reply carried.\<close>

theorem call_gets_reply:
  assumes "cl_reachable E G (s, w)" and "seq_left s" and "r \<in> live_resps s"
    and "client_call E in_cb name msg target r timeout s = Some (CallWaiting it, t)"
    and "(cl_step E F)\<^sup>*\<^sup>* (t, (it, r) # w) (u, w')" and "(it, r) \<in> set w'"
    and "find_node it u = Some pr" and "pr_id pr \<noteq> 0"
    and "resp_parse_reply (ccaps E) (undef_response E) resp = Some (cl_reqseq t, code, response, tg)"
  shows "\<exists>v. on_reply_resp E resp u = Some (True, v) \<and>
    call_check it v = Some (Some code, erase_node it v) \<and>
    (code = FLORA_CLI_SUCCESS \<longrightarrow> responses v r = response)"
  by (rule reply_answers [OF waiting_call_id(1) [OF assms(1-5)] assms(6) waiting_call_id(2) [OF assms(1-5)] assms(7-9)])

end
