(* ===== verification/ClientLife.thy ===== *)
theory ClientLife
  imports ClientReply
begin

text \<open>
  The beginning and the end of a client's life: \<open>Client::connect\<close> with \<open>auth\<close> and the first message of
  the service, \<open>Client::close\<close> and the end of the two threads.
\<close>

lemma new_Client_fields [simp]:
  "options (new_Client opts) = opts" "connection (new_Client opts) = None" "pending_requests (new_Client opts) = []"
  "cl_reqseq (new_Client opts) = 0" "next_node (new_Client opts) = 0" "live_resps (new_Client opts) = {}"
  "upcalls (new_Client opts) = []" "close_reason (new_Client opts) = 0"
  by (simp_all add: new_Client_def)

lemma client_view_fields:
  "ares_notified (client_view s) = ares_notified s" "recv_on (client_view s) = recv_on s"
  "ares_result (client_view s) = ares_result s" "cmd_handler (client_view s) = cmd_handler s"
  "pending_requests (client_view s) = pending_requests s" "connection (client_view s) = connection s"
  "mon_callback (client_view s) = mon_callback s" "auth_result_set (client_view s) = auth_result_set s"
  "options (client_view s) = options s" "weak_ptr (client_view s) = weak_ptr s"
  by (simp_all add: client_view_def with_buf_def)

lemma client_fits_rest:
  assumes "client_buf_ok sz s" and "client_pend s @ bs @ r = f" and "length f \<le> unat sz" and "bs \<noteq> []"
  shows "client_fits bs s"
proof -
  have "length (client_pend s) = unat (rbuf_off s)"
    using assms(1) by (simp add: client_buf_ok_def client_pend_def word_le_nat_alt)
  moreover have "length (client_pend s) + length bs \<le> unat sz" using assms(2,3) by auto
  ultimately show ?thesis using assms(1,4) by (auto simp: client_fits_def client_buf_ok_def)
qed

text \<open>The first message reaches the handler, in whatever chunks it comes, while \<open>auth\<close> waits.\<close>

lemma recv_until_frame:
  assumes "caps_header_law (ccaps E)" and f: "good_frame (ccaps E) sz f"
  shows "\<lbrakk>client_buf_ok sz s; client_pend s @ concat bss = f; bss \<noteq> []; [] \<notin> set bss; \<not> ares_notified s; recv_on s;
    client_deliver E f (client_view s) = Some v\<rbrakk> \<Longrightarrow>
   \<exists>t. recv_until_woken E (map (\<lambda>bs. [RoData bs]) bss) s = Some t \<and> client_buf_ok sz t \<and> client_pend t = [] \<and>
     client_view t = v"
proof (induction bss arbitrary: s)
  case (Cons bs bss)
  have len: "length f \<le> unat sz" "f \<noteq> []"
    using f by (auto simp: good_frame_def is_frame_def word_le_nat_alt split: option.splits)
  from Cons.prems have fits: "client_fits bs s" by (intro client_fits_rest [OF Cons.prems(1) _ len(1), of bs "concat bss"]) auto
  show ?case
  proof (cases bss)
    case Nil
    have "partial (ccaps E) sz []" using f len(2) by (auto simp: partial_def good_frame_def)
    from cli.chunk_frames [OF assms(1) Cons.prems(1) fits _ _ this, of "[f]" v] Cons.prems f Nil
    obtain t where "client_chunk E bs s = Some t" "client_buf_ok sz t" "client_pend t = []" "client_view t = v" by auto
    with Cons.prems Nil show ?thesis by (simp add: client_chunk_def)
  next
    case (Cons bs' bss')
    with Cons.prems have "concat bss \<noteq> []" by auto
    then have "partial (ccaps E) sz (client_pend s @ bs)"
      using f Cons.prems(2) by (auto simp: partial_def good_frame_def intro!: exI [of _ "concat bss"])
    from cli.chunk_frames [OF assms(1) Cons.prems(1) fits _ _ this, of "[]" "client_view s"]
    obtain t where t: "client_chunk E bs s = Some t" "client_buf_ok sz t" "client_pend t = client_pend s @ bs"
        "client_view t = client_view s" by auto
    then have "ares_notified t = ares_notified s" "recv_on t = recv_on s"
      using client_view_fields [of t] client_view_fields [of s] by simp_all
    with Cons.IH [OF t(2)] Cons.prems t Cons show ?thesis by (simp add: client_chunk_def)
  qed
qed simp

lemma auth_deliver:
  assumes "caps_parse (ccaps E) f = Some resp" and "read_i32 (ccaps E) resp = (Some CMD_AUTH_RESP, resp')"
    and "resp_parse_auth (ccaps E) resp' = Some (result, version)"
    and "cmd_handler s = BeforeAuth" and "auth_result_set s"
  shows "client_deliver E f (client_view s) =
    Some (client_view (s\<lparr>ares_result := result, ares_notified := True, cmd_handler := AfterAuth\<rparr>))"
  using assms by (simp add: client_deliver_def run_handler_def handle_cmd_before_auth_def client_view_def with_buf_def)

lemma connect_reply:
  assumes "caps_header_law (ccaps E)" and "2 * unat (bufsize (connect_options opts)) < 2 ^ 32"
    and opened: "connect_open E net uri mcb (new_Client (connect_options opts)) = Some (FLORA_CLI_SUCCESS, s1)"
    and sent: "auth_send E (u_fragment (the (uri_parse E (the uri)))) (opt_flags (options s1)) s1 = Some (None, s2)"
    and f: "good_frame (ccaps E) (bufsize (connect_options opts)) f" and "concat bss = f" and "[] \<notin> set bss"
    and parsed: "caps_parse (ccaps E) f = Some resp" "read_i32 (ccaps E) resp = (Some CMD_AUTH_RESP, resp')"
    "resp_parse_auth (ccaps E) resp' = Some (result, version)"
  obtains t where "client_buf_ok (bufsize (connect_options opts)) t" "rbuf_off t = 0"
    "client_view t = client_view (s2\<lparr>ares_result := result, ares_notified := True, cmd_handler := AfterAuth\<rparr>)"
    "client_connect E net uri ccb mcb (map (\<lambda>bs. [RoData bs]) bss) (new_Client (connect_options opts)) =
       map_option (apfst Some)
         (connect_finish E result (u_fragment (the (uri_parse E (the uri)))) ccb (t\<lparr>auth_result_set := False\<rparr>))"
    "pending_requests t = []" "mon_callback t = mcb" "recv_on t" "\<not> weak_ptr t"
proof -
  let ?o = "connect_options opts" and ?sc = "map (\<lambda>bs. [RoData bs]) bss" and ?x = "u_fragment (the (uri_parse E (the uri)))"
  from connect_open_fields [OF opened] obtain c fl where c: "sock_ready c"
      "s1 = (new_Client ?o)\<lparr>connection := Some c, cl_serialize_flags := fl, mon_callback := mcb, recv_on := True\<rparr>"
    by auto
  let ?m = "req_serialize_auth (ccaps E) FLORA_VERSION (Some (c_str ?x)) (getpid E) (opt_flags (options s1))
    (bufsize (options s1)) (cl_serialize_flags s1)"
  from sent have "send_buffer E ?m (s1\<lparr>auth_result_set := True, ares_result := FLORA_CLI_EAUTH, ares_notified := False\<rparr>) =
      Some (True, s2)" by (auto simp: auth_send_def Let_def split: if_splits)
  from send_buffer_fields [OF this] c obtain c' where s2: "\<not> conn_closed c'"
      "s2 = s1\<lparr>auth_result_set := True, ares_result := FLORA_CLI_EAUTH, ares_notified := False, connection := Some c'\<rparr>"
    by (auto simp: conn_closed_def)
  have buf: "client_buf_ok (bufsize ?o) s2" "client_pend s2 = []" using s2 c(2) assms(2)
    by (simp_all add: client_buf_ok_def client_pend_def is_closed_def new_Client_def)
  have "bss \<noteq> []" using f assms(6) by (auto simp: good_frame_def is_frame_def)
  let ?v = "s2\<lparr>ares_result := result, ares_notified := True, cmd_handler := AfterAuth\<rparr>"
  have "cmd_handler s2 = BeforeAuth" "auth_result_set s2" "recv_on s2" "\<not> ares_notified s2"
    using s2 c(2) by (simp_all add: new_Client_def)
  with recv_until_frame [OF assms(1) f buf(1) _ \<open>bss \<noteq> []\<close> assms(7) _ _ auth_deliver [OF parsed]] buf(2) assms(6)
  obtain t where t: "recv_until_woken E ?sc s2 = Some t" "client_buf_ok (bufsize ?o) t" "client_pend t = []"
      "client_view t = client_view ?v" by auto
  have tf: "ares_notified t" "ares_result t = result" "recv_on t" "pending_requests t = []" "mon_callback t = mcb" "\<not> weak_ptr t"
    using client_view_fields [of t] client_view_fields [of ?v] t(4) s2 c(2) by (simp_all add: new_Client_def)
  have off: "rbuf_off t = 0" using t(2,3) by (auto simp: client_buf_ok_def client_pend_def unat_eq_zero)
  have "client_connect E net uri ccb mcb ?sc (new_Client ?o) =
      map_option (apfst Some) (connect_finish E result ?x ccb (t\<lparr>auth_result_set := False\<rparr>))"
    using opened sent t(1) tf(1,2) by (simp add: client_connect_def auth_return_def)
  with t off tf that show ?thesis by blast
qed

text \<open>C25: The outcome of connecting. When the socket is connected and the authentication request could
  be sent, then \<open>flora::Client::connect\<close> returns the code of the service's answer, in whatever chunks
  the answer arrives. If that code is success the connection is open, both threads run, what arrives goes to
  the handler for authenticated clients, the callbacks are set and the receive buffer is empty; otherwise the
  connection is closed and no thread is left.\<close>

theorem connect_outcome:
  assumes "caps_header_law (ccaps E)" and "2 * unat (bufsize (connect_options opts)) < 2 ^ 32"
    and opened: "connect_open E net uri mcb (new_Client (connect_options opts)) = Some (FLORA_CLI_SUCCESS, s1)"
    and sent: "auth_send E (u_fragment (the (uri_parse E (the uri)))) (opt_flags (options s1)) s1 = Some (None, s2)"
    and f: "good_frame (ccaps E) (bufsize (connect_options opts)) f" and "concat bss = f" and "[] \<notin> set bss"
    and parsed: "caps_parse (ccaps E) f = Some resp" "read_i32 (ccaps E) resp = (Some CMD_AUTH_RESP, resp')"
    "resp_parse_auth (ccaps E) resp' = Some (result, version)"
  shows "\<exists>s. flora_Client_connect E net uri ccb mcb opts (map (\<lambda>bs. [RoData bs]) bss) = Some (Some result, s) \<and>
    (if result = FLORA_CLI_SUCCESS
     then is_closed s = Some False \<and> recv_on s \<and> keepalive_on s \<and> weak_ptr s \<and> cmd_handler s = AfterAuth \<and>
       cli_callback s = ccb \<and> mon_callback s = mcb \<and> client_buf_ok (bufsize (connect_options opts)) s \<and> rbuf_off s = 0
     else is_closed s = Some True \<and> \<not> recv_on s \<and> \<not> keepalive_on s \<and> \<not> weak_ptr s)"
proof -
  from connect_reply [OF assms] obtain t where t: "client_buf_ok (bufsize (connect_options opts)) t" "rbuf_off t = 0"
    "client_view t = client_view (s2\<lparr>ares_result := result, ares_notified := True, cmd_handler := AfterAuth\<rparr>)"
    and con: "client_connect E net uri ccb mcb (map (\<lambda>bs. [RoData bs]) bss) (new_Client (connect_options opts)) =
       map_option (apfst Some)
         (connect_finish E result (u_fragment (the (uri_parse E (the uri)))) ccb (t\<lparr>auth_result_set := False\<rparr>))"
    and tf: "pending_requests t = []" "mon_callback t = mcb" "recv_on t" "\<not> weak_ptr t"
    by blast
  from t(1) obtain c where c: "connection t = Some c" "\<not> conn_closed c" by (auto simp: client_buf_ok_def is_closed_def)
  have h: "cmd_handler t = AfterAuth" using client_view_fields(4) [of t] t(3) by (simp add: client_view_fields)
  show ?thesis
  proof (cases "result = FLORA_CLI_SUCCESS")
    case True
    with con tf t(1,2) c h show ?thesis
      by (auto simp: flora_Client_connect_def connect_finish_def is_closed_def client_buf_ok_def)
  next
    case False
    with con tf c h show ?thesis
      by (auto simp: flora_Client_connect_def connect_finish_def client_close_def iclose_def is_closed_def)
  qed
qed

section \<open>Closing\<close>

lemma iclose_noop: "is_closed s = Some True \<Longrightarrow> iclose E b err s = Some s"
  by (auto simp: iclose_def is_closed_def)

lemma recv_iter_closed:
  assumes "is_closed s = Some True"
  shows "\<exists>t. recv_iter E outs s = Some t \<and> \<not> recv_on t \<and> upcalls t = upcalls s \<and> pending_requests t = pending_requests s \<and>
    is_closed t = Some True"
proof -
  have ex: "\<exists>t. recv_exit E err u = Some t \<and> \<not> recv_on t \<and> upcalls t = upcalls s \<and> pending_requests t = pending_requests s \<and>
      is_closed t = Some True"
    if "is_closed u = Some True" "upcalls u = upcalls s" "pending_requests u = pending_requests s" for err u
    using that iclose_noop [of u E True err] by (simp add: recv_exit_def is_closed_def)
  show ?thesis
  proof (cases "rbuf_off s = bufsize (options s)")
    case True
    with ex [of s] assms show ?thesis by (simp add: recv_iter_def)
  next
    case False
    obtain err u where u: "recv_fail s = (err, u)" by fastforce
    then have "is_closed u = Some True" "upcalls u = upcalls s" "pending_requests u = pending_requests s"
      using assms by (auto simp: recv_fail_def is_closed_def split: if_splits)
    with ex [of u err] False assms u show ?thesis
      by (auto simp: recv_iter_def is_closed_def conn_recv_def conn_closed_def)
  qed
qed

lemma keepalive_closed: "is_closed s = Some True \<Longrightarrow> keepalive_iter E timed_out s = Some (s\<lparr>keepalive_on := False\<rparr>)"
  by (simp add: keepalive_iter_def)

text \<open>C26: Closing works from every state a connected client can be in, and ends. It has a defined
  result; the connection is closed; and from then on each of the two threads \<open>close\<close> waits for
  leaves its loop in its next turn, without another call of the application and without touching
  the pending requests. Closing again, or
  the connection breaking afterwards, does nothing.\<close>

theorem close_complete:
  assumes "cl_reachable E F (s, w)"
  shows "\<exists>u t. iclose E pas FLORA_CLI_ECLOSED s = Some u \<and> is_closed u = Some True \<and>
    (\<forall>outs. \<exists>v. recv_iter E outs u = Some v \<and> \<not> recv_on v \<and> upcalls v = upcalls u \<and>
       pending_requests v = pending_requests u) \<and>
    (\<forall>timed_out. keepalive_iter E timed_out u = Some (u\<lparr>keepalive_on := False\<rparr>)) \<and>
    client_close E False pas s = Some (FLORA_CLI_SUCCESS, t) \<and> is_closed t = Some True \<and>
    (\<forall>b err. iclose E b err t = Some t)"
proof -
  from cl_reachable_inv [OF assms] obtain c where c: "connection s = Some c"
      "requests_ok w (live_resps s) (next_node s) (pending_requests s)" by (rule client_invE)
  obtain u where u: "iclose E pas FLORA_CLI_ECLOSED s = Some u" "is_closed u = Some True"
    using iclose_open [OF c(2,1), of E pas FLORA_CLI_ECLOSED] iclose_closed [OF c(1), of E pas FLORA_CLI_ECLOSED] c(1)
    by (cases "conn_closed c") (auto simp: is_closed_def)
  let ?t = "u\<lparr>recv_on := False, cmd_handler := BeforeAuth, keepalive_on := False\<rparr>"
  have t: "is_closed ?t = Some True" using u(2) by (simp add: is_closed_def)
  moreover have "client_close E False pas s = Some (FLORA_CLI_SUCCESS, ?t)" using u(1) by (simp add: client_close_def)
  moreover have "\<forall>b err. iclose E b err ?t = Some ?t" using iclose_noop [OF t] by blast
  moreover have "\<forall>outs. \<exists>v. recv_iter E outs u = Some v \<and> \<not> recv_on v \<and> upcalls v = upcalls u \<and>
      pending_requests v = pending_requests u"
    using recv_iter_closed [OF u(2)] by blast
  ultimately show ?thesis using u keepalive_closed [OF u(2)] by blast
qed

end
