(* ===== verification/ClientDemo.thy ===== *)
theory ClientDemo
  imports ClientLife Demo
begin

text \<open>
  Concrete inputs for the client's theorems: an instance of the Caps parameter that tells the sample
  responses by their first byte, a kernel that accepts every write, a client connected with the
  model's own operations, and the witnesses.
\<close>

definition resp_parse_lite :: "byte list \<Rightarrow> lite option" where
  "resp_parse_lite bs =
     (case bs of [] \<Rightarrow> None
      | b # _ \<Rightarrow>
          if b = 0 then Some [MInt 101, MInt 0, MInt 4]
          else if b = 1 then Some [MInt 103, MInt 1, MInt 0, MInt 42, MCaps None, MStr ''x'', MLong 7]
          else if b = 2 then Some [MInt 102, MInt 0, MStr ''t'', MCaps None, MLong 7, MStr ''b'']
          else if b = 3 then Some [MInt 106]
          else None)"

definition cdemo_env :: "lite cenv" where
  "cdemo_env = \<lparr>ccaps = lite_ops\<lparr>caps_parse := resp_parse_lite\<rparr>,
     uri_parse = (\<lambda>_. Some \<lparr>u_scheme = ''unix'', u_path = ''s'', u_host = [], u_port = 0, u_fragment = ''a''\<rparr>),
     cwrite = (\<lambda>l n d. SysRet (unat n)), getpid = 7, cjunk = 99\<rparr>"

definition cdemo_net :: net where
  "cdemo_net = \<lparr>n_fd = 3, n_dns = None, n_reach = True\<rparr>"

definition cframe :: "byte \<Rightarrow> byte list" where
  "cframe b = b # replicate 7 0"

definition cdemo_start :: "i32 option \<times> lite client" where
  "cdemo_start = the (flora_Client_connect cdemo_env cdemo_net (Some ''unix:s#a'') True False None [[RoData (cframe 0)]])"

definition cdemo :: "lite client" where
  "cdemo = snd cdemo_start"

lemma cdemo_header: "caps_header_law (ccaps cdemo_env)"
  by (simp add: caps_header_law_def cdemo_env_def lite_ops_def)

lemma cdemo_nonempty: "caps_nonempty (ccaps cdemo_env)"
  by (simp add: caps_nonempty_def cdemo_env_def resp_parse_lite_def)

lemma cdemo_frame: "unat sz \<ge> 8 \<Longrightarrow> b \<in> {0, 1, 2, 3} \<Longrightarrow> good_frame (ccaps cdemo_env) sz (cframe b)"
  by (auto simp: good_frame_def is_frame_def cdemo_env_def lite_ops_def cframe_def resp_parse_lite_def word_le_nat_alt)

definition copts :: client_options where
  "copts = connect_options None"

definition cdemo_open :: "lite client" where
  "cdemo_open = (new_Client copts)\<lparr>connection := Some \<lparr>sock = 3, recv_timeout = 0, sock_ready = True, conn_io = [OpConnectUnix ''s'']\<rparr>,
     cl_serialize_flags := 0, mon_callback := False, recv_on := True\<rparr>"

lemma copts_fields: "bufsize copts = 32768" "opt_flags copts = 0"
  by (simp_all add: copts_def connect_options_def default_options_def flora_consts)

lemma cdemo_opens: "connect_open cdemo_env cdemo_net (Some ''unix:s#a'') False (new_Client copts) = Some (FLORA_CLI_SUCCESS, cdemo_open)"
  by (simp add: connect_open_def cdemo_env_def cdemo_net_def connect_unix_def new_SocketConn_def set_recv_timeout_def
    SUN_PATH_SIZE_def c_str_def conn_log_def cdemo_open_def Let_def)

lemma cdemo_auth_sent:
  obtains c where "sock_ready c"
    "auth_send cdemo_env ''a'' 0 cdemo_open =
       Some (None, cdemo_open\<lparr>auth_result_set := True, ares_result := FLORA_CLI_EAUTH, ares_notified := False, connection := Some c\<rparr>)"
  by (rule that [of "\<lparr>sock = 3, recv_timeout = 0, sock_ready = True,
      conn_io = [OpConnectUnix ''s'', OpWrite 8 (replicate 8 5) (SysRet 8)]\<rparr>"])
    (simp_all add: auth_send_def cdemo_open_def cdemo_env_def lite_ops_def ser_defs ser_check_def copts_fields send_buffer_def
      conn_send_def conn_log_def Let_def)

lemma cdemo_connecting:
  "2 * unat (bufsize (connect_options None)) < 2 ^ 32"
  "connect_open cdemo_env cdemo_net (Some ''unix:s#a'') False (new_Client (connect_options None)) =
     Some (FLORA_CLI_SUCCESS, cdemo_open)"
  "good_frame (ccaps cdemo_env) (bufsize (connect_options None)) (cframe 0)"
  "auth_send cdemo_env ''a'' 0 cdemo_open = Some r \<Longrightarrow>
     auth_send cdemo_env (u_fragment (the (uri_parse cdemo_env (the (Some ''unix:s#a''))))) (opt_flags (options cdemo_open)) cdemo_open
       = Some r"
proof -
  show "2 * unat (bufsize (connect_options None)) < 2 ^ 32" using copts_fields(1) by (simp add: copts_def)
  show "connect_open cdemo_env cdemo_net (Some ''unix:s#a'') False (new_Client (connect_options None)) =
      Some (FLORA_CLI_SUCCESS, cdemo_open)" using cdemo_opens by (simp add: copts_def)
  show "good_frame (ccaps cdemo_env) (bufsize (connect_options None)) (cframe 0)"
    by (rule cdemo_frame) (use copts_fields(1) in \<open>simp_all add: copts_def\<close>)
  have "u_fragment (the (uri_parse cdemo_env (the (Some ''unix:s#a'')))) = ''a''" by (simp add: cdemo_env_def)
  then show "auth_send cdemo_env ''a'' 0 cdemo_open = Some r \<Longrightarrow>
     auth_send cdemo_env (u_fragment (the (uri_parse cdemo_env (the (Some ''unix:s#a''))))) (opt_flags (options cdemo_open)) cdemo_open
       = Some r" by (simp only:) (simp add: cdemo_open_def copts_fields)
qed

lemma cdemo_auth_resp:
  "caps_parse (ccaps cdemo_env) (cframe 0) = Some [MInt 101, MInt 0, MInt 4]"
  "read_i32 (ccaps cdemo_env) [MInt 101, MInt 0, MInt 4] = (Some CMD_AUTH_RESP, [MInt 0, MInt 4])"
  "resp_parse_auth (ccaps cdemo_env) [MInt 0, MInt 4] = Some (FLORA_CLI_SUCCESS, 4)"
  by (simp_all add: cdemo_env_def cframe_def resp_parse_lite_def lite_ops_def ser_defs flora_consts)

lemma cdemo_state:
  obtains c where "connection cdemo = Some c" "sock_ready c" "cl_reqseq cdemo = 0" "pending_requests cdemo = []"
    "next_node cdemo = 0" "live_resps cdemo = {}" "upcalls cdemo = []" "options cdemo = copts" "recv_on cdemo"
    "\<not> mon_callback cdemo" "cli_callback cdemo" "cl_serialize_flags cdemo = 0"
    "flora_Client_connect cdemo_env cdemo_net (Some ''unix:s#a'') True False None [[RoData (cframe 0)]] =
       Some (Some FLORA_CLI_SUCCESS, cdemo)"
    "client_buf_ok 32768 cdemo" "rbuf_off cdemo = 0" "cmd_handler cdemo = AfterAuth" "keepalive_on cdemo"
proof -
  from cdemo_auth_sent obtain c where c: "sock_ready c" and a: "auth_send cdemo_env ''a'' 0 cdemo_open =
     Some (None, cdemo_open\<lparr>auth_result_set := True, ares_result := FLORA_CLI_EAUTH, ares_notified := False, connection := Some c\<rparr>)"
    by blast
  let ?x = "u_fragment (the (uri_parse cdemo_env (the (Some ''unix:s#a''))))"
  have x: "?x = ''a''" by (simp add: cdemo_env_def)
  obtain t where t: "client_buf_ok (bufsize (connect_options None)) t" "rbuf_off t = 0"
    "client_view t = client_view (cdemo_open\<lparr>auth_result_set := True, ares_result := FLORA_CLI_EAUTH, ares_notified := False,
       connection := Some c, ares_result := FLORA_CLI_SUCCESS, ares_notified := True, cmd_handler := AfterAuth\<rparr>)"
    and con: "client_connect cdemo_env cdemo_net (Some ''unix:s#a'') True False (map (\<lambda>bs. [RoData bs]) [cframe 0])
        (new_Client (connect_options None)) =
       map_option (apfst Some) (connect_finish cdemo_env FLORA_CLI_SUCCESS ?x True (t\<lparr>auth_result_set := False\<rparr>))"
    by (rule connect_reply [OF cdemo_header cdemo_connecting(1,2) cdemo_connecting(4) [OF a] cdemo_connecting(3) _ _ cdemo_auth_resp, of "[cframe 0]" True]) (auto simp: cframe_def)
  let ?d = "t\<lparr>auth_result_set := False, keepalive_on := True, cli_callback := True, auth_extra := ''a'', weak_ptr := True\<rparr>"
  have conn: "flora_Client_connect cdemo_env cdemo_net (Some ''unix:s#a'') True False None [[RoData (cframe 0)]] =
      Some (Some FLORA_CLI_SUCCESS, ?d)"
    using con x by (simp add: flora_Client_connect_def connect_finish_def)
  then have d: "cdemo = ?d" by (simp add: cdemo_def cdemo_start_def)
  note v = arg_cong [OF t(3)]
  have "connection t = Some c" using v [of connection] by (simp add: client_view_fields)
  moreover have "cl_reqseq t = 0" using v [of cl_reqseq] by (simp add: client_view_def with_buf_def cdemo_open_def)
  moreover have "pending_requests t = []" using v [of pending_requests] by (simp add: client_view_fields cdemo_open_def)
  moreover have "next_node t = 0" using v [of next_node] by (simp add: client_view_def with_buf_def cdemo_open_def)
  moreover have "live_resps t = {}" using v [of live_resps] by (simp add: client_view_def with_buf_def cdemo_open_def)
  moreover have "upcalls t = []" using v [of upcalls] by (simp add: client_view_def with_buf_def cdemo_open_def)
  moreover have "options t = copts" using v [of options] by (simp add: client_view_fields cdemo_open_def)
  moreover have "recv_on t" using v [of recv_on] by (simp add: client_view_fields cdemo_open_def)
  moreover have "\<not> mon_callback t" using v [of mon_callback] by (simp add: client_view_fields cdemo_open_def)
  moreover have "cl_serialize_flags t = 0"
    using v [of cl_serialize_flags] by (simp add: client_view_def with_buf_def cdemo_open_def)
  moreover have "cmd_handler t = AfterAuth" using v [of cmd_handler] by (simp add: client_view_fields)
  moreover have "client_buf_ok 32768 cdemo" using t(1) copts_fields(1) unfolding d
    by (simp add: client_buf_ok_def copts_def is_closed_def)
  ultimately show ?thesis using that [of c] c t(2) conn unfolding d by simp
qed

lemma cdemo_reachable: "cl_reachable cdemo_env F (cdemo, [])"
  by (rule cdemo_state) (rule cl_reachable.connected)

section \<open>Witnesses\<close>


definition cdemo_posted :: "lite client" where
  "cdemo_posted = emit (UpPost ''t'' 0 None 7 ''b'') ((client_view cdemo)\<lparr>cl_tag := 7, sender_name := ''b''\<rparr>)"

lemma cdemo_delivers: "iterate (client_deliver cdemo_env) [cframe 3, cframe 2] (client_view cdemo) = Some cdemo_posted"
proof (rule cdemo_state)
  assume "cmd_handler cdemo = AfterAuth" "cli_callback cdemo"
  then show ?thesis
    by (simp add: client_deliver_def cdemo_env_def cframe_def resp_parse_lite_def lite_ops_def run_handler_def
      handle_cmd_after_auth_def flora_consts on_post_resp_def ser_defs client_view_def with_buf_def c_str_def
      cdemo_posted_def emit_def)
qed

theorem client_frames_reassembled_witness:
  "\<exists>t. iterate (client_chunk cdemo_env) [cframe 3 @ cframe 2 @ [1, 0]] cdemo = Some t \<and> client_view t = cdemo_posted \<and>
     client_pend t = [1, 0]"
proof (rule cdemo_state)
  assume d: "client_buf_ok 32768 cdemo" "rbuf_off cdemo = 0" "options cdemo = copts"
  have "partial (ccaps cdemo_env) 32768 [1, 0]"
    by (auto simp: partial_def is_frame_def cdemo_env_def lite_ops_def word_le_nat_alt intro!: exI [of _ "replicate 6 0"])
  moreover have "\<forall>f\<in>set [cframe 3, cframe 2]. good_frame (ccaps cdemo_env) 32768 f"
    by (auto intro: cdemo_frame)
  moreover have "all_fit (client_chunk cdemo_env) client_fits [cframe 3 @ cframe 2 @ [1, 0]] cdemo"
    using d by (auto simp: client_fits_def copts_fields cframe_def split: option.split)
  ultimately show ?thesis
    using client_frames_reassembled [OF cdemo_header d(1,2), of "[cframe 3 @ cframe 2 @ [1, 0]]" "[cframe 3, cframe 2]" "[1, 0]" cdemo_posted]
      cdemo_delivers by simp
qed

text \<open>An asynchronous and a synchronous call of the connected client.\<close>

definition cdemo_nb :: "lite client" where
  "cdemo_nb = snd (the (client_call_nb cdemo_env (Some ''m'') None (Some ''b'') (Some 4) 300 cdemo))"

lemma cdemo_nb_call:
  "client_call_nb cdemo_env (Some ''m'') None (Some ''b'') (Some 4) 300 cdemo = Some (FLORA_CLI_SUCCESS, cdemo_nb)"
proof (rule cdemo_state)
  fix c assume "connection cdemo = Some c" "sock_ready c" "options cdemo = copts" "cl_serialize_flags cdemo = 0"
  then show ?thesis
    by (simp add: cdemo_nb_def client_call_nb_def copts_fields is_monitor_def cdemo_env_def lite_ops_def ser_defs ser_check_def
      send_buffer_def add_pending_def conn_send_def Let_def)
qed

theorem callback_exactly_once_witness:
  "\<exists>u. client_close cdemo_env False False cdemo_nb = Some (FLORA_CLI_SUCCESS, u) \<and> is_closed u = Some True \<and>
     told 4 u + owed 4 u = 1 \<and> told 4 u = 1"
proof (rule cdemo_state)
  assume d: "cl_reqseq cdemo = 0" "upcalls cdemo = []" "pending_requests cdemo = []"
  have r: "cl_reachable cdemo_env {4} (cdemo_nb, [])"
    by (rule cl_reachable.step [OF cdemo_reachable cl_step.call_nb [OF _ _ cdemo_nb_call]]) (simp_all add: seq_left_def d)
  from iclose_inv [OF cl_reachable_inv [OF r], of cdemo_env False FLORA_CLI_ECLOSED] obtain v where
    v: "iclose cdemo_env False FLORA_CLI_ECLOSED cdemo_nb = Some v" "is_closed v = Some True" by blast
  let ?u = "v\<lparr>recv_on := False, cmd_handler := BeforeAuth, keepalive_on := False\<rparr>"
  have u: "client_close cdemo_env False False cdemo_nb = Some (FLORA_CLI_SUCCESS, ?u)" using v(1) by (simp add: client_close_def)
  have s: "(cl_step cdemo_env {})\<^sup>*\<^sup>* (cdemo_nb, []) (?u, [])" by (rule r_into_rtranclp, rule cl_step.close [OF u])
  have "told 4 ?u + owed 4 ?u = 1 \<and> (is_closed ?u = Some True \<longrightarrow> told 4 ?u = 1)"
    by (rule callback_exactly_once [OF cdemo_reachable _ _ _ cdemo_nb_call s])
      (simp_all add: d seq_left_def told_def owed_def)
  with u v(2) show ?thesis by (auto simp: is_closed_def)
qed

definition cdemo_own :: "lite client" where
  "cdemo_own = cdemo\<lparr>live_resps := insert 5 (live_resps cdemo)\<rparr>"

definition cdemo_called :: "lite client" where
  "cdemo_called = snd (the (client_call cdemo_env False (Some ''m'') None (Some ''b'') 5 300 cdemo_own))"

lemma cdemo_own_reachable: "cl_reachable cdemo_env F (cdemo_own, [])"
  unfolding cdemo_own_def by (rule cl_reachable.step [OF cdemo_reachable cl_step.own])

lemma cdemo_seq: "seq_left cdemo_own" "5 \<in> live_resps cdemo_own"
  by (rule cdemo_state, simp_all add: seq_left_def cdemo_own_def)

lemma cdemo_call:
  "client_call cdemo_env False (Some ''m'') None (Some ''b'') 5 300 cdemo_own = Some (CallWaiting 0, cdemo_called)"
  "find_node 0 cdemo_called = Some \<lparr>pr_node = 0, pr_id = 1, pr_rcode = 0, pr_result = Some 5, pr_callback = None\<rparr>"
  "cl_reqseq cdemo_called = 1" "is_closed cdemo_called = Some False"
proof -
  show "client_call cdemo_env False (Some ''m'') None (Some ''b'') 5 300 cdemo_own = Some (CallWaiting 0, cdemo_called)"
  proof (rule cdemo_state)
    fix c assume d: "connection cdemo = Some c" "sock_ready c" "options cdemo = copts" "cl_serialize_flags cdemo = 0"
      "next_node cdemo = 0"
    then show ?thesis
      by (simp add: cdemo_called_def cdemo_own_def client_call_def copts_fields is_monitor_def cdemo_env_def lite_ops_def
        ser_defs ser_check_def send_buffer_def add_pending_def conn_send_def Let_def)
  qed
  then obtain m where m: "send_buffer cdemo_env m (add_pending (Some 5) None (cdemo_own\<lparr>cl_reqseq := cl_reqseq cdemo_own + 1\<rparr>)) =
      Some (True, cdemo_called)"
    by (cases rule: client_call_cases) (simp_all split: if_splits)
  obtain c where d: "connection cdemo = Some c" "sock_ready c" "cl_reqseq cdemo = 0" "pending_requests cdemo = []" "next_node cdemo = 0"
    by (rule cdemo_state)
  from send_buffer_fields [OF m] d(1,2) obtain c' where e:
    "cdemo_called = (add_pending (Some 5) None (cdemo_own\<lparr>cl_reqseq := cl_reqseq cdemo_own + 1\<rparr>))\<lparr>connection := Some c'\<rparr>"
    "\<not> conn_closed c'" by (auto simp: add_pending_def cdemo_own_def conn_closed_def)
  from d(3-5) e(2) show "find_node 0 cdemo_called = Some \<lparr>pr_node = 0, pr_id = 1, pr_rcode = 0, pr_result = Some 5, pr_callback = None\<rparr>"
    "cl_reqseq cdemo_called = 1" "is_closed cdemo_called = Some False"
    unfolding e(1) by (simp_all add: find_node_def cdemo_own_def add_pending_def is_closed_def)
qed

lemma cdemo_called_reachable: "cl_reachable cdemo_env F (cdemo_called, [(0, 5)])"
  by (rule cl_reachable.step [OF cdemo_own_reachable cl_step.call_wait [OF cdemo_seq cdemo_call(1)]])


theorem call_completes_witness:
  "(\<exists>t. call_timeout 0 cdemo_called = Some (FLORA_CLI_ETIMEOUT, t) \<and> cl_reachable cdemo_env {} (t, []) \<and> find_node 0 t = None) \<and>
   (\<exists>res t. call_check 0 cdemo_called = Some (res, t))"
  using call_completes [OF cdemo_called_reachable, where it = 0 and r = 5] by auto

theorem call_gets_reply_witness:
  "\<exists>v. on_reply_resp cdemo_env [MInt 1, MInt 0, MInt 42, MCaps None, MStr ''x'', MLong 7] cdemo_called = Some (True, v) \<and>
     call_check 0 v = Some (Some FLORA_CLI_SUCCESS, erase_node 0 v) \<and>
     responses v 5 = \<lparr>ret_code = 42, resp_data = None, resp_extra = ''x''\<rparr>"
proof -
  have "resp_parse_reply (ccaps cdemo_env) (undef_response cdemo_env)
      [MInt 1, MInt 0, MInt 42, MCaps None, MStr ''x'', MLong 7] =
      Some (cl_reqseq cdemo_called, FLORA_CLI_SUCCESS, \<lparr>ret_code = 42, resp_data = None, resp_extra = ''x''\<rparr>, 7)"
    by (simp add: cdemo_call(3) cdemo_env_def lite_ops_def ser_defs undef_response_def flora_consts)
  from call_gets_reply [OF cdemo_own_reachable cdemo_seq cdemo_call(1) rtranclp.rtrancl_refl _ cdemo_call(2) _ this]
  show ?thesis by simp
qed

theorem connect_outcome_witness:
  "\<exists>s. flora_Client_connect cdemo_env cdemo_net (Some ''unix:s#a'') True False None [[RoData [0, 0, 0]], [RoData [0, 0, 0, 0, 0]]] =
      Some (Some FLORA_CLI_SUCCESS, s) \<and> is_closed s = Some False \<and> cmd_handler s = AfterAuth"
proof (rule cdemo_auth_sent)
  fix c
  assume a: "auth_send cdemo_env ''a'' 0 cdemo_open =
     Some (None, cdemo_open\<lparr>auth_result_set := True, ares_result := FLORA_CLI_EAUTH, ares_notified := False, connection := Some c\<rparr>)"
  show ?thesis using connect_outcome [OF cdemo_header cdemo_connecting(1,2) cdemo_connecting(4) [OF a] cdemo_connecting(3) _ _ cdemo_auth_resp,
     of "[[0, 0, 0], [0, 0, 0, 0, 0]]" True]
    by (auto simp: cframe_def numeral_eq_Suc)
qed

theorem close_complete_witness:
  "\<exists>u. iclose cdemo_env False FLORA_CLI_ECLOSED cdemo_called = Some u \<and> is_closed u = Some True \<and>
     (\<exists>v. recv_iter cdemo_env [] u = Some v \<and> \<not> recv_on v)"
  using close_complete [OF cdemo_called_reachable, where pas = False] by blast

end
