(* ===== verification/ClientDefects.thy ===== *)
theory ClientDefects
  imports ClientDemo
begin

text \<open>
  Inputs on which the client misbehaves, each proved of the model: a failed call that leaves a dangling
  pointer, an authentication that never returns, a return code that is lost in the C interface.
\<close>

lemma fresh_id:
  assumes "ids_ok seq prs" and "sint seq < 2 ^ 31 - 1" and "pr \<in> set prs"
  shows "pr_id pr \<noteq> seq + 1"
proof
  assume e: "pr_id pr = seq + 1"
  have z: "0 \<le> sint seq" using assms(1) by (simp add: ids_ok_def)
  note i = sint_inc [OF z assms(2)]
  have "pr_id pr \<noteq> 0" using e i z by auto
  with assms(1,3) have "sint (seq + 1) \<le> sint seq" using e by (auto simp: ids_ok_def)
  with i show False by simp
qed

lemma find_append_new: "(\<And>x. x \<in> set xs \<Longrightarrow> \<not> P x) \<Longrightarrow> find P (xs @ ys) = find P ys"
  by (induction xs) auto

text \<open>C39: A synchronous call whose write fails leaves its request, with the pointer to the caller's
  \<open>Response\<close>, in the list of pending requests. The caller gets \<open>FLORA_CLI_ECONN\<close> and its \<open>Response\<close> goes
  out of scope, but the connection stays open; a response message that carries the id of the failed call
  and success makes the receiving thread write through the dangling pointer.\<close>

theorem failed_call_dangles:
  assumes "client_ok w s" and "seq_left s"
    and call: "client_call E in_cb name msg target r timeout s = Some (CallReturned FLORA_CLI_ECONN, t)"
    and "resp_parse_reply (ccaps E) (undef_response E) resp = Some (cl_reqseq t, FLORA_CLI_SUCCESS, response, tg)"
  shows "on_reply_resp E resp (t\<lparr>live_resps := live_resps t - {r}\<rparr>) = None \<and> is_closed t = is_closed s"
  using call
proof (cases rule: client_call_cases)
  case (sent m ok)
  let ?pr = "\<lparr>pr_node = next_node s, pr_id = cl_reqseq s + 1, pr_rcode = 0, pr_result = Some r, pr_callback = None\<rparr>"
  from send_buffer_fields [OF sent(1)] have t: "pending_requests t = pending_requests s @ [?pr]" "cl_reqseq t = cl_reqseq s + 1"
    by (auto simp: add_pending_def)
  have "is_closed t = is_closed s" using send_buffer_account(3) [OF sent(1)] by (simp add: is_closed_def add_pending_def)
  moreover have "pr_id pr \<noteq> cl_reqseq s + 1" if "pr \<in> set (pending_requests s)" for pr
    using fresh_id [of "cl_reqseq s" "pending_requests s" pr] assms(1,2) that
    by (simp add: client_ok_def client_ids_def seq_left_def)
  then have "find (\<lambda>pr. pr_id pr = cl_reqseq s + 1) (pending_requests t) = Some ?pr"
    unfolding t(1) by (simp add: find_append_new)
  then have "on_reply_resp E resp (t\<lparr>live_resps := live_resps t - {r}\<rparr>) = None"
    by (simp add: on_reply_resp_def assms(4) t(2) Let_def)
  ultimately show ?thesis by simp
qed simp


definition cdemo_broken :: "lite cenv" where
  "cdemo_broken = cdemo_env\<lparr>cwrite := (\<lambda>l n d. SysErr EAGAIN)\<rparr>"

definition cdemo_failed :: "lite client" where
  "cdemo_failed = snd (the (client_call cdemo_broken False (Some ''m'') None (Some ''b'') 5 300 cdemo_own))"

lemma cdemo_fail:
  "client_call cdemo_broken False (Some ''m'') None (Some ''b'') 5 300 cdemo_own = Some (CallReturned FLORA_CLI_ECONN, cdemo_failed)"
  "cl_reqseq cdemo_failed = 1"
proof -
  obtain c where d: "connection cdemo = Some c" "sock_ready c" "options cdemo = copts" "cl_serialize_flags cdemo = 0"
    "next_node cdemo = 0" "cl_reqseq cdemo = 0" by (rule cdemo_state)
  show "client_call cdemo_broken False (Some ''m'') None (Some ''b'') 5 300 cdemo_own = Some (CallReturned FLORA_CLI_ECONN, cdemo_failed)"
    "cl_reqseq cdemo_failed = 1" using d
    by (simp_all add: cdemo_failed_def cdemo_own_def client_call_def copts_fields is_monitor_def cdemo_broken_def cdemo_env_def
        lite_ops_def ser_defs ser_check_def send_buffer_def add_pending_def conn_send_def Let_def)
qed

theorem failed_call_dangles_witness:
  "on_reply_resp cdemo_broken [MInt 1, MInt 0, MInt 42, MCaps None, MStr ''x'', MLong 7]
     (cdemo_failed\<lparr>live_resps := live_resps cdemo_failed - {5}\<rparr>) = None \<and> is_closed cdemo_failed = Some False"
proof -
  have "resp_parse_reply (ccaps cdemo_broken) (undef_response cdemo_broken)
      [MInt 1, MInt 0, MInt 42, MCaps None, MStr ''x'', MLong 7] =
      Some (cl_reqseq cdemo_failed, FLORA_CLI_SUCCESS, \<lparr>ret_code = 42, resp_data = None, resp_extra = ''x''\<rparr>, 7)"
    by (simp add: cdemo_fail(2) cdemo_broken_def cdemo_env_def lite_ops_def ser_defs undef_response_def flora_consts)
  from failed_call_dangles [OF cl_reachable_ok [OF cdemo_own_reachable] cdemo_seq(1) cdemo_fail(1) this]
  show ?thesis by - (rule cdemo_state, simp add: cdemo_own_def is_closed_def conn_closed_def)
qed

text \<open>A message larger than the receive buffer that arrives while \<open>auth\<close> waits ends the receiving thread
  without waking \<open>auth\<close>: whatever happens afterwards, \<open>connect\<close> does not return.\<close>

lemma full_buffer_blocks_connect:
  assumes "client_inv w s" and "rbuf_off s = bufsize (options s)" and "\<not> ares_notified s" and "recv_on s"
  shows "\<exists>t. recv_until_woken E (outs # script) s = Some t \<and> \<not> ares_notified t \<and> \<not> recv_on t"
proof -
  from iclose_inv [OF assms(1), of E True FLORA_CLI_EINSUFF_BUF] obtain t where t: "iclose E True FLORA_CLI_EINSUFF_BUF s = Some t" by blast
  obtain c where c: "connection s = Some c" "requests_ok w (live_resps s) (next_node s) (pending_requests s)"
    using assms(1) by (rule client_invE)
  have n: "\<not> ares_notified t"
    using iclose_open [OF c(2,1)] iclose_closed [OF c(1)] t assms(3) by (cases "conn_closed c") auto
  let ?t = "t\<lparr>recv_on := False\<rparr>"
  have "recv_until_woken E script ?t = Some ?t" by (cases script) simp_all
  moreover have "recv_iter E outs s = Some ?t" using t assms(2) by (simp add: recv_iter_def recv_exit_def)
  ultimately show ?thesis using assms(3,4) n by (intro exI [of _ ?t]) simp
qed

text \<open>In the C interface the return code written with \<open>flora_call_reply_write_code\<close> is lost:
  \<open>flora_call_reply_end\<close> overwrites it with 0.\<close>

lemma c_reply_code_lost:
  "flora_call_reply_end E (flora_call_reply_write_code reply code) s = flora_call_reply_end E reply s"
  by (simp add: flora_call_reply_end_def flora_call_reply_write_code_def reply_end_def reply_write_code_def)

text \<open>\<open>iclose\<close> shuts the connection before it takes the lock under which it sets the reason. A waiting
  call that looks in between finds the connection closed and returns the reason of a client that was
  never closed, 0: success, with a \<open>Response\<close> nobody has filled in.\<close>

lemma closing_call_succeeds:
  assumes "find_node it s = Some pr" and "pr_id pr \<noteq> 0" and "connection s = Some c" and "close_reason s = 0"
  shows "\<exists>t. call_check it (s\<lparr>connection := Some (conn_close c)\<rparr>) = Some (Some FLORA_CLI_SUCCESS, t) \<and> responses t = responses s"
  using assms by (simp add: call_check_def find_node_def is_closed_def erase_node_def flora_consts)

end
