(* ===== verification/PollLife.thy ===== *)
theory PollLife
  imports SockPoll
begin

text \<open>
  The life of a poll: opening the listening socket, the waits in \<open>select\<close>, the whole loop of the poll
  thread with its end, and the C interface. What the system calls return, and when another thread
  calls \<open>stop\<close>, are arguments.
\<close>

section \<open>Opening the socket\<close>

datatype listen_op = LUnlink string | LReuseAddr | LBindUnix string | LBindTcp u32 u16 | LClose | LListen nat

text \<open>The descriptor \<open>socket\<close> gave, the first address \<open>gethostbyname\<close> found, and whether \<open>bind\<close> succeeds,
  with the poll's name and port.\<close>

record listen_env =
  l_fd :: int
  l_dns :: "u32 option"
  l_bind :: bool
  l_name :: string
  l_port :: i32

text \<open>The calls made, and the listening descriptor. \<open>None\<close>: \<open>strcpy\<close> writes past the 108 characters of
  \<open>sun_path\<close>.\<close>

definition init_unix_socket :: "listen_env \<Rightarrow> (listen_op list \<times> int option) option" where
  "init_unix_socket l =
     (if l_fd l < 0 then Some ([], None)
      else if 108 \<le> length (c_str (l_name l)) then None
      else
        (let ops = [LUnlink (c_str (l_name l)), LBindUnix (c_str (l_name l))] in
         if \<not> l_bind l then Some (ops @ [LClose], None)
         else Some (ops @ [LListen 10], Some (l_fd l))))"

definition init_tcp_socket :: "listen_env \<Rightarrow> listen_op list \<times> int option" where
  "init_tcp_socket l =
     (if l_fd l < 0 then ([], None)
      else
        (case l_dns l of
           None \<Rightarrow> ([LReuseAddr, LClose], None)
         | Some addr \<Rightarrow>
             (let ops = [LReuseAddr, LBindTcp addr (htons (ucast (l_port l)))] in
              if \<not> l_bind l then (ops @ [LClose], None)
              else (ops @ [LListen 10], Some (l_fd l)))))"

definition socket_poll_start :: "listen_env \<Rightarrow> 'c disp \<Rightarrow> spoll \<Rightarrow> (i32 \<times> spoll \<times> listen_op list) option" where
  "socket_poll_start l s p =
     (if dispatcher p then Some (FLORA_POLL_ALREADY_START, p, [])
      else
        map_option (\<lambda>(ops, sock). let (r, p) = poll_start sock s p in (r, p, ops))
          (if p_type p = POLL_TYPE_TCP then Some (init_tcp_socket l) else init_unix_socket l))"

text \<open>The part of \<open>stop\<close> before it joins the thread; \<open>poll_stop\<close> is the whole of it.\<close>

definition stop_request :: "spoll \<Rightarrow> spoll" where
  "stop_request p = (if \<not> dispatcher p then p else p\<lparr>listen_fd := - 1\<rparr>)"

section \<open>Waiting\<close>

text \<open>What \<open>select\<close> returns, with the times read before and after it. Only \<open>EAGAIN\<close> is tried again.\<close>

datatype select_out = SelReady nat | SelErr errno

fun do_poll :: "select_out list \<Rightarrow> int option" where
  "do_poll [] = None"
| "do_poll (SelReady n # outs) = Some (int n)"
| "do_poll (SelErr e # outs) = (if e = EAGAIN then do_poll outs else Some (- 1))"

text \<open>The keep-alive poll: the time passed to \<open>select\<close> (none: for ever) in each round, the result, and the
  poll after the connections that were silent too long have been shut down.\<close>

fun beep_do_poll :: "(time \<times> select_out \<times> time) list \<Rightarrow> spoll \<Rightarrow> ((int \<times> int) option list \<times> int \<times> aid list \<times> spoll) option" where
  "beep_do_poll [] p = None"
| "beep_do_poll ((before, out, nowtp) # outs) p =
     (let tv = (if active_adapters p = [] then None else Some (obtain_timeout before p)) in
      case out of
        SelErr e \<Rightarrow>
          if e = EAGAIN then map_option (\<lambda>(tvs, r). (tv # tvs, r)) (beep_do_poll outs p)
          else (let (shut, p) = shutdown_timeout_adapter nowtp p in Some ([tv], - 1, shut, p))
      | SelReady n \<Rightarrow> (let (shut, p) = shutdown_timeout_adapter nowtp p in Some ([tv], int n, shut, p)))"

section \<open>The thread\<close>

text \<open>One round of \<open>run\<close>: the rounds of \<open>do_poll\<close>, whether \<open>stop\<close> has been called when \<open>listen_fd\<close> is looked at,
  and the ready descriptors with the time.\<close>

record poll_round =
  pt_select :: "(time \<times> select_out \<times> time) list"
  pt_stopped :: bool
  pt_now :: time
  pt_ready :: "ready list"

definition wait_poll :: "(time \<times> select_out \<times> time) list \<Rightarrow> spoll \<Rightarrow> (int \<times> spoll) option" where
  "wait_poll outs p =
     (if beep p then map_option (\<lambda>(tvs, r, shut, p). (r, p)) (beep_do_poll outs p)
      else map_option (\<lambda>r. (r, p)) (do_poll (map (fst \<circ> snd) outs)))"

text \<open>The loop: whether the thread has returned, and the state. It has not when it still waits.\<close>

fun poll_thread :: "'c env \<Rightarrow> poll_round list \<Rightarrow> spoll \<times> 'c disp \<Rightarrow> (bool \<times> spoll \<times> 'c disp) option" where
  "poll_thread E [] ps = Some (False, ps)"
| "poll_thread E (x # xs) ps =
     (case wait_poll (pt_select x) (fst ps) of
        None \<Rightarrow> Some (False, ps)
      | Some (r, p) \<Rightarrow>
          if r < 0 then Some (True, run_end (p, snd ps))
          else
            (let p = (if pt_stopped x then stop_request p else p) in
             if listen_fd p < 0 then Some (True, run_end (p, snd ps))
             else if r = 0 then poll_thread E xs (p, snd ps)
             else Option.bind (run_turn E (pt_now x) (pt_ready x) (p, snd ps)) (poll_thread E xs)))"

section \<open>The C interface\<close>

definition flora_poll_start :: "bool \<Rightarrow> bool \<Rightarrow> listen_env \<Rightarrow> 'c disp \<Rightarrow> spoll \<Rightarrow> (i32 \<times> spoll \<times> listen_op list) option" where
  "flora_poll_start has_poll has_disp l s p =
     (if \<not> has_poll \<or> \<not> has_disp then Some (FLORA_POLL_INVAL, p, []) else socket_poll_start l s p)"

definition flora_poll_stop :: "bool \<Rightarrow> spoll \<Rightarrow> spoll" where
  "flora_poll_stop has_poll p = (if has_poll then poll_stop p else p)"

text \<open>The destructor stops the poll.\<close>

definition delete_SocketPoll :: "spoll \<Rightarrow> spoll" where
  "delete_SocketPoll p = poll_stop p"

definition flora_poll_delete :: "bool \<Rightarrow> spoll \<Rightarrow> spoll" where
  "flora_poll_delete has_poll p = (if has_poll then delete_SocketPoll p else p)"

text \<open>The functions of the dispatcher; \<open>epoch\<close> and \<open>ids\<close> are as for the constructor.\<close>

definition new_instance_dispatcher :: "u32 \<Rightarrow> u32 \<Rightarrow> time \<Rightarrow> u32 \<Rightarrow> 'c disp" where
  "new_instance_dispatcher flags msg_buf_size epoch ids = new_Dispatcher flags msg_buf_size epoch ids"

definition flora_dispatcher_new :: "u32 \<Rightarrow> u32 \<Rightarrow> time \<Rightarrow> u32 \<Rightarrow> 'c disp" where
  "flora_dispatcher_new flags msg_buf_size epoch ids = new_Dispatcher flags msg_buf_size epoch ids"

definition flora_dispatcher_delete :: "bool \<Rightarrow> 'c disp \<Rightarrow> 'c disp" where
  "flora_dispatcher_delete has_disp s = (if has_disp then delete_Dispatcher s else s)"

definition flora_dispatcher_run :: "bool \<Rightarrow> 'c disp \<Rightarrow> 'c disp" where
  "flora_dispatcher_run has_disp s = (if has_disp then disp_run s else s)"

definition flora_dispatcher_close :: "bool \<Rightarrow> 'c disp \<Rightarrow> 'c disp" where
  "flora_dispatcher_close has_disp s = (if has_disp then disp_close s else s)"

section \<open>Properties\<close>

text \<open>What the kernel and the clients have to respect along the rounds, as for one event.\<close>

fun turn_ok :: "'c env \<Rightarrow> time \<Rightarrow> ready list \<Rightarrow> spoll \<times> 'c disp \<Rightarrow> bool" where
  "turn_ok E nowtp [] ps = True"
| "turn_ok E nowtp (ev # evs) ps =
     (event_ok E ev (fst ps) (snd ps) \<and> (case on_ready E nowtp ev ps of None \<Rightarrow> True | Some ps \<Rightarrow> turn_ok E nowtp evs ps))"

fun release_ok :: "(int \<times> aid) list \<Rightarrow> spoll \<times> 'c disp \<Rightarrow> bool" where
  "release_ok [] ps = True"
| "release_ok ((fd, a) # fds) ps =
     ((has_info (snd ps) a \<or> a \<notin> snd ` set (queue (snd ps))) \<and> release_ok fds (delete_adapter fd a ps))"

fun thread_ok :: "'c env \<Rightarrow> poll_round list \<Rightarrow> spoll \<times> 'c disp \<Rightarrow> bool" where
  "thread_ok E [] ps = True"
| "thread_ok E (x # xs) ps =
     (case wait_poll (pt_select x) (fst ps) of
        None \<Rightarrow> True
      | Some (r, p) \<Rightarrow>
          if r < 0 then release_ok (adapters p) (p, snd ps)
          else
            (let p = (if pt_stopped x then stop_request p else p) in
             if listen_fd p < 0 then release_ok (adapters p) (p, snd ps)
             else if r = 0 then thread_ok E xs (p, snd ps)
             else turn_ok E (pt_now x) (pt_ready x) (p, snd ps) \<and>
               (case run_turn E (pt_now x) (pt_ready x) (p, snd ps) of None \<Rightarrow> True | Some ps \<Rightarrow> thread_ok E xs ps)))"

text \<open>Reading, a turn and the thread return whatever arrives.\<close>

lemma frame_loop_returns:
  assumes "caps_nonempty (caps E)"
  shows "\<exists>ok t. frame_loop E a s = Some (ok, t)"
proof (induction "unat (cur_size (heap s a) - frame_begin (heap s a))" arbitrary: s rule: less_induct)
  case less
  obtain r frame ad where nf: "next_frame (caps E) (heap s a) = (r, frame, ad)" by (rule prod_cases3)
  let ?s = "s\<lparr>heap := (heap s)(a := ad)\<rparr>"
  show ?case
  proof (cases "r = SOCK_ADAPTER_SUCCESS \<and> fst (put E (the frame) a ?s)")
    case True
    then obtain c where c: "caps_parse (caps E) (the frame) = Some c" by (auto simp: put_def split: option.splits)
    with assms [unfolded caps_nonempty_def] have "the frame \<noteq> []" by auto
    with True nf have "unat (cur_size ad - frame_begin ad) < unat (cur_size (heap s a) - frame_begin (heap s a))"
      by (auto simp: next_frame_def flora_consts Let_def diff_diff_eq [symmetric] word_less_nat_alt unat_sub word_le_nat_alt
          split: option.splits if_splits)
    from less [of "snd (put E (the frame) a ?s)"] this True c show ?thesis
      by (subst frame_loop.simps) (simp add: nf put_parsed [OF c])
  next
    case False
    then show ?thesis by (subst frame_loop.simps) (auto simp: nf Let_def split: prod.split)
  qed
qed

lemma on_ready_returns:
  assumes "caps_nonempty (caps E)"
  shows "\<exists>qs. on_ready E nowtp ev ps = Some qs"
proof -
  have "do_read E rdr a (snd ps) \<noteq> None" for rdr a
    using frame_loop_returns [OF assms] by (force simp: do_read_def Let_def split: prod.split)
  then have "on_ready E nowtp ev ps \<noteq> None"
    by (simp add: on_ready_def del: not_None_eq split: ready.split option.split)
  then show ?thesis by simp
qed

lemma run_turn_returns: "caps_nonempty (caps E) \<Longrightarrow> \<exists>q t. run_turn E nowtp evs ps = Some (q, t)"
proof (induction evs arbitrary: ps)
  case (Cons ev evs)
  from on_ready_returns [OF Cons.prems] obtain qs where "on_ready E nowtp ev ps = Some qs" by blast
  with Cons show ?case by simp
qed simp

lemma poll_thread_returns:
  assumes "caps_nonempty (caps E)"
  shows "\<exists>ended q t. poll_thread E xs ps = Some (ended, q, t)"
proof (induction xs arbitrary: ps)
  case Nil
  show ?case by (cases ps) auto
next
  case (Cons x xs)
  show ?case
  proof (cases "wait_poll (pt_select x) (fst ps)")
    case None
    then show ?thesis by (cases ps) auto
  next
    case (Some y)
    obtain r p where y: "y = (r, p)" by fastforce
    define p' where "p' = (if pt_stopped x then stop_request p else p)"
    from run_turn_returns [OF assms] obtain q t where "run_turn E (pt_now x) (pt_ready x) (p', snd ps) = Some (q, t)" by blast
    then show ?thesis using Some y Cons.IH [of "(p', snd ps)"] Cons.IH [of "(q, t)"]
      by (cases "run_end (p, snd ps)"; cases "run_end (p', snd ps)") (auto simp: Let_def p'_def [symmetric])
  qed
qed

lemma holds_same: "adapters q = adapters p \<Longrightarrow> holds p s \<Longrightarrow> holds q s"
  by (simp add: holds_def)

lemma beep_do_poll_adapters: "beep_do_poll outs p = Some (tvs, r, shut, q) \<Longrightarrow> adapters q = adapters p \<and> listen_fd q = listen_fd p"
  by (induction outs p arbitrary: tvs rule: beep_do_poll.induct)
    (auto simp: shutdown_timeout_adapter_def Let_def split: select_out.splits if_splits prod.splits)

lemma wait_poll_adapters: "wait_poll outs p = Some (r, q) \<Longrightarrow> adapters q = adapters p \<and> listen_fd q = listen_fd p"
  by (auto simp: wait_poll_def dest: beep_do_poll_adapters split: if_splits)

lemma run_turn_refines:
  assumes "holds p s" and "turn_ok E nowtp evs (p, s)" and "run_turn E nowtp evs (p, s) = Some (q, t)"
  shows "(svc_step E)\<^sup>*\<^sup>* s t \<and> holds q t"
  using assms
proof (induction evs arbitrary: p s)
  case (Cons ev evs)
  then obtain p1 s1 where 1: "on_ready E nowtp ev (p, s) = Some (p1, s1)" "run_turn E nowtp evs (p1, s1) = Some (q, t)"
    by (cases "on_ready E nowtp ev (p, s)") auto
  from poll_refines_service [OF Cons.prems(1) _ 1(1)] Cons.prems(2) have h: "(svc_step E)\<^sup>*\<^sup>* s s1" "holds p1 s1" by simp_all
  from Cons.IH [OF h(2) _ 1(2)] Cons.prems(2) 1(1) h(1) show ?case by auto
qed simp

lemma release_all_refines:
  assumes "holds p s" and "fds = adapters p" and "release_ok fds (p, s)"
  shows "\<exists>q t. release_all fds (p, s) = (q, t) \<and> (svc_step E)\<^sup>*\<^sup>* s t \<and> adapters q = [] \<and> poll_refs t = []"
  using assms
proof (induction fds arbitrary: p s)
  case Nil
  then show ?case by (auto simp: holds_def)
next
  case (Cons x fds)
  obtain fd a where x: "x = (fd, a)" by fastforce
  let ?p = "fst (delete_adapter fd a (p, s))" and ?t = "snd (delete_adapter fd a (p, s))"
  have m: "map_of (adapters p) fd = Some a" using Cons.prems(2) x by (metis map_of_Cons_code(2) fst_conv snd_conv)
  have d: "distinct (map fst (adapters p))" using Cons.prems(1) map_ok_distinct by (auto simp: holds_def)
  have "map_of fds fd = None" using d Cons.prems(2) [symmetric] x by (auto simp: map_of_eq_None_iff)
  then have f: "fds = adapters ?p"
    using Cons.prems(2) [symmetric] x map_erase_absent [of fds fd] by (simp add: delete_adapter_def map_erase_def)
  have a: "a \<in> set (poll_refs s)" using Cons.prems(1) map_of_SomeD [OF m] by (force simp: holds_def)
  have "svc_step E s (poll_drop a s)" using Cons.prems(3) x a by (intro svc_step.drop) simp_all
  moreover have t: "?t = poll_drop a s" by (simp add: delete_adapter_def)
  moreover from Cons.IH [OF holds_delete [OF Cons.prems(1) m] f] Cons.prems(3) x obtain q u where
    "release_all fds (?p, ?t) = (q, u)" "(svc_step E)\<^sup>*\<^sup>* ?t u" "adapters q = []" "poll_refs u = []" by auto
  moreover have "release_all (x # fds) (p, s) = release_all fds (?p, ?t)" using x by simp
  ultimately show ?case by (metis converse_rtranclp_into_rtranclp)
qed

lemma poll_thread_steps:
  assumes "holds p s" and "thread_ok E xs (p, s)" and "poll_thread E xs (p, s) = Some (ended, q, t)"
  shows "(svc_step E)\<^sup>*\<^sup>* s t \<and> (if ended then adapters q = [] \<and> poll_refs t = [] else holds q t)"
  using assms
proof (induction xs arbitrary: p s)
  case (Cons x xs)
  show ?case
  proof (cases "wait_poll (pt_select x) p")
    case None
    with Cons.prems show ?thesis by simp
  next
    case (Some y)
    obtain r p1 where y: "y = (r, p1)" by fastforce
    define p2 where "p2 = (if pt_stopped x then stop_request p1 else p1)"
    have a: "adapters p1 = adapters p" "adapters p2 = adapters p" "adapters p2 = adapters p1"
      using wait_poll_adapters [of "pt_select x" p r p1] Some y by (auto simp: p2_def stop_request_def)
    have h: "holds p1 s" "holds p2 s" using Cons.prems(1) a holds_same by auto
    have stop: ?thesis if "release_ok (adapters p') (p', s)" "(ended, q, t) = (True, run_end (p', s))" "holds p' s" for p'
      using release_all_refines [OF that(3) refl that(1), of E] that(2) by (auto simp: run_end_def)
    consider "r < 0" | "\<not> r < 0" "listen_fd p2 < 0" | "r = 0" "\<not> listen_fd p2 < 0" | "0 < r" "\<not> listen_fd p2 < 0" by linarith
    then show ?thesis
    proof cases
      case 1
      with Cons.prems(2,3) Some y h(1) show ?thesis by (intro stop [of p1]) simp_all
    next
      case 2
      with Cons.prems(2,3) Some y h(2) show ?thesis by (intro stop [of p2]) (simp_all add: Let_def p2_def)
    next
      case 3
      with Cons.IH [OF h(2)] Cons.prems(2,3) Some y show ?thesis by (simp add: Let_def p2_def)
    next
      case 4
      with Cons.prems(2,3) Some y have ok: "turn_ok E (pt_now x) (pt_ready x) (p2, s)"
        and b: "Option.bind (run_turn E (pt_now x) (pt_ready x) (p2, s)) (poll_thread E xs) = Some (ended, q, t)"
        and k: "case run_turn E (pt_now x) (pt_ready x) (p2, s) of None \<Rightarrow> True | Some ps \<Rightarrow> thread_ok E xs ps"
        by (simp_all add: Let_def p2_def)
      from b obtain p3 s3 where 3: "run_turn E (pt_now x) (pt_ready x) (p2, s) = Some (p3, s3)"
        "poll_thread E xs (p3, s3) = Some (ended, q, t)" by (cases "run_turn E (pt_now x) (pt_ready x) (p2, s)") auto
      from run_turn_refines [OF h(2) ok 3(1)] have "(svc_step E)\<^sup>*\<^sup>* s s3" "holds p3 s3" by simp_all
      with Cons.IH [OF _ _ 3(2)] k 3(1) show ?thesis by (auto intro: rtranclp_trans)
    qed
  qed
qed simp


text \<open>A signal that interrupts \<open>select\<close> ends the thread: every connection is dropped.\<close>

lemma signal_ends_poll:
  assumes "\<not> beep p" and "pt_select x = [(before, SelErr EINTR, nowtp)]"
  shows "poll_thread E (x # xs) (p, s) = Some (True, run_end (p, s))"
  using assms by (simp add: wait_poll_def)

text \<open>Starting either succeeds with the socket listening and the poll attached, or leaves the poll as it was
  and closes the socket if there was one.\<close>

lemma start_outcome:
  assumes "socket_poll_start l s p = Some (r, q, ops)" and "\<not> dispatcher p"
  shows "if r = FLORA_POLL_SUCCESS then 0 \<le> l_fd l \<and> l_bind l \<and> dispatcher q \<and> listen_fd q = l_fd l \<and> last ops = LListen 10 \<and> LClose \<notin> set ops
    else q = p \<and> (0 \<le> l_fd l \<longrightarrow> last ops = LClose)"
  using assms
  by (auto simp: socket_poll_start_def init_unix_socket_def init_tcp_socket_def poll_start_def flora_consts Let_def
      split: if_splits option.splits)

text \<open>A poll with two connections reads a message from one of them and is then stopped.\<close>

definition demo_rounds :: "poll_round list" where
  "demo_rounds = [\<lparr>pt_select = [(0, SelErr EAGAIN, 0), (0, SelReady 1, 0)], pt_stopped = False, pt_now = 0, pt_ready = [demo_event]\<rparr>,
     \<lparr>pt_select = [(0, SelReady 1, 0)], pt_stopped = True, pt_now = 0, pt_ready = []\<rparr>]"

definition demo_poll_up :: spoll where
  "demo_poll_up = demo_fds\<lparr>listen_fd := 4, dispatcher := True, adapters := [(5, 1), (6, 2)]\<rparr>"


end
