(* ===== verification/EndToEnd.thy ===== *)
theory EndToEnd
  imports ClientLife DispProps Service CapsRef
begin

text \<open>
  Client and service together: a message posted with one client's \<open>post\<close> goes through the
  serialisers, the dispatcher and the receiving thread of another client to its application.
\<close>

section \<open>What goes over the wire\<close>

lemma parse_post_request:
  assumes "caps_laws C content rest" and "req_serialize_post C (Some name) type msg sz fl = (r, bs)" and "0 \<le> sint r"
  obtains c c' args where "caps_parse C bs = Some c" "read_i32 C c = (Some CMD_POST_REQ, c')"
    "req_parse_post C c' = Some (name, type, args)" "map_option content args = map_option content msg"
proof -
  from serialize_request_object [OF assms(1), of "Post name type msg" sz fl] obtain k where
    k: "req_serialize_post C (Some name) type msg sz fl = ser_check sz (serialize C sz fl k)"
      "content k = request_members content (Post name type msg)" by auto
  from ser_check_parse [OF _ assms(3,1)] assms(2) k obtain c where
    c: "caps_parse C bs = Some c" "rest c = request_members content (Post name type msg)" by metis
  from c(2) obtain c1 where 1: "read_i32 C c = (Some CMD_POST_REQ, c1)"
      "rest c1 = [MInt type, MStr name, MCaps (map_option content msg)]" by (auto elim: read_i32I [OF assms(1)])
  from read_u32I [OF assms(1) 1(2)] obtain c2 where 2: "read_u32 C c1 = (Some type, c2)"
      "rest c2 = [MStr name, MCaps (map_option content msg)]" by blast
  from read_stringI [OF assms(1) 2(2)] obtain c3 where 3: "read_string C c2 = (Some name, c3)"
      "rest c3 = [MCaps (map_option content msg)]" by blast
  from read_capsI [OF assms(1) 3(2)] obtain c4 args where 4: "read_caps C c3 = (Some args, c4)"
      "map_option content args = map_option content msg" by metis
  from 1 2 3 4 c(1) that show ?thesis by (simp add: req_parse_post_def)
qed

lemma parse_post_response:
  assumes "caps_laws C content rest" and "resp_serialize_post C (Some name) type msg tg (Some cn) sz fl = (r, bs)" and "0 \<le> sint r"
  obtains c c' args where "caps_parse C bs = Some c" "read_i32 C c = (Some CMD_POST_RESP, c')" "is_frame C sz bs"
    "resp_parse_post C c' = Some (name, type, args, tg, cn)" "map_option content args = map_option content msg"
proof -
  from serialize_response_object [OF assms(1), of "PostResp name type msg tg cn" sz fl] obtain k where
    k: "resp_serialize_post C (Some name) type msg tg (Some cn) sz fl = ser_check sz (serialize C sz fl k)"
      "content k = response_members content (PostResp name type msg tg cn)" by auto
  from ser_check_parse [OF _ assms(3,1)] assms(2) k obtain c where
    c: "caps_parse C bs = Some c" "rest c = response_members content (PostResp name type msg tg cn)" by metis
  have f: "is_frame C sz bs" by (rule ser_check_frame(1) [OF _ assms(3,1)]) (use assms(2) k in simp)
  from c(2) obtain c1 where 1: "read_i32 C c = (Some CMD_POST_RESP, c1)"
      "rest c1 = [MInt type, MStr name, MCaps (map_option content msg), MLong tg, MStr cn]" by (auto elim: read_i32I [OF assms(1)])
  from read_u32I [OF assms(1) 1(2)] obtain c2 where 2: "read_u32 C c1 = (Some type, c2)"
      "rest c2 = [MStr name, MCaps (map_option content msg), MLong tg, MStr cn]" by blast
  from read_stringI [OF assms(1) 2(2)] obtain c3 where 3: "read_string C c2 = (Some name, c3)"
      "rest c3 = [MCaps (map_option content msg), MLong tg, MStr cn]" by blast
  from read_capsI [OF assms(1) 3(2)] obtain c4 args where 4: "read_caps C c3 = (Some args, c4)"
      "map_option content args = map_option content msg" "rest c4 = [MLong tg, MStr cn]" by metis
  from read_u64I [OF assms(1) 4(3)] obtain c5 where 5: "read_u64 C c4 = (Some tg, c5)" "rest c5 = [MStr cn]" by blast
  from read_stringI [OF assms(1) 5(2)] obtain c6 where 6: "read_string C c5 = (Some cn, c6)" by blast
  from 1 2 3 4 5 6 c(1) f that show ?thesis by (simp add: resp_parse_post_def)
qed

text \<open>A request that was sent is one more write on the client's connection.\<close>

lemma send_request_sent:
  assumes "send_request E m s = Some (FLORA_CLI_SUCCESS, t)"
  obtains c c' r where "connection s = Some c" "connection t = Some c'" "conn_io c' = conn_io c @ [OpWrite (fst m) (snd m) r]"
    "0 < sint (fst m)"
proof -
  have "FLORA_CLI_EINVAL \<noteq> FLORA_CLI_SUCCESS" "FLORA_CLI_ECONN \<noteq> FLORA_CLI_SUCCESS" by (simp_all add: flora_consts)
  with assms obtain c where "0 < sint (fst m)" "connection s = Some c" "sock_ready c"
      "t = s\<lparr>connection := Some (snd (conn_send (cwrite E) (fst m) (snd m) c))\<rparr>"
    by (auto simp: send_request_def send_buffer_def conn_send_def split: if_splits option.splits prod.splits)
  then show ?thesis using that by (auto simp: conn_send_def conn_log_def Let_def split: sysret.splits)
qed

lemma deliver_post:
  assumes "caps_parse (ccaps E) f = Some c" and "read_i32 (ccaps E) c = (Some CMD_POST_RESP, c')"
    and "resp_parse_post (ccaps E) c' = Some (name, type, args, tg, cn)"
    and "cmd_handler q = AfterAuth" and "cli_callback q"
  shows "client_deliver E f (client_view q) =
    Some (client_view (emit (UpPost (c_str name) type args tg cn) (q\<lparr>cl_tag := tg, sender_name := cn\<rparr>)))"
  using assms by (simp add: client_deliver_def run_handler_def handle_cmd_after_auth_def on_post_resp_def flora_consts
    client_view_def with_buf_def emit_def)

lemma filter_sent:
  "\<lbrakk>distinct xs; b \<in> set xs\<rbrakk> \<Longrightarrow>
   filter (\<lambda>w. fst w = b) (map (\<lambda>x. (x, m)) (filter P xs)) = (if P b then [(b, m)] else [])"
  by (induction xs) (auto simp: filter_empty_conv)

text \<open>The service's side: the packet is handled, and each subscriber gets one write.\<close>

lemma service_posts:
  assumes inv: "disp_inv s" and i: "deref_info s a = Some i" "\<not> is_monitor (ai_flags i)"
    and p: "read_i32 (caps E) c = (Some CMD_POST_REQ, c')" "req_parse_post (caps E) c' = Some (name, type, args)"
    and v: "is_valid_msgtype type" "name \<noteq> []"
    and fits: "\<And>fl. 0 \<le> sint (fst (post_bytes E s a (ai_name i) name type args fl))"
    and b: "b \<in> set (live s name)"
  obtains t ws fl where "handle_cmd E nowtp endtp (Some c) a s = Some t" "writes (iolog t) = writes (iolog s) @ ws"
    "filter (\<lambda>w. fst w = b) ws = [(b, post_bytes E s a (ai_name i) name type args fl)]"
proof -
  let ?m = "\<lambda>fl. post_bytes E s a (ai_name i) name type args fl"
  let ?n = "CAPS_FLAG_NET_BYTEORDER (caps E)"
  have hi: "has_info s a" using i by (auto simp: deref_info_def has_info_def split: if_splits)
  from post_to_subscribers_delivers [OF inv refl fits refl fits] obtain t0 where
    t0: "post_to_subscribers E name type args (Some a) (c_str (ai_name i)) s = Some t0"
      "writes (iolog t0) = writes (iolog s) @
        map (\<lambda>b. (b, ?m 0)) (filter (\<lambda>b. \<not> net_order E s b) (live s name)) @
        map (\<lambda>b. (b, ?m ?n)) (filter (net_order E s) (live s name))" by blast
  let ?u = "if type = FLORA_MSGTYPE_PERSIST then t0\<lparr>persist_msgs := map_put name args (persist_msgs t0)\<rparr> else t0"
  have "post_msg E name type args (Some a) s = Some (True, ?u)" using i v t0(1) by (simp add: post_msg_def)
  then have h: "handle_cmd E nowtp endtp (Some c) a s = Some (?u\<lparr>handle_cmd_tp := endtp\<rparr>)"
    using hi i p by (simp add: handle_cmd_def dispatch_cmd_def flora_consts msg_handlers_def handle_post_req_def)
  have d: "distinct (live s name)"
    using disp_invD(4) [OF inv] by (auto simp: live_def subscribers_def subs_ok_def split: option.split)
  have one: "filter (\<lambda>w. fst w = b) (map (\<lambda>b. (b, m)) (filter P (live s name))) = (if P b then [(b, m)] else [])" for m P
    using filter_sent [OF d b] .
  show ?thesis
  proof (rule that [OF h])
    show "writes (iolog (?u\<lparr>handle_cmd_tp := endtp\<rparr>)) = writes (iolog s) @ 
        map (\<lambda>b. (b, ?m 0)) (filter (\<lambda>b. \<not> net_order E s b) (live s name)) @
        map (\<lambda>b. (b, ?m ?n)) (filter (net_order E s) (live s name))" using t0(2) by simp
    show "filter (\<lambda>w. fst w = b) (map (\<lambda>b. (b, ?m 0)) (filter (\<lambda>b. \<not> net_order E s b) (live s name)) @
        map (\<lambda>b. (b, ?m ?n)) (filter (net_order E s) (live s name))) = [(b, ?m (if net_order E s b then ?n else 0))]"
      by (simp add: one)
  qed
qed

text \<open>C1: A posted message arrives. When a client posts a message and the write succeeds, the bytes it
  wrote are a message of the service; when the service handles it, every living, open subscriber of the
  name is sent exactly one message; and a subscriber's client that is given those bytes calls its
  application's \<open>recv_post\<close> with the name, the type and the content that were posted, the tag of the
  poster's connection and its name. The only condition on sizes is that the message, with the sender's
  name added, fits the service's buffer.\<close>

theorem post_end_to_end:
  assumes laws: "caps_laws C content rest" and same: "ccaps A = C" "caps E = C" "ccaps B = C"
    and post: "client_post A (Some name) msg type p = Some (FLORA_CLI_SUCCESS, p')" and "nul_free name" and "name \<noteq> []"
    and s: "disp_inv s" "deref_info s a = Some i" "\<not> is_monitor (ai_flags i)"
    and fits: "\<And>args fl. map_option content args = map_option content msg \<Longrightarrow>
      0 \<le> sint (fst (post_bytes E s a (ai_name i) name type args fl))"
    and b: "b \<in> set (live s name)"
    and q: "cmd_handler q = AfterAuth" "cli_callback q"
  shows "\<exists>n bs r io c t ws k f args.
    map_option conn_io (connection p) = Some io \<and> map_option conn_io (connection p') = Some (io @ [OpWrite n bs r]) \<and>
    caps_parse C bs = Some c \<and> handle_cmd E nowtp endtp (Some c) a s = Some t \<and>
    writes (iolog t) = writes (iolog s) @ ws \<and> filter (\<lambda>w. fst w = b) ws = [(b, k, f)] \<and>
    good_frame C (d_buf_size s) f \<and>
    client_deliver B f (client_view q) =
      Some (client_view (emit (UpPost name type args (tag (heap s a)) (c_str (ai_name i)))
        (q\<lparr>cl_tag := tag (heap s a), sender_name := c_str (ai_name i)\<rparr>))) \<and>
    map_option content args = map_option content msg"
proof -
  let ?r = "req_serialize_post C (Some name) type msg (bufsize (options p)) (cl_serialize_flags p)"
  have codes: "FLORA_CLI_EINVAL \<noteq> FLORA_CLI_SUCCESS" "FLORA_CLI_EMONITOR \<noteq> FLORA_CLI_SUCCESS" by (simp_all add: flora_consts)
  with post same have v: "is_valid_msgtype type" and sr: "send_request A ?r p = Some (FLORA_CLI_SUCCESS, p')"
    by (auto simp: client_post_def split: if_splits)
  from send_request_sent [OF sr] obtain k k' w where
    k: "connection p = Some k" "connection p' = Some k'" "conn_io k' = conn_io k @ [OpWrite (fst ?r) (snd ?r) w]" "0 < sint (fst ?r)"
    by blast
  obtain c c' args where c: "caps_parse C (snd ?r) = Some c" "read_i32 C c = (Some CMD_POST_REQ, c')"
      "req_parse_post C c' = Some (name, type, args)" "map_option content args = map_option content msg"
    by (rule parse_post_request [OF laws, of name type msg "bufsize (options p)" "cl_serialize_flags p" "fst ?r" "snd ?r"])
      (use k(4) in auto)
  note c' = c(2,3) [unfolded same(2) [symmetric]]
  from service_posts [OF s c' v assms(7) fits [OF c(4)] b, of nowtp endtp] obtain t ws fl where
    t: "handle_cmd E nowtp endtp (Some c) a s = Some t" "writes (iolog t) = writes (iolog s) @ ws"
      "filter (\<lambda>w. fst w = b) ws = [(b, post_bytes E s a (ai_name i) name type args fl)]" by blast
  let ?m = "post_bytes E s a (ai_name i) name type args fl"
  have m: "resp_serialize_post C (Some name) type args (tag (heap s a)) (Some (c_str (ai_name i))) (d_buf_size s) fl =
      (fst ?m, snd ?m)" using assms(6) same(2) by (simp add: post_bytes_def)
  from parse_post_response [OF laws m fits [OF c(4)]] obtain d d' args' where
    d: "caps_parse C (snd ?m) = Some d" "read_i32 C d = (Some CMD_POST_RESP, d')" "is_frame C (d_buf_size s) (snd ?m)"
      "resp_parse_post C d' = Some (name, type, args', tag (heap s a), c_str (ai_name i))"
      "map_option content args' = map_option content args" by blast
  note d' = d(1,2,4) [unfolded same(3) [symmetric]]
  from deliver_post [OF d' q] assms(6) have "client_deliver B (snd ?m) (client_view q) =
      Some (client_view (emit (UpPost name type args' (tag (heap s a)) (c_str (ai_name i)))
        (q\<lparr>cl_tag := tag (heap s a), sender_name := c_str (ai_name i)\<rparr>)))" by simp
  moreover have "good_frame C (d_buf_size s) (snd ?m)" using d(1,3) by (simp add: good_frame_def)
  moreover have "?m = (fst ?m, snd ?m)" by simp
  ultimately show ?thesis using k(1-3) c(1,4) t d(5) unfolding map_option_eq_Some by metis
qed
text \<open>For the witness: two registered clients of the service, 1 subscribed to ''t'', and the clients
  at the other ends, all on the reference instance of the Caps library.\<close>

definition e2e_env :: "ref_caps env" where
  "e2e_env = \<lparr>caps = ref_ops, kern = (\<lambda>l a n d. SysRet (unat n)), junk = 0\<rparr>"

definition e2e_cenv :: "ref_caps cenv" where
  "e2e_cenv = \<lparr>ccaps = ref_ops, uri_parse = (\<lambda>_. None), cwrite = (\<lambda>l n d. SysRet (unat n)), getpid = 7, cjunk = 99\<rparr>"

definition e2e_info :: "u32 \<Rightarrow> string \<Rightarrow> adapter_info" where
  "e2e_info k name = \<lparr>ai_id = k, ai_pid = 7, ai_name = name, declared_methods = {}, ai_flags = 0\<rparr>"

definition e2e_disp :: "ref_caps disp" where
  "e2e_disp = (new_Dispatcher 1 0 0 0)\<lparr>adapter_infos := [(1, e2e_info 1 ''a''), (2, e2e_info 2 ''b'')],
     named_adapters := [(''a'', 1), (''b'', 2)], subscriptions := [(''t'', [1])], poll_refs := [1, 2],
     heap := (\<lambda>_. demo_ad)(1 := demo_ad\<lparr>info := InfoAdapter\<rparr>, 2 := demo_ad\<lparr>info := InfoAdapter\<rparr>)\<rparr>"

definition e2e_client :: "ref_caps client" where
  "e2e_client = (new_Client (default_options\<lparr>bufsize := 64\<rparr>))
     \<lparr>connection := Some \<lparr>sock = 3, recv_timeout = 0, sock_ready = True, conn_io = []\<rparr>, cli_callback := True, cmd_handler := AfterAuth\<rparr>"

lemma e2e_inv: "disp_inv e2e_disp"
  by (intro disp_invI)
    (auto simp: inv_defs e2e_disp_def new_Dispatcher_def e2e_info_def demo_ad_def new_SocketAdapter_def has_info_def
      deref_info_def is_monitor_def map_ok_def flora_consts split: if_splits)

lemma e2e_fits: "0 \<le> sint (fst (post_bytes e2e_env e2e_disp 2 (ai_name (e2e_info 2 ''b'')) ''t'' 0 None fl))"
proof -
  have "0 \<le> sint (fst (serialize_response ref_ops (PostResp ''t'' 0 None (tag (heap e2e_disp 2)) ''b'') (d_buf_size e2e_disp) fl))"
    by (rule ref_response_nonneg) (simp_all add: e2e_disp_def new_Dispatcher_def flora_consts)
  then show ?thesis by (simp add: post_bytes_def e2e_env_def e2e_info_def c_str_def)
qed

lemma e2e_posted: "\<exists>p'. client_post e2e_cenv (Some ''t'') None 0 e2e_client = Some (FLORA_CLI_SUCCESS, p')"
proof -
  have "0 \<le> sint (fst (serialize_request ref_ops (Post ''t'' 0 None) 64 0))"
    by (rule ref_request_nonneg) simp_all
  then show ?thesis
    by (simp add: client_post_def e2e_cenv_def e2e_client_def default_options_def is_valid_msgtype_def is_monitor_def flora_consts
      send_request_def send_buffer_def conn_send_def ser_defs ref_ops_def ref_serialize_def append_member_def ser_check_def Let_def)
qed

theorem post_end_to_end_witness:
  "\<exists>c t ws k f. handle_cmd e2e_env 5 6 (Some c) 2 e2e_disp = Some t \<and> writes (iolog t) = writes (iolog e2e_disp) @ ws \<and>
     filter (\<lambda>w. fst w = 1) ws = [(1, k, f)] \<and>
     client_deliver e2e_cenv f (client_view e2e_client) =
       Some (client_view (emit (UpPost ''t'' 0 None 0 ''b'') (e2e_client\<lparr>cl_tag := 0, sender_name := ''b''\<rparr>)))"
proof -
  from e2e_posted obtain p' where p: "client_post e2e_cenv (Some ''t'') None 0 e2e_client = Some (FLORA_CLI_SUCCESS, p')" by blast
  have s: "deref_info e2e_disp 2 = Some (e2e_info 2 ''b'')" "\<not> is_monitor (ai_flags (e2e_info 2 ''b''))"
    "1 \<in> set (live e2e_disp ''t'')" "cmd_handler e2e_client = AfterAuth" "cli_callback e2e_client" "tag (heap e2e_disp 2) = 0"
    by (simp_all add: e2e_disp_def deref_info_def e2e_info_def is_monitor_def live_def subscribers_def alive_def
      demo_ad_def new_SocketAdapter_def closed_def e2e_client_def flora_consts)
  have same: "ccaps e2e_cenv = ref_ops" "caps e2e_env = ref_ops" by (simp_all add: e2e_cenv_def e2e_env_def)
  have fits: "0 \<le> sint (fst (post_bytes e2e_env e2e_disp 2 (ai_name (e2e_info 2 ''b'')) ''t'' 0 args fl))"
    if "map_option members args = map_option members None" for args fl using e2e_fits that by simp
  have n: "nul_free ''t''" "''t'' \<noteq> []" by (simp_all add: nul_free_def)
  have "ai_name (e2e_info 2 ''b'') = ''b''" "c_str ''b'' = ''b''" by (simp_all add: e2e_info_def c_str_def)
  with post_end_to_end [OF ref_laws same same(1) p n e2e_inv s(1,2) fits s(3,4,5), of 5 6] s(6)
  obtain c t ws k f where "handle_cmd e2e_env 5 6 (Some c) 2 e2e_disp = Some t" "writes (iolog t) = writes (iolog e2e_disp) @ ws"
     "filter (\<lambda>w. fst w = 1) ws = [(1, k, f)]"
     "client_deliver e2e_cenv f (client_view e2e_client) =
       Some (client_view (emit (UpPost ''t'' 0 None 0 ''b'') (e2e_client\<lparr>cl_tag := 0, sender_name := ''b''\<rparr>)))" by auto
  then show ?thesis by blast
qed

end
