(* ===== verification/CallEndToEnd.thy ===== *)
theory CallEndToEnd
  imports EndToEnd DispCalls
begin

text \<open>
  A remote call from end to end: the caller's \<open>call\<close>, the dispatcher, the callee's application, its
  reply, the dispatcher again, and the call that returns.
\<close>

section \<open>What goes over the wire\<close>

lemma parse_call_request:
  assumes "caps_laws C content rest" and "req_serialize_call C (Some name) msg (Some target) cid timeout sz fl = (r, bs)" and "0 \<le> sint r"
  obtains c c' args where "caps_parse C bs = Some c" "read_i32 C c = (Some CMD_CALL_REQ, c')"
    "req_parse_call C c' = Some (name, args, target, cid, timeout)" "map_option content args = map_option content msg"
proof -
  from serialize_request_object [OF assms(1), of "Call name msg target cid timeout" sz fl] ser_check_parse [OF _ assms(3,1)] assms(2)
  obtain c where c: "caps_parse C bs = Some c"
    "rest c = [MInt CMD_CALL_REQ, MStr name, MStr target, MInt cid, MInt timeout, MCaps (map_option content msg)]"
    by (metis request_members.simps(8) serialize_request.simps(8))
  from read_i32I [OF assms(1) c(2)] obtain c' where
    c': "read_i32 C c = (Some CMD_CALL_REQ, c')" "rest c' = [MStr name, MStr target, MInt cid, MInt timeout, MCaps (map_option content msg)]" .
  have "returns (\<lambda>x. \<exists>args. x = (name, args, target, cid, timeout) \<and> map_option content args = map_option content msg) (req_parse_call C c')"
    unfolding req_parse_call_def by (insert c'(2), (erule rd_rules [OF assms(1)])+) simp
  with that [OF c(1) c'(1)] show ?thesis by (blast dest: returnsD)
qed

lemma parse_reply_request:
  assumes "caps_laws C content rest" and "req_serialize_reply C sid code data sz fl = (r, bs)" and "0 \<le> sint r"
  obtains c c' d where "caps_parse C bs = Some c" "read_i32 C c = (Some CMD_REPLY_REQ, c')"
    "req_parse_reply C c' = Some (sid, code, d)" "map_option content d = map_option content data"
proof -
  from serialize_request_object [OF assms(1), of "Reply sid code data" sz fl] ser_check_parse [OF _ assms(3,1)] assms(2)
  obtain c where c: "caps_parse C bs = Some c"
    "rest c = [MInt CMD_REPLY_REQ, MInt sid, MInt code, MCaps (map_option content data)]"
    by (metis request_members.simps(5) serialize_request.simps(5))
  from read_i32I [OF assms(1) c(2)] obtain c' where
    c': "read_i32 C c = (Some CMD_REPLY_REQ, c')" "rest c' = [MInt sid, MInt code, MCaps (map_option content data)]" .
  have "returns (\<lambda>x. \<exists>d. x = (sid, code, d) \<and> map_option content d = map_option content data) (req_parse_reply C c')"
    unfolding req_parse_reply_def by (insert c'(2), (erule rd_rules [OF assms(1)])+) simp
  with that [OF c(1) c'(1)] show ?thesis by (blast dest: returnsD)
qed

lemma parse_call_response:
  assumes "caps_laws C content rest" and "resp_serialize_call C (Some name) msg sid tg (Some cn) sz fl = (r, bs)" and "0 \<le> sint r"
  obtains c c' args where "caps_parse C bs = Some c" "read_i32 C c = (Some CMD_CALL_RESP, c')" "is_frame C sz bs"
    "resp_parse_call C c' = Some (name, args, sid, tg, cn)" "map_option content args = map_option content msg"
proof -
  from serialize_response_object [OF assms(1), of "CallResp name msg sid tg cn" sz fl] obtain k where
    k: "ser_check sz (serialize C sz fl k) = (r, bs)"
      "content k = [MInt CMD_CALL_RESP, MInt sid, MStr name, MCaps (map_option content msg), MLong tg, MStr cn]"
    using assms(2) by auto
  from ser_check_parse [OF k(1) assms(3,1)] k(2) obtain c where c: "caps_parse C bs = Some c"
    "rest c = [MInt CMD_CALL_RESP, MInt sid, MStr name, MCaps (map_option content msg), MLong tg, MStr cn]" by auto
  from read_i32I [OF assms(1) c(2)] obtain c' where
    c': "read_i32 C c = (Some CMD_CALL_RESP, c')" "rest c' = [MInt sid, MStr name, MCaps (map_option content msg), MLong tg, MStr cn]" .
  have "returns (\<lambda>x. \<exists>args. x = (name, args, sid, tg, cn) \<and> map_option content args = map_option content msg) (resp_parse_call C c')"
    unfolding resp_parse_call_def by (insert c'(2), (erule rd_rules [OF assms(1)])+) simp
  with that [OF c(1) c'(1) ser_check_frame(1) [OF k(1) assms(3,1)]] show ?thesis by (blast dest: returnsD)
qed

lemma parse_reply_response:
  assumes "caps_laws C content rest"
    and "resp_serialize_reply C cid FLORA_CLI_SUCCESS (Some \<lparr>ret_code = rc, resp_data = data, resp_extra = ex\<rparr>) tg sz fl = (r, bs)"
    and "0 \<le> sint r"
  obtains c c' d where "caps_parse C bs = Some c" "read_i32 C c = (Some CMD_REPLY_RESP, c')" "is_frame C sz bs"
    "resp_parse_reply C z c' = Some (cid, FLORA_CLI_SUCCESS, z\<lparr>ret_code := rc, resp_data := d, resp_extra := c_str ex\<rparr>, tg)"
    "map_option content d = map_option content data"
proof -
  obtain k where k: "ser_check sz (serialize C sz fl k) = (r, bs)"
      "content k = [MInt CMD_REPLY_RESP, MInt cid, MInt FLORA_CLI_SUCCESS, MInt rc, MCaps (map_option content data), MStr (c_str ex), MLong tg]"
    using assms(2) by (simp add: ser_defs Let_def caps_write_simps [OF assms(1)])
  from ser_check_parse [OF k(1) assms(3,1)] k(2) obtain c where c: "caps_parse C bs = Some c"
    "rest c = [MInt CMD_REPLY_RESP, MInt cid, MInt FLORA_CLI_SUCCESS, MInt rc, MCaps (map_option content data), MStr (c_str ex), MLong tg]"
    by auto
  from read_i32I [OF assms(1) c(2)] obtain c' where c': "read_i32 C c = (Some CMD_REPLY_RESP, c')"
    "rest c' = [MInt cid, MInt FLORA_CLI_SUCCESS, MInt rc, MCaps (map_option content data), MStr (c_str ex), MLong tg]" .
  have "returns (\<lambda>x. \<exists>d. x = (cid, FLORA_CLI_SUCCESS, z\<lparr>ret_code := rc, resp_data := d, resp_extra := c_str ex\<rparr>, tg) \<and>
      map_option content d = map_option content data) (resp_parse_reply C z c')"
    unfolding resp_parse_reply_def
    by (insert c'(2), (erule rd_rules [OF assms(1)])+, simp, (erule rd_rules [OF assms(1)])+, simp, blast)
  with that [OF c(1) c'(1) ser_check_frame(1) [OF k(1) assms(3,1)]] show ?thesis by (blast dest: returnsD)
qed

section \<open>The parts\<close>

text \<open>A call that waits has written its request.\<close>

lemma send_buffer_sent:
  assumes "send_buffer E m s = Some (True, t)"
  obtains k k' w where "connection s = Some k" "t = s\<lparr>connection := Some k'\<rparr>" "conn_io k' = conn_io k @ [OpWrite (fst m) (snd m) w]"
proof -
  from assms obtain k where "connection s = Some k" "sock_ready k"
      "t = s\<lparr>connection := Some (snd (conn_send (cwrite E) (fst m) (snd m) k))\<rparr>"
    by (auto simp: send_buffer_def conn_send_def split: if_splits option.splits prod.splits)
  then show ?thesis using that by (auto simp: conn_send_def conn_log_def Let_def split: sysret.splits)
qed

lemma client_call_sent:
  assumes "client_call A in_cb name msg target r timeout p = Some (CallWaiting it, p')"
  obtains k k' w m where "connection p = Some k" "connection p' = Some k'"
    "req_serialize_call (ccaps A) name msg target (cl_reqseq p') timeout (bufsize (options p)) (cl_serialize_flags p) = m"
    "conn_io k' = conn_io k @ [OpWrite (fst m) (snd m) w]" "0 < sint (fst m)"
proof -
  let ?s = "p\<lparr>cl_reqseq := cl_reqseq p + 1\<rparr>"
  let ?m = "req_serialize_call (ccaps A) name msg target (cl_reqseq ?s) timeout (bufsize (options p)) (cl_serialize_flags p)"
  from assms have m: "0 < sint (fst ?m)" and s: "send_buffer A ?m (add_pending (Some r) None ?s) = Some (True, p')"
    by (auto simp: client_call_def Let_def add_pending_def split: if_splits)
  from send_buffer_sent [OF s] obtain k k' w where
    "connection (add_pending (Some r) None ?s) = Some k" "p' = (add_pending (Some r) None ?s)\<lparr>connection := Some k'\<rparr>"
    "conn_io k' = conn_io k @ [OpWrite (fst ?m) (snd ?m) w]" .
  with that [of k k' ?m w] m show ?thesis by (simp add: add_pending_def)
qed

lemma service_runs:
  assumes "deref_info s a = Some i" and "\<not> is_monitor (ai_flags i)" and "read_i32 (caps E) c = (Some cmd, c')"
    and "0 \<le> sint cmd" and "sint cmd < 9" and "(msg_handlers E nowtp ! nat (sint cmd)) c' a s = Some (True, t)"
  shows "handle_cmd E nowtp endtp (Some c) a s = Some (t\<lparr>handle_cmd_tp := endtp\<rparr>)"
proof -
  have "has_info s a" using assms(1) by (auto simp: has_info_def deref_info_def)
  with assms show ?thesis by (simp add: handle_cmd_def dispatch_cmd_def flora_consts)
qed

lemma client_no_monitor:
  assumes "client_at s a" and "deref_info s a = Some i"
  shows "\<not> is_monitor (ai_flags i)"
proof -
  have "has_info s a" using assms(2) by (auto simp: has_info_def deref_info_def)
  from client_atD(1,3) [OF assms(1)] this assms(2) show ?thesis by (auto simp: disp_inv_def infos_ok_def)
qed

lemma deliver_call:
  assumes "caps_parse (ccaps B) f = Some c" and "read_i32 (ccaps B) c = (Some CMD_CALL_RESP, c')"
    and "resp_parse_call (ccaps B) c' = Some (name, args, sid, tg, cn)" and "cmd_handler q = AfterAuth" and "cli_callback q"
  shows "client_deliver B f (client_view q) =
    Some (client_view (emit (UpCall (c_str name) args tg cn (new_reply (weak_ptr q) sid)) (q\<lparr>cl_tag := tg, sender_name := cn\<rparr>)))"
  using assms by (simp add: client_deliver_def run_handler_def handle_cmd_after_auth_def on_call_resp_def flora_consts
    client_view_def with_buf_def emit_def)

text \<open>C2: A call arrives. When a client's \<open>call\<close> has been written and waits, the bytes it wrote are a
  message of the service; if the target is registered, has declared the method and is connected, then
  handling it sends exactly one message, to the target, and records the call under the next server-side
  id with the caller's own id and its deadline. The target's client, given that message, calls its
  application with the name and the arguments of the call, the tag of the caller's connection and the
  caller's name, and a reply object that carries the server-side id.\<close>

theorem call_end_to_end:
  assumes laws: "caps_laws C content rest" and same: "ccaps A = C" "caps E = C" "ccaps B = C"
    and call: "client_call A in_cb (Some name) msg (Some target) r timeout p = Some (CallWaiting it, p')" and "nul_free name"
    and s: "client_at s a" "deref_info s a = Some i" "callee s target name = Some b" "\<not> closed (heap s b)"
    and fits: "\<And>args. map_option content args = map_option content msg \<Longrightarrow>
      0 \<le> sint (fst (call_bytes E s a (ai_name i) b name args (reqseq s + 1)))"
    and q: "cmd_handler q = AfterAuth" "cli_callback q"
  shows "\<exists>n bs w io c t k f args.
    map_option conn_io (connection p) = Some io \<and> map_option conn_io (connection p') = Some (io @ [OpWrite n bs w]) \<and>
    caps_parse C bs = Some c \<and> handle_cmd E nowtp endtp (Some c) a s = Some t \<and>
    writes (iolog t) = writes (iolog s) @ [(b, k, f)] \<and> good_frame C (d_buf_size s) f \<and>
    set (pending_calls t) = insert \<lparr>svrid = reqseq s + 1, cliid = cl_reqseq p', pc_sender = a, pc_target = b,
      discard_tp = nowtp + (if timeout = 0 then 200 else int (unat timeout)) * 1000000\<rparr> (set (pending_calls s)) \<and>
    client_deliver B f (client_view q) =
      Some (client_view (emit (UpCall name args (tag (heap s a)) (c_str (ai_name i)) (new_reply (weak_ptr q) (reqseq s + 1)))
        (q\<lparr>cl_tag := tag (heap s a), sender_name := c_str (ai_name i)\<rparr>))) \<and>
    map_option content args = map_option content msg"
proof -
  from client_call_sent [OF call, unfolded same(1)] obtain k k' w m where k: "connection p = Some k" "connection p' = Some k'"
    "req_serialize_call C (Some name) msg (Some target) (cl_reqseq p') timeout (bufsize (options p)) (cl_serialize_flags p) = (fst m, snd m)"
    "conn_io k' = conn_io k @ [OpWrite (fst m) (snd m) w]" "0 < sint (fst m)" by (metis prod.collapse)
  from parse_call_request [OF laws k(3)] k(5) obtain c c' args where c: "caps_parse C (snd m) = Some c"
    "read_i32 C c = (Some CMD_CALL_REQ, c')" "req_parse_call C c' = Some (name, args, target, cl_reqseq p', timeout)"
    "map_option content args = map_option content msg" by auto
  let ?m = "call_bytes E s a (ai_name i) b name args (reqseq s + 1)"
  from call_routed [OF s(1,2) _ s(3) refl fits [OF c(4)], of c' "cl_reqseq p'" timeout nowtp] c(3) s(4) same(2) obtain t where
    t: "handle_call_req E nowtp c' a s = Some (True, t)" "writes (iolog t) = writes (iolog s) @ [(b, ?m)]"
      "set (pending_calls t) = insert \<lparr>svrid = reqseq s + 1, cliid = cl_reqseq p', pc_sender = a, pc_target = b,
        discard_tp = nowtp + (if timeout = 0 then 200 else int (unat timeout)) * 1000000\<rparr> (set (pending_calls s))" by auto
  have h: "handle_cmd E nowtp endtp (Some c) a s = Some (t\<lparr>handle_cmd_tp := endtp\<rparr>)"
    by (rule service_runs [where cmd = CMD_CALL_REQ and c' = c', OF s(2) client_no_monitor [OF s(1,2)]])
      (use c(2) t(1) same(2) in \<open>simp_all add: flora_consts msg_handlers_def\<close>)
  have "resp_serialize_call C (Some name) args (reqseq s + 1) (tag (heap s a)) (Some (c_str (ai_name i))) (d_buf_size s)
      (serialize_flags (heap s b)) = (fst ?m, snd ?m)" using assms(6) same(2) by (simp add: call_bytes_def)
  from parse_call_response [OF laws this fits [OF c(4)]] obtain d d' args' where d: "caps_parse C (snd ?m) = Some d"
    "read_i32 C d = (Some CMD_CALL_RESP, d')" "is_frame C (d_buf_size s) (snd ?m)"
    "resp_parse_call C d' = Some (name, args', reqseq s + 1, tag (heap s a), c_str (ai_name i))"
    "map_option content args' = map_option content args" by blast
  from deliver_call [OF d(1,2,4) [unfolded same(3) [symmetric]] q] assms(6)
  have "client_deliver B (snd ?m) (client_view q) =
      Some (client_view (emit (UpCall name args' (tag (heap s a)) (c_str (ai_name i)) (new_reply (weak_ptr q) (reqseq s + 1)))
        (q\<lparr>cl_tag := tag (heap s a), sender_name := c_str (ai_name i)\<rparr>)))" by simp
  moreover have "good_frame C (d_buf_size s) (snd ?m)" using d(1,3) by (simp add: good_frame_def)
  moreover have "map_option conn_io (connection p) = Some (conn_io k)"
    "map_option conn_io (connection p') = Some (conn_io k @ [OpWrite (fst m) (snd m) w])" using k by simp_all
  moreover have "writes (iolog (t\<lparr>handle_cmd_tp := endtp\<rparr>)) = writes (iolog s) @ [(b, fst ?m, snd ?m)]"
    "pending_calls (t\<lparr>handle_cmd_tp := endtp\<rparr>) = pending_calls t" using t(2) by simp_all
  moreover have "map_option content args' = map_option content msg" using c(4) d(5) by simp
  ultimately show ?thesis using c(1) h t(3) by metis
qed

text \<open>The reply of the callee's application: one more write on its connection.\<close>

lemma reply_sent:
  assumes "connection q = Some k" and "sock_ready k" and "rp_client rp"
    and "req_serialize_reply (ccaps B) (rp_callid rp) code data (bufsize (options q)) (cl_serialize_flags q) = (n, bs)" and "0 < sint n"
  obtains w k' where "reply_end_data B code data rp q =
      Some (rp\<lparr>rp_ret_code := code, rp_data := data, rp_client := False\<rparr>, q\<lparr>connection := Some k'\<rparr>)"
    "conn_io k' = conn_io k @ [OpWrite n bs w]"
proof -
  let ?w = "cwrite B (conn_io k) n bs"
  have "snd (conn_send (cwrite B) n bs k) = conn_log (OpWrite n bs ?w) k"
    using assms(2) by (simp add: conn_send_def Let_def split: sysret.split)
  then have "send_buffer B (n, bs) q = Some (fst (conn_send (cwrite B) n bs k), q\<lparr>connection := Some (conn_log (OpWrite n bs ?w) k)\<rparr>)"
    using assms(1) by (simp add: send_buffer_def case_prod_unfold)
  with assms(3-5) show ?thesis
    by (intro that [of "conn_log (OpWrite n bs ?w) k" ?w])
      (simp_all add: reply_end_data_def reply_do_send_def reply_write_code_def reply_write_data_def send_reply_def conn_log_def)
qed

lemma client_ok_view: "client_ok w u \<Longrightarrow> client_ok w (client_view u)" "keeps_id it i u \<Longrightarrow> keeps_id it i (client_view u)"
  "find_node it (client_view u) = find_node it u"
  by (simp_all add: client_ok_def client_inv_def client_ids_def keeps_id_def find_node_def client_view_def with_buf_def)

text \<open>C3: A reply arrives. Let a client's call be waiting and be recorded at the service, and let the callee's
  application end the reply object of that call with a code and data. Then one message is written on the
  callee's connection; when the service handles it, exactly one message is sent, to the caller, and the
  call is no longer recorded; and when the caller's client is given that message, the waiting call
  returns success, and its \<open>Response\<close> has the code, the content of the data and the callee's name.\<close>

theorem reply_end_to_end:
  assumes laws: "caps_laws C content rest" and same: "ccaps A = C" "caps E = C" "ccaps B = C"
    and q: "connection q = Some k" "sock_ready k" "rp_client rp"
      "0 < sint (fst (req_serialize_reply C (rp_callid rp) code data (bufsize (options q)) (cl_serialize_flags q)))"
    and s: "client_at s a" "deref_info s a = Some i" "pending_calls s = before @ pc # after"
      "\<forall>p\<in>set before. \<not> matches (rp_callid rp) a p" "matches (rp_callid rp) a pc" "\<not> closed (heap s (pc_sender pc))"
    and fits: "\<And>d. map_option content d = map_option content data \<Longrightarrow> 0 \<le> sint (fst (reply_bytes E s a (ai_name i) pc code d))"
    and call: "cl_reachable A G (p, w)" "seq_left p" "r \<in> live_resps p"
      "client_call A in_cb name msg target r timeout p = Some (CallWaiting it, p')"
      "(cl_step A F)\<^sup>*\<^sup>* (p', (it, r) # w) (u, w')"
    and waits: "(it, r) \<in> set w'" "find_node it u = Some pr" "pr_id pr \<noteq> 0" "cmd_handler u = AfterAuth" "cliid pc = cl_reqseq p'"
  shows "\<exists>q' n bs x c t m f v d. reply_end_data B code data rp q = Some (rp\<lparr>rp_ret_code := code, rp_data := data, rp_client := False\<rparr>, q') \<and>
    map_option conn_io (connection q') = Some (conn_io k @ [OpWrite n bs x]) \<and>
    caps_parse C bs = Some c \<and> handle_cmd E nowtp endtp (Some c) a s = Some t \<and>
    writes (iolog t) = writes (iolog s) @ [(pc_sender pc, m, f)] \<and> good_frame C (d_buf_size s) f \<and>
    pending_calls t = before @ after \<and>
    client_deliver A f (client_view u) = Some v \<and> call_check it v = Some (Some FLORA_CLI_SUCCESS, erase_node it v) \<and>
    responses v r = (undef_response A)\<lparr>ret_code := code, resp_data := d, resp_extra := c_str (ai_name i)\<rparr> \<and>
    map_option content d = map_option content data"
proof -
  let ?n = "req_serialize_reply C (rp_callid rp) code data (bufsize (options q)) (cl_serialize_flags q)"
  have n: "?n = (fst ?n, snd ?n)" "0 \<le> sint (fst ?n)" using q(4) by simp_all
  from reply_sent [OF q(1-3) n(1) [folded same(3)]] q(4) same(3) obtain x k' where
    k': "reply_end_data B code data rp q = Some (rp\<lparr>rp_ret_code := code, rp_data := data, rp_client := False\<rparr>, q\<lparr>connection := Some k'\<rparr>)"
      "conn_io k' = conn_io k @ [OpWrite (fst ?n) (snd ?n) x]" by metis
  from parse_reply_request [OF laws n] obtain c c' d where c: "caps_parse C (snd ?n) = Some c"
    "read_i32 C c = (Some CMD_REPLY_REQ, c')" "req_parse_reply C c' = Some (rp_callid rp, code, d)"
    "map_option content d = map_option content data" by blast
  let ?m = "reply_bytes E s a (ai_name i) pc code d"
  from reply_routed [OF s(1,2) c(3) [folded same(2)] s(3-6) fits [OF c(4)]] obtain t where
    t: "handle_reply_req E c' a s = Some (True, t)" "writes (iolog t) = writes (iolog s) @ [(pc_sender pc, ?m)]"
      "pending_calls t = before @ after" by auto
  have h: "handle_cmd E nowtp endtp (Some c) a s = Some (t\<lparr>handle_cmd_tp := endtp\<rparr>)"
    by (rule service_runs [where cmd = CMD_REPLY_REQ and c' = c', OF s(2) client_no_monitor [OF s(1,2)]])
      (use c(2) t(1) same(2) in \<open>simp_all add: flora_consts msg_handlers_def\<close>)
  have "resp_serialize_reply C (cliid pc) FLORA_CLI_SUCCESS (Some \<lparr>ret_code = code, resp_data = d, resp_extra = ai_name i\<rparr>)
      (tag (heap s a)) (d_buf_size s) (serialize_flags (heap s (pc_sender pc))) = (fst ?m, snd ?m)"
    using same(2) by (simp add: reply_bytes_def)
  from parse_reply_response [OF laws this fits [OF c(4)], of "undef_response A"] obtain e e' d' where
    e: "caps_parse C (snd ?m) = Some e" "read_i32 C e = (Some CMD_REPLY_RESP, e')" "is_frame C (d_buf_size s) (snd ?m)"
      "resp_parse_reply C (undef_response A) e' = Some (cliid pc, FLORA_CLI_SUCCESS,
        (undef_response A)\<lparr>ret_code := code, resp_data := d', resp_extra := c_str (ai_name i)\<rparr>, tag (heap s a))"
      "map_option content d' = map_option content d" by blast
  note ok = waiting_call_id [OF call]
  from reply_answers [OF client_ok_view(1) [OF ok(1)] waits(1) client_ok_view(2) [OF ok(2)] _ waits(3), of A e'
      FLORA_CLI_SUCCESS] client_ok_view(3) [of it u] waits(2,5) e(4) same(1) obtain v where
    v: "on_reply_resp A e' (client_view u) = Some (True, v)" "call_check it v = Some (Some FLORA_CLI_SUCCESS, erase_node it v)"
      "responses v r = (undef_response A)\<lparr>ret_code := code, resp_data := d', resp_extra := c_str (ai_name i)\<rparr>" by auto
  have "client_deliver A (snd ?m) (client_view u) = Some v"
    using e(1,2) v(1) waits(4) same(1)
    by (simp add: client_deliver_def run_handler_def handle_cmd_after_auth_def flora_consts client_view_def with_buf_def)
  moreover have "good_frame C (d_buf_size s) (snd ?m)" using e(1,3) by (simp add: good_frame_def)
  moreover have "map_option conn_io (connection (q\<lparr>connection := Some k'\<rparr>)) = Some (conn_io k @ [OpWrite (fst ?n) (snd ?n) x])"
    using k'(2) by simp
  moreover have "writes (iolog (t\<lparr>handle_cmd_tp := endtp\<rparr>)) = writes (iolog s) @ [(pc_sender pc, fst ?m, snd ?m)]"
    "pending_calls (t\<lparr>handle_cmd_tp := endtp\<rparr>) = before @ after" using t(2,3) by simp_all
  moreover have "map_option content d' = map_option content data" using c(4) e(5) by simp
  ultimately show ?thesis using k'(1) c(1) h v(2,3) by blast
qed

end
