(* ===== verification/CallDemo.thy ===== *)
theory CallDemo
  imports CallEndToEnd ClientDemo
begin

text \<open>
  Concrete inputs for the theorems about calls from end to end, on the reference instance of the Caps
  library: a caller connected with the model's own operations, a service with the caller and a callee
  that has declared the method, and the witnesses.
\<close>

section \<open>The caller\<close>

definition rdemo_env :: "ref_caps cenv" where
  "rdemo_env = e2e_cenv\<lparr>uri_parse :=
     (\<lambda>_. Some \<lparr>u_scheme = ''unix'', u_path = ''s'', u_host = [], u_port = 0, u_fragment = ''b''\<rparr>)\<rparr>"

definition rdemo_open :: "ref_caps client" where
  "rdemo_open = (new_Client copts)\<lparr>connection := Some \<lparr>sock = 3, recv_timeout = 0, sock_ready = True, conn_io = [OpConnectUnix ''s'']\<rparr>,
     cl_serialize_flags := 0, mon_callback := False, recv_on := True\<rparr>"

lemma rdemo_opens: "connect_open rdemo_env cdemo_net (Some ''u'') False (new_Client copts) = Some (FLORA_CLI_SUCCESS, rdemo_open)"
  by (simp add: connect_open_def rdemo_env_def cdemo_net_def connect_unix_def new_SocketConn_def set_recv_timeout_def
    SUN_PATH_SIZE_def c_str_def conn_log_def rdemo_open_def Let_def)

lemma rdemo_auth_sent:
  obtains c where "sock_ready c"
    "auth_send rdemo_env ''b'' 0 rdemo_open =
       Some (None, rdemo_open\<lparr>auth_result_set := True, ares_result := FLORA_CLI_EAUTH, ares_notified := False, connection := Some c\<rparr>)"
proof -
  let ?m = "req_serialize_auth ref_ops FLORA_VERSION (Some ''b'') 7 0 32768 0"
  have m: "0 < sint (fst ?m)" "fst ?m \<noteq> 0"
    by (simp_all add: ser_defs ref_ops_def ref_serialize_def append_member_def ser_check_def Let_def)
  then have "unat (fst ?m) \<noteq> 0" by (simp add: unat_eq_zero)
  then show ?thesis
    using m
    by (intro that [of "\<lparr>sock = 3, recv_timeout = 0, sock_ready = True,
        conn_io = [OpConnectUnix ''s'', OpWrite (fst ?m) (snd ?m) (SysRet (unat (fst ?m)))]\<rparr>"])
      (simp_all add: auth_send_def rdemo_open_def rdemo_env_def e2e_cenv_def copts_fields send_buffer_def conn_send_def conn_log_def
        Let_def c_str_def)
qed

definition rdemo_frame :: "byte list" where
  "rdemo_frame = snd (resp_serialize_auth ref_ops FLORA_CLI_SUCCESS 4 32768 0)"

lemma rdemo_parsed:
  obtains c c' where "caps_parse ref_ops rdemo_frame = Some c" "read_i32 ref_ops c = (Some CMD_AUTH_RESP, c')"
    "resp_parse_auth ref_ops c' = Some (FLORA_CLI_SUCCESS, 4)" "good_frame ref_ops 32768 rdemo_frame" "rdemo_frame \<noteq> []"
proof -
  let ?k = "write_u32 ref_ops 4 (write_i32 ref_ops FLORA_CLI_SUCCESS (write_i32 ref_ops CMD_AUTH_RESP (new_instance ref_ops)))"
  let ?m = "ser_check 32768 (serialize ref_ops 32768 0 ?k)"
  have f: "rdemo_frame = snd ?m" by (simp add: rdemo_frame_def resp_serialize_auth_def Let_def)
  have k: "members ?k = [MInt CMD_AUTH_RESP, MInt FLORA_CLI_SUCCESS, MInt 4]" by (simp add: caps_write_simps [OF ref_laws])
  have n: "?m = (fst ?m, snd ?m)" "0 \<le> sint (fst ?m)" by (simp, rule ref_fits_nonneg) (simp_all add: k)
  from ser_check_parse [OF n ref_laws] k obtain c where c: "caps_parse ref_ops rdemo_frame = Some c"
    "ref_rest c = [MInt CMD_AUTH_RESP, MInt FLORA_CLI_SUCCESS, MInt 4]" by (auto simp: f)
  from read_i32I [OF ref_laws c(2)] obtain c1 where 1: "read_i32 ref_ops c = (Some CMD_AUTH_RESP, c1)" "ref_rest c1 = [MInt FLORA_CLI_SUCCESS, MInt 4]" .
  have "returns (\<lambda>x. x = (FLORA_CLI_SUCCESS, 4)) (resp_parse_auth ref_ops c1)"
    unfolding resp_parse_auth_def by (insert 1(2), (erule rd_rules [OF ref_laws])+) simp
  then have p: "resp_parse_auth ref_ops c1 = Some (FLORA_CLI_SUCCESS, 4)" by (auto dest: returnsD)
  have "is_frame ref_ops 32768 rdemo_frame" using ser_check_frame(1) [OF n ref_laws] by (simp add: f)
  moreover from this have "rdemo_frame \<noteq> []" by (auto simp: is_frame_def)
  ultimately show ?thesis using that [OF c(1) 1(1) p] c(1) by (simp add: good_frame_def)
qed

lemma rdemo_connected:
  obtains s c where "cl_reachable rdemo_env {} (s, [])" "connection s = Some c" "sock_ready c" "cl_reqseq s = 0" "options s = copts"
    "cl_serialize_flags s = 0" "cmd_handler s = AfterAuth" "next_node s = 0" "pending_requests s = []"
proof -
  from rdemo_auth_sent obtain c where c: "sock_ready c" and a: "auth_send rdemo_env ''b'' 0 rdemo_open =
     Some (None, rdemo_open\<lparr>auth_result_set := True, ares_result := FLORA_CLI_EAUTH, ares_notified := False, connection := Some c\<rparr>)" .
  let ?x = "u_fragment (the (uri_parse rdemo_env (the (Some ''u''))))"
  have x: "?x = ''b''" "opt_flags (options rdemo_open) = 0" by (simp_all add: rdemo_env_def rdemo_open_def copts_fields)
  have o: "connect_options None = copts" "bufsize copts = 32768" by (simp_all add: copts_def copts_fields(1) [unfolded copts_def])
  have cc: "ccaps rdemo_env = ref_ops" by (simp add: rdemo_env_def e2e_cenv_def)
  from rdemo_parsed obtain r r' where r: "caps_parse ref_ops rdemo_frame = Some r" "read_i32 ref_ops r = (Some CMD_AUTH_RESP, r')"
    "resp_parse_auth ref_ops r' = Some (FLORA_CLI_SUCCESS, 4)" "good_frame ref_ops 32768 rdemo_frame" "rdemo_frame \<noteq> []" .
  have hl: "caps_header_law ref_ops" using ref_wire_laws by (simp add: caps_wire_laws_def)
  let ?s2 = "rdemo_open\<lparr>auth_result_set := True, ares_result := FLORA_CLI_EAUTH, ares_notified := False, connection := Some c\<rparr>"
  have p: "2 * unat (bufsize (connect_options None)) < 2 ^ 32"
    "connect_open rdemo_env cdemo_net (Some ''u'') False (new_Client (connect_options None)) = Some (FLORA_CLI_SUCCESS, rdemo_open)"
    "auth_send rdemo_env ?x (opt_flags (options rdemo_open)) rdemo_open = Some (None, ?s2)"
    "concat [rdemo_frame] = rdemo_frame" "[] \<notin> set [rdemo_frame]"
    unfolding x using rdemo_opens a r(5) by (simp_all add: o)
  from connect_reply [OF hl [folded cc] p(1-3) _ p(4,5) r(1-3) [folded cc], of True] r(4) obtain t where
    t: "client_view t = client_view (?s2\<lparr>ares_result := FLORA_CLI_SUCCESS, ares_notified := True, cmd_handler := AfterAuth\<rparr>)"
    and con: "client_connect rdemo_env cdemo_net (Some ''u'') True False (map (\<lambda>bs. [RoData bs]) [rdemo_frame])
        (new_Client (connect_options None)) =
       map_option (apfst Some) (connect_finish rdemo_env FLORA_CLI_SUCCESS ?x True (t\<lparr>auth_result_set := False\<rparr>))"
    unfolding cc o by metis
  let ?s = "t\<lparr>auth_result_set := False, keepalive_on := True, cli_callback := True, auth_extra := ?x, weak_ptr := True\<rparr>"
  have "flora_Client_connect rdemo_env cdemo_net (Some ''u'') True False None [[RoData rdemo_frame]] = Some (Some FLORA_CLI_SUCCESS, ?s)"
    using con by (simp add: flora_Client_connect_def connect_finish_def)
  from cl_reachable.connected [OF this] have "cl_reachable rdemo_env {} (?s, [])" .
  moreover have "connection (client_view s) = connection s" "cl_reqseq (client_view s) = cl_reqseq s" "options (client_view s) = options s"
    "cl_serialize_flags (client_view s) = cl_serialize_flags s" "cmd_handler (client_view s) = cmd_handler s" "next_node (client_view s) = next_node s"
    "pending_requests (client_view s) = pending_requests s" for s :: "ref_caps client" by (simp_all add: client_view_def with_buf_def)
  note v = this [of t, unfolded t, unfolded this, symmetric]
  have "connection t = Some c" "cl_reqseq t = 0" "options t = copts" "cl_serialize_flags t = 0" "cmd_handler t = AfterAuth" "next_node t = 0"
    "pending_requests t = []"
    unfolding v by (simp_all add: rdemo_open_def new_Client_def)
  ultimately show ?thesis using that [of ?s c] c by simp
qed

section \<open>The service\<close>

definition rdemo_disp :: "pending_call list \<Rightarrow> ref_caps disp" where
  "rdemo_disp pcs = e2e_disp\<lparr>adapter_infos := [(1, (e2e_info 1 ''a'')\<lparr>declared_methods := {''m''}\<rparr>), (2, e2e_info 2 ''b'')],
     cmd_packets := [(Some \<lparr>members = [], pos = 0\<rparr>, 1), (Some \<lparr>members = [], pos = 0\<rparr>, 2)], pending_calls := pcs\<rparr>"

definition rdemo_call :: pending_call where
  "rdemo_call = \<lparr>svrid = 1, cliid = 1, pc_sender = 2, pc_target = 1, discard_tp = 200\<rparr>"

lemma rdemo_inv: "pcs = [] \<or> pcs = [rdemo_call] \<Longrightarrow> disp_inv (rdemo_disp pcs)"
  by (intro disp_invI)
    (auto simp: inv_defs rdemo_disp_def rdemo_call_def e2e_disp_def new_Dispatcher_def e2e_info_def demo_ad_def new_SocketAdapter_def has_info_def
      deref_info_def is_monitor_def map_ok_def flora_consts split: if_splits)

lemma rdemo_facts:
  "client_at (rdemo_disp []) 2" "deref_info (rdemo_disp []) 2 = Some (e2e_info 2 ''b'')" "callee (rdemo_disp []) ''a'' ''m'' = Some 1"
  "\<not> closed (heap (rdemo_disp pcs) 1)" "client_at (rdemo_disp [rdemo_call]) 1"
  "deref_info (rdemo_disp [rdemo_call]) 1 = Some ((e2e_info 1 ''a'')\<lparr>declared_methods := {''m''}\<rparr>)"
  "\<not> closed (heap (rdemo_disp pcs) 2)" "d_buf_size (rdemo_disp pcs) = 32768" "reqseq (rdemo_disp []) = 0"
  "pending_calls (rdemo_disp [rdemo_call]) = [rdemo_call]" "ai_name (e2e_info k n) = n" "tag (heap (rdemo_disp pcs) 2) = 0"
  using rdemo_inv [of "[]"] rdemo_inv [of "[rdemo_call]"]
  by (auto simp: client_at_def rdemo_disp_def e2e_disp_def queue_def new_Dispatcher_def demo_ad_def new_SocketAdapter_def closed_def
      deref_info_def e2e_info_def callee_def has_method_def flora_consts)

lemma ref_fits_large:
  assumes "smalls (members c)" and "length (encs (members c)) \<le> 1000"
  shows "0 \<le> sint (fst (ser_check 32768 (serialize ref_ops 32768 fl c)))"
  using ref_fits_nonneg [OF assms(1), of 32768 fl] assms(2) by simp

lemma rdemo_sizes:
  "0 \<le> sint (fst (call_bytes e2e_env (rdemo_disp []) 2 ''b'' 1 ''m'' None 1))"
  "0 \<le> sint (fst (reply_bytes e2e_env (rdemo_disp [rdemo_call]) 1 ''a'' rdemo_call 5 None))"
proof -
  have e: "caps e2e_env = ref_ops" by (simp add: e2e_env_def)
  show "0 \<le> sint (fst (call_bytes e2e_env (rdemo_disp []) 2 ''b'' 1 ''m'' None 1))"
    "0 \<le> sint (fst (reply_bytes e2e_env (rdemo_disp [rdemo_call]) 1 ''a'' rdemo_call 5 None))"
    unfolding call_bytes_def reply_bytes_def e rdemo_facts(8) resp_serialize_call_def resp_serialize_reply_def Let_def
    by (rule ref_fits_large; simp add: caps_write_simps [OF ref_laws] c_str_def)+
qed

section \<open>Witnesses\<close>

lemma sized:
  "0 < sint (fst (req_serialize_call ref_ops (Some ''m'') None (Some ''a'') 1 100 64 0))"
  "0 < sint (fst (req_serialize_call ref_ops (Some ''m'') None (Some ''a'') 1 100 32768 0))"
  "0 < sint (fst (req_serialize_reply ref_ops 1 5 None 64 0))"
  by (simp_all add: ser_defs ref_ops_def ref_serialize_def append_member_def ser_check_def Let_def)

lemma call_waits:
  assumes "ccaps A = ref_ops" and "cwrite A = (\<lambda>l n d. SysRet (unat n))" and "connection p = Some c" "sock_ready c" "cl_reqseq p = 0"
    and "opt_flags (options p) = 0" "cl_serialize_flags p = 0"
    and "0 < sint (fst (req_serialize_call ref_ops (Some ''m'') None (Some ''a'') 1 100 (bufsize (options p)) 0))"
  obtains c' where "client_call A False (Some ''m'') None (Some ''a'') 0 100 p =
    Some (CallWaiting (next_node p), (add_pending (Some 0) None (p\<lparr>cl_reqseq := 1\<rparr>))\<lparr>connection := Some c'\<rparr>)"
proof -
  let ?m = "req_serialize_call ref_ops (Some ''m'') None (Some ''a'') 1 100 (bufsize (options p)) 0"
  have "unat (fst ?m) \<noteq> 0" using assms(8) by (metis less_irrefl unat_eq_zero signed_0)
  then show ?thesis
    using assms by (intro that [of "conn_log (OpWrite (fst ?m) (snd ?m) (SysRet (unat (fst ?m)))) c"])
      (simp add: client_call_def is_monitor_def send_buffer_def conn_send_def add_pending_def Let_def)
qed

theorem call_end_to_end_witness:
  "\<exists>c t k f. handle_cmd e2e_env 5 6 (Some c) 2 (rdemo_disp []) = Some t \<and> writes (iolog t) = writes (iolog (rdemo_disp [])) @ [(1, k, f)] \<and>
     client_deliver e2e_cenv f (client_view e2e_client) =
       Some (client_view (emit (UpCall ''m'' None 0 ''b'' (new_reply False 1)) (e2e_client\<lparr>cl_tag := 0, sender_name := ''b''\<rparr>)))"
proof -
  have e: "ccaps e2e_cenv = ref_ops" "caps e2e_env = ref_ops" "cwrite e2e_cenv = (\<lambda>l n d. SysRet (unat n))"
    "opt_flags (options e2e_client) = 0" "cl_serialize_flags e2e_client = 0" "bufsize (options e2e_client) = 64" "cl_reqseq e2e_client = 0"
    "cmd_handler e2e_client = AfterAuth" "cli_callback e2e_client" "weak_ptr e2e_client = False"
    by (simp_all add: e2e_cenv_def e2e_env_def e2e_client_def new_Client_def default_options_def)
  obtain c' where c: "client_call e2e_cenv False (Some ''m'') None (Some ''a'') 0 100 e2e_client =
    Some (CallWaiting (next_node e2e_client), (add_pending (Some 0) None (e2e_client\<lparr>cl_reqseq := 1\<rparr>))\<lparr>connection := Some c'\<rparr>)"
    by (rule call_waits [OF e(1,3) _ _ e(7,4,5), of "\<lparr>sock = 3, recv_timeout = 0, sock_ready = True, conn_io = []\<rparr>"])
      (use sized(1) e(6) in \<open>simp_all add: e2e_client_def\<close>)
  have n: "nul_free ''m''" "c_str ''b'' = ''b''" by (simp_all add: nul_free_def c_str_def)
  have fits: "0 \<le> sint (fst (call_bytes e2e_env (rdemo_disp []) 2 (ai_name (e2e_info 2 ''b'')) 1 ''m'' args (reqseq (rdemo_disp []) + 1)))"
    if "map_option members args = map_option members None" for args
    using rdemo_sizes(1) that rdemo_facts(9,11) by simp
  from call_end_to_end [OF ref_laws e(1,2,1) c n(1) rdemo_facts(1,2,3,4) fits e(8,9), of 5 6] rdemo_facts(9,11,12) e(10) n(2)
  show ?thesis by auto
qed

lemma rdemo_calling:
  obtains p c c' where "cl_reachable rdemo_env {} (p, [])" "seq_left p" "0 \<in> live_resps p" "cmd_handler p = AfterAuth" "pending_requests p = []"
    "next_node p = 0" "client_call rdemo_env False (Some ''m'') None (Some ''a'') 0 100 p =
      Some (CallWaiting 0, (add_pending (Some 0) None (p\<lparr>cl_reqseq := 1\<rparr>))\<lparr>connection := Some c'\<rparr>)"
proof (rule rdemo_connected)
  fix s c assume s: "cl_reachable rdemo_env {} (s, [])" "connection s = Some c" "sock_ready c" "cl_reqseq s = 0" "options s = copts"
    "cl_serialize_flags s = 0" "cmd_handler s = AfterAuth" "next_node s = 0" "pending_requests s = []"
  let ?p = "s\<lparr>live_resps := insert 0 (live_resps s)\<rparr>"
  have r: "cl_reachable rdemo_env {} (?p, [])" by (rule cl_reachable.step [OF s(1) cl_step.own])
  have e: "ccaps rdemo_env = ref_ops" "cwrite rdemo_env = (\<lambda>l n d. SysRet (unat n))" by (simp_all add: rdemo_env_def e2e_cenv_def)
  obtain c' where "client_call rdemo_env False (Some ''m'') None (Some ''a'') 0 100 ?p =
      Some (CallWaiting (next_node ?p), (add_pending (Some 0) None (?p\<lparr>cl_reqseq := 1\<rparr>))\<lparr>connection := Some c'\<rparr>)"
    by (rule call_waits [OF e, of ?p c]) (use s sized(2) copts_fields in simp_all)
  with that [OF r] s show ?thesis by (simp add: seq_left_def)
qed

theorem reply_end_to_end_witness:
  "\<exists>c t m f u v. handle_cmd e2e_env 5 6 (Some c) 1 (rdemo_disp [rdemo_call]) = Some t \<and>
     writes (iolog t) = writes (iolog (rdemo_disp [rdemo_call])) @ [(2, m, f)] \<and> pending_calls t = [] \<and>
     client_deliver rdemo_env f (client_view u) = Some v \<and>
     call_check 0 v = Some (Some FLORA_CLI_SUCCESS, erase_node 0 v) \<and> ret_code (responses v 0) = 5"
proof (rule rdemo_calling)
  fix p c' assume p: "cl_reachable rdemo_env {} (p, [])" "seq_left p" "0 \<in> live_resps p" "cmd_handler p = AfterAuth" "pending_requests p = []"
    "next_node p = 0" and call: "client_call rdemo_env False (Some ''m'') None (Some ''a'') 0 100 p =
      Some (CallWaiting 0, (add_pending (Some 0) None (p\<lparr>cl_reqseq := 1\<rparr>))\<lparr>connection := Some c'\<rparr>)"
  let ?u = "(add_pending (Some 0) None (p\<lparr>cl_reqseq := 1\<rparr>))\<lparr>connection := Some c'\<rparr>"
  let ?pr = "\<lparr>pr_node = 0, pr_id = 1, pr_rcode = 0, pr_result = Some 0, pr_callback = None\<rparr>"
  let ?k = "\<lparr>sock = 3, recv_timeout = 0, sock_ready = True, conn_io = []\<rparr>" and ?rp = "new_reply True 1 :: ref_caps reply_impl"
  have e: "ccaps rdemo_env = ref_ops" "caps e2e_env = ref_ops" "ccaps e2e_cenv = ref_ops"
    by (simp_all add: rdemo_env_def e2e_cenv_def e2e_env_def)
  have q: "connection e2e_client = Some ?k" "sock_ready ?k" "rp_client ?rp" "rp_callid ?rp = 1"
    "bufsize (options e2e_client) = 64" "cl_serialize_flags e2e_client = 0"
    by (simp_all add: e2e_client_def new_reply_def new_Client_def)
  have u: "find_node 0 ?u = Some ?pr" "cmd_handler ?u = AfterAuth" "cliid rdemo_call = cl_reqseq ?u" "pr_id ?pr \<noteq> 0"
    using p by (simp_all add: find_node_def add_pending_def rdemo_call_def)
  have m: "pending_calls (rdemo_disp [rdemo_call]) = [] @ rdemo_call # []" "\<forall>x\<in>set []. \<not> matches (rp_callid ?rp) 1 x"
    "matches (rp_callid ?rp) 1 rdemo_call" "\<not> closed (heap (rdemo_disp [rdemo_call]) (pc_sender rdemo_call))"
    using rdemo_facts(7,10) q(4) by (simp_all add: matches_def rdemo_call_def)
  have z: "0 < sint (fst (req_serialize_reply ref_ops (rp_callid ?rp) 5 None (bufsize (options e2e_client)) (cl_serialize_flags e2e_client)))"
    using sized(3) q by simp
  have fits: "0 \<le> sint (fst (reply_bytes e2e_env (rdemo_disp [rdemo_call]) 1
      (ai_name ((e2e_info 1 ''a'')\<lparr>declared_methods := {''m''}\<rparr>)) rdemo_call 5 d))"
    if "map_option members d = map_option members None" for d
    using rdemo_sizes(2) that by (simp add: e2e_info_def)
  have s: "pc_sender rdemo_call = 2" by (simp add: rdemo_call_def)
  from reply_end_to_end [OF ref_laws e q(1-3) z rdemo_facts(5,6) m fits p(1-3) call rtranclp.rtrancl_refl _ u(1,4,2,3), of 5 6]
  obtain c t x f v d where w: "handle_cmd e2e_env 5 6 (Some c) 1 (rdemo_disp [rdemo_call]) = Some t"
    "writes (iolog t) = writes (iolog (rdemo_disp [rdemo_call])) @ [(2, x, f)]" "pending_calls t = []"
    "client_deliver rdemo_env f (client_view ?u) = Some v" "call_check 0 v = Some (Some FLORA_CLI_SUCCESS, erase_node 0 v)"
    and d: "responses v 0 = (undef_response rdemo_env)\<lparr>ret_code := 5, resp_data := d, resp_extra := c_str ''a''\<rparr>"
    unfolding s by (auto simp: e2e_info_def)
  have "ret_code (responses v 0) = 5" unfolding d by simp
  with w show ?thesis by blast
qed

end
