(* ===== verification/Agent.thy ===== *)
theory Agent
  imports ClientC
begin

text \<open>
  The agent (\<open>include/flora-agent.h\<close>, \<open>src/flora-agent.cc\<close>): a wrapper around clients that connects
  again when a connection is lost, repeats the subscriptions and declarations on the new one, and
  passes posts and calls to the functions registered for their names. \<open>Agent::run\<close> is a state
  machine: its thread is at one of the points \<open>run_point\<close>, where it waits, connects or is about to
  take the lock \<open>conn_mutex\<close>. Clients are kept in a table; \<open>None\<close> as the result of an operation is
  undefined behaviour, as in \<open>Client\<close>.
\<close>

section \<open>State\<close>

definition FLORA_AGENT_CONFIG_URI :: u32 where [flora_consts]: "FLORA_AGENT_CONFIG_URI = 0"
definition FLORA_AGENT_CONFIG_BUFSIZE :: u32 where [flora_consts]: "FLORA_AGENT_CONFIG_BUFSIZE = 1"
definition FLORA_AGENT_CONFIG_RECONN_INTERVAL :: u32 where [flora_consts]: "FLORA_AGENT_CONFIG_RECONN_INTERVAL = 2"
definition FLORA_AGENT_CONFIG_MONITOR :: u32 where [flora_consts]: "FLORA_AGENT_CONFIG_MONITOR = 3"
definition FLORA_AGENT_CONFIG_KEEPALIVE :: u32 where [flora_consts]: "FLORA_AGENT_CONFIG_KEEPALIVE = 4"

record agent_options =
  ao_uri :: string
  ao_bufsize :: u32
  ao_reconn_interval :: u32
  ao_flags :: u32
  ao_mon_callback :: bool
  ao_beep_interval :: u32
  ao_noresp_timeout :: u32

text \<open>Where the thread of \<open>run\<close> is: not started; about to call \<open>Client::connect\<close>; connected, about to
  run \<open>init_cli\<close>; about to take the lock and publish the client; waiting to try again; waiting while
  connected; past the wait, about to collect garbage; returned. The number is the client.\<close>

datatype run_point = RunOff | RunConnect | RunInit nat | RunPublish nat | RunRetry | RunWait | RunClean | RunEnd

text \<open>\<open>ag_notified\<close>: the wait the thread is in has been notified. \<open>ag_starting\<close>: \<open>start\<close> waits.
  \<open>run_opts\<close> are the client options \<open>run\<close> copied when it began. \<open>post_handlers\<close> and \<open>call_handlers\<close>
  map names to the application's functions.\<close>

record 'c agent =
  ag_options :: agent_options
  post_handlers :: "(string \<times> nat) list"
  call_handlers :: "(string \<times> nat) list"
  flora_cli :: "nat option"
  ag_working :: bool
  ag_starting :: bool
  ag_notified :: bool
  run_point :: run_point
  run_opts :: client_options
  gabages :: "nat list"
  ag_clients :: "nat \<Rightarrow> 'c client"
  ag_next :: nat

definition new_Agent :: "'c agent" where
  "new_Agent =
     \<lparr>ag_options = \<lparr>ao_uri = [], ao_bufsize = 0, ao_reconn_interval = 10000, ao_flags = 0, ao_mon_callback = False,
        ao_beep_interval = FLORA_CLI_DEFAULT_BEEP_INTERVAL, ao_noresp_timeout = FLORA_CLI_DEFAULT_NORESP_TIMEOUT\<rparr>,
      post_handlers = [], call_handlers = [], flora_cli = None, ag_working = False, ag_starting = False,
      ag_notified = False, run_point = RunOff, run_opts = default_options, gabages = [],
      ag_clients = (\<lambda>_. new_Client default_options), ag_next = 0\<rparr>"

section \<open>Configuration\<close>

text \<open>The variable arguments; reading one as another type is undefined.\<close>

datatype va_arg = VaStr string | VaU32 u32 | VaMonitor bool

fun va_str :: "va_arg list \<Rightarrow> (string \<times> va_arg list) option" where
  "va_str (VaStr x # ap) = Some (x, ap)"
| "va_str _ = None"

fun va_u32 :: "va_arg list \<Rightarrow> (u32 \<times> va_arg list) option" where
  "va_u32 (VaU32 x # ap) = Some (x, ap)"
| "va_u32 _ = None"

fun va_monitor :: "va_arg list \<Rightarrow> (bool \<times> va_arg list) option" where
  "va_monitor (VaMonitor x # ap) = Some (x, ap)"
| "va_monitor _ = None"

definition agent_config :: "u32 \<Rightarrow> va_arg list \<Rightarrow> 'c agent \<Rightarrow> 'c agent option" where
  "agent_config key ap a =
     (if key = FLORA_AGENT_CONFIG_URI then
        map_option (\<lambda>(x, ap). a\<lparr>ag_options := (ag_options a)\<lparr>ao_uri := x\<rparr>\<rparr>) (va_str ap)
      else if key = FLORA_AGENT_CONFIG_BUFSIZE then
        map_option (\<lambda>(x, ap). a\<lparr>ag_options := (ag_options a)\<lparr>ao_bufsize := x\<rparr>\<rparr>) (va_u32 ap)
      else if key = FLORA_AGENT_CONFIG_RECONN_INTERVAL then
        map_option (\<lambda>(x, ap). a\<lparr>ag_options := (ag_options a)\<lparr>ao_reconn_interval := x\<rparr>\<rparr>) (va_u32 ap)
      else if key = FLORA_AGENT_CONFIG_MONITOR then
        Option.bind (va_u32 ap) (\<lambda>(x, ap).
          let a = a\<lparr>ag_options := (ag_options a)\<lparr>ao_flags := x\<rparr>\<rparr> in
          if is_monitor x
          then map_option (\<lambda>(m, ap). a\<lparr>ag_options := (ag_options a)\<lparr>ao_mon_callback := m\<rparr>\<rparr>) (va_monitor ap)
          else Some a)
      else if key = FLORA_AGENT_CONFIG_KEEPALIVE then
        Option.bind (va_u32 ap) (\<lambda>(x, ap).
          map_option (\<lambda>(y, ap). a\<lparr>ag_options := (ag_options a)\<lparr>ao_beep_interval := x, ao_noresp_timeout := y\<rparr>\<rparr>)
            (va_u32 ap))
      else Some a)"

section \<open>Operations of the application\<close>

text \<open>An operation of client \<open>k\<close>.\<close>

definition with_cli :: "nat \<Rightarrow> ('c client \<Rightarrow> ('r \<times> 'c client) option) \<Rightarrow> 'c agent \<Rightarrow> ('r \<times> 'c agent) option" where
  "with_cli k f a = map_option (\<lambda>(r, s). (r, a\<lparr>ag_clients := (ag_clients a)(k := s)\<rparr>)) (f (ag_clients a k))"

text \<open>A request whose result the agent ignores, on the current client if there is one.\<close>

definition tell_cli :: "('c client \<Rightarrow> (i32 \<times> 'c client) option) \<Rightarrow> 'c agent \<Rightarrow> 'c agent option" where
  "tell_cli f a = (case flora_cli a of None \<Rightarrow> Some a | Some k \<Rightarrow> map_option snd (with_cli k f a))"

text \<open>\<open>insert\<close> keeps the function that is registered already; only a new name is sent. A null name is
  undefined (it is made a \<open>std::string\<close>).\<close>

definition agent_subscribe :: "'c cenv \<Rightarrow> string option \<Rightarrow> nat \<Rightarrow> 'c agent \<Rightarrow> 'c agent option" where
  "agent_subscribe E name cb a =
     Option.bind name (\<lambda>n.
       let (hs, fresh) = map_insert n cb (post_handlers a); a = a\<lparr>post_handlers := hs\<rparr>
       in if fresh then tell_cli (client_subscribe E name) a else Some a)"

definition agent_unsubscribe :: "'c cenv \<Rightarrow> string option \<Rightarrow> 'c agent \<Rightarrow> 'c agent option" where
  "agent_unsubscribe E name a =
     Option.bind name (\<lambda>n.
       case map_of (post_handlers a) n of
         None \<Rightarrow> Some a
       | Some _ \<Rightarrow> tell_cli (client_unsubscribe E name) (a\<lparr>post_handlers := map_erase n (post_handlers a)\<rparr>))"

definition agent_declare_method :: "'c cenv \<Rightarrow> string option \<Rightarrow> nat \<Rightarrow> 'c agent \<Rightarrow> 'c agent option" where
  "agent_declare_method E name cb a =
     Option.bind name (\<lambda>n.
       let (hs, fresh) = map_insert n cb (call_handlers a); a = a\<lparr>call_handlers := hs\<rparr>
       in if fresh then tell_cli (client_declare_method E name) a else Some a)"

definition agent_remove_method :: "'c cenv \<Rightarrow> string option \<Rightarrow> 'c agent \<Rightarrow> 'c agent option" where
  "agent_remove_method E name a =
     Option.bind name (\<lambda>n.
       case map_of (call_handlers a) n of
         None \<Rightarrow> Some a
       | Some _ \<Rightarrow> tell_cli (client_remove_method E name) (a\<lparr>call_handlers := map_erase n (call_handlers a)\<rparr>))"

text \<open>\<open>notify_one\<close> reaches the thread of \<open>run\<close> only while it waits.\<close>

definition destroy_client :: "'c agent \<Rightarrow> 'c agent" where
  "destroy_client a = (if run_point a = RunWait \<or> run_point a = RunRetry then a\<lparr>ag_notified := True\<rparr> else a)"

definition agent_post ::
  "'c cenv \<Rightarrow> string option \<Rightarrow> 'c option \<Rightarrow> u32 \<Rightarrow> 'c agent \<Rightarrow> (i32 \<times> 'c agent) option" where
  "agent_post E name msg msgtype a =
     (case flora_cli a of
        None \<Rightarrow> Some (FLORA_CLI_ECONN, a)
      | Some k \<Rightarrow>
          map_option (\<lambda>(r, a). (r, if r = FLORA_CLI_ECONN then destroy_client a else a))
            (with_cli k (client_post E name msg msgtype) a))"

text \<open>The synchronous call up to its wait, and what follows when the client's call has returned \<open>r\<close>.\<close>

definition agent_call ::
  "'c cenv \<Rightarrow> bool \<Rightarrow> string option \<Rightarrow> 'c option \<Rightarrow> string option \<Rightarrow> nat \<Rightarrow> u32 \<Rightarrow> 'c agent \<Rightarrow>
   (call_status \<times> 'c agent) option" where
  "agent_call E in_cb name msg target reply timeout a =
     (case flora_cli a of
        None \<Rightarrow> Some (CallReturned FLORA_CLI_ECONN, a)
      | Some k \<Rightarrow> with_cli k (client_call E in_cb name msg target reply timeout) a)"

definition agent_call_end :: "i32 \<Rightarrow> 'c agent \<Rightarrow> i32 \<times> 'c agent" where
  "agent_call_end r a = (r, if r = FLORA_CLI_ECONN then destroy_client a else a)"

definition agent_call_nb ::
  "'c cenv \<Rightarrow> string option \<Rightarrow> 'c option \<Rightarrow> string option \<Rightarrow> nat option \<Rightarrow> u32 \<Rightarrow> 'c agent \<Rightarrow> (i32 \<times> 'c agent) option" where
  "agent_call_nb E name msg target cb timeout a =
     (case flora_cli a of
        None \<Rightarrow> Some (FLORA_CLI_ECONN, a)
      | Some k \<Rightarrow> map_option (\<lambda>(r, a). agent_call_end r a) (with_cli k (client_call_nb E name msg target cb timeout) a))"

definition agent_get_socket :: "'c agent \<Rightarrow> int" where
  "agent_get_socket a = (case flora_cli a of None \<Rightarrow> - 1 | Some k \<Rightarrow> client_get_socket (ag_clients a k))"

section \<open>Callbacks of the clients\<close>

text \<open>Which function of the application is called, with what.\<close>

datatype 'c handled_by = HandlePost nat string "'c option" u32 | HandleCall nat string "'c option" "'c reply_impl"

definition agent_recv_post :: "string \<Rightarrow> u32 \<Rightarrow> 'c option \<Rightarrow> 'c agent \<Rightarrow> 'c handled_by option" where
  "agent_recv_post name msgtype msg a =
     map_option (\<lambda>cb. HandlePost cb name msg msgtype) (map_of (post_handlers a) name)"

definition agent_recv_call :: "string \<Rightarrow> 'c option \<Rightarrow> 'c reply_impl \<Rightarrow> 'c agent \<Rightarrow> 'c handled_by option" where
  "agent_recv_call name msg reply a =
     map_option (\<lambda>cb. HandleCall cb name msg reply) (map_of (call_handlers a) name)"

definition agent_disconnected :: "'c agent \<Rightarrow> 'c agent" where
  "agent_disconnected a = destroy_client a"

text \<open>The agent as the \<open>ClientCallback\<close> of its clients.\<close>

fun agent_upcall :: "'c upcall \<Rightarrow> 'c agent \<Rightarrow> 'c handled_by option \<times> 'c agent" where
  "agent_upcall (UpPost name msgtype msg tg sender) a = (agent_recv_post name msgtype msg a, a)"
| "agent_upcall (UpCall name msg tg sender reply) a = (agent_recv_call name msg reply a, a)"
| "agent_upcall UpDisconnected a = (None, agent_disconnected a)"
| "agent_upcall _ a = (None, a)"

section \<open>The thread\<close>

definition agent_start :: "bool \<Rightarrow> 'c agent \<Rightarrow> 'c agent" where
  "agent_start block a =
     a\<lparr>ag_working := True, ag_starting := \<not> block, run_point := RunConnect, gabages := [],
       run_opts := \<lparr>bufsize = ao_bufsize (ag_options a), opt_flags = ao_flags (ag_options a),
                    beep_interval = ao_beep_interval (ag_options a),
                    noresp_timeout = ao_noresp_timeout (ag_options a)\<rparr>\<rparr>"

text \<open>One call of \<open>Client::connect\<close>: it still waits, has failed, or gave a new client.\<close>

definition run_connect :: "'c cenv \<Rightarrow> net \<Rightarrow> read_out list list \<Rightarrow> 'c agent \<Rightarrow> 'c agent option" where
  "run_connect E net script a =
     map_option
       (\<lambda>(r, s).
          case r of
            None \<Rightarrow> a
          | Some r \<Rightarrow>
              if r \<noteq> FLORA_CLI_SUCCESS
              then a\<lparr>ag_starting := False, ag_notified := False, run_point := RunRetry\<rparr>
              else a\<lparr>ag_clients := (ag_clients a)(ag_next a := s), ag_next := ag_next a + 1,
                     run_point := RunInit (ag_next a)\<rparr>)
       (flora_Client_connect E net (Some (c_str (ao_uri (ag_options a)))) True (ao_mon_callback (ag_options a))
          (Some (run_opts a)) script)"

definition init_cli :: "'c cenv \<Rightarrow> nat \<Rightarrow> 'c agent \<Rightarrow> 'c agent option" where
  "init_cli E k a =
     Option.bind
       (iterate (\<lambda>h a. map_option snd (with_cli k (client_subscribe E (Some (c_str (fst h)))) a)) (post_handlers a) a)
       (\<lambda>a. iterate (\<lambda>h a. map_option snd (with_cli k (client_declare_method E (Some (c_str (fst h)))) a))
              (call_handlers a) a)"

definition run_init :: "'c cenv \<Rightarrow> nat \<Rightarrow> 'c agent \<Rightarrow> 'c agent option" where
  "run_init E k a = map_option (\<lambda>a. a\<lparr>run_point := RunPublish k\<rparr>) (init_cli E k a)"

definition run_publish :: "nat \<Rightarrow> 'c agent \<Rightarrow> 'c agent" where
  "run_publish k a =
     a\<lparr>gabages := gabages a @ [k], flora_cli := Some k, ag_starting := False, ag_notified := False,
       run_point := RunWait\<rparr>"

text \<open>The wait is over: it was notified, it timed out, or it woke for no reason.\<close>

definition run_resume :: "'c agent \<Rightarrow> 'c agent" where
  "run_resume a =
     (let a = a\<lparr>ag_notified := False\<rparr> in
      if run_point a = RunWait then a\<lparr>flora_cli := None, run_point := RunClean\<rparr>
      else if run_point a = RunRetry then a\<lparr>run_point := RunClean\<rparr>
      else a)"

text \<open>\<open>use_count\<close> is taken while the list and the local copy both own the client; \<open>others k\<close> are its
  further owners.\<close>

fun clean_gabages ::
  "'c cenv \<Rightarrow> (nat \<Rightarrow> nat) \<Rightarrow> nat list \<Rightarrow> 'c agent \<Rightarrow> (nat list \<times> 'c agent) option" where
  "clean_gabages E others [] a = Some ([], a)"
| "clean_gabages E others (k # ks) a =
     Option.bind (with_cli k (client_close E False False) a) (\<lambda>(r, a).
       map_option (\<lambda>(kept, a). (if others k + 2 = 1 then kept else k # kept, a)) (clean_gabages E others ks a))"

definition run_clean :: "'c cenv \<Rightarrow> (nat \<Rightarrow> nat) \<Rightarrow> 'c agent \<Rightarrow> 'c agent option" where
  "run_clean E others a =
     map_option (\<lambda>(kept, a). a\<lparr>gabages := kept, run_point := if ag_working a then RunConnect else RunEnd\<rparr>)
       (clean_gabages E others (gabages a) a)"

text \<open>\<open>close\<close> up to the point where it joins the thread. When it is called on a client's receiving
  thread the client refuses, and a thread of its own closes it.\<close>

definition agent_close :: "'c cenv \<Rightarrow> bool \<Rightarrow> 'c agent \<Rightarrow> 'c agent option" where
  "agent_close E in_cb a =
     (if \<not> ag_working a then Some a
      else
        (let b = (destroy_client a)\<lparr>ag_working := False, flora_cli := None, post_handlers := [], call_handlers := []\<rparr> in
         case flora_cli a of
           None \<Rightarrow> Some b
         | Some k \<Rightarrow>
             Option.bind (with_cli k (client_close E in_cb False) b) (\<lambda>(r, b).
               if r = FLORA_CLI_EDEADLOCK then map_option snd (with_cli k (client_close E False False) b)
               else Some b)))"

text \<open>The thread has ended: \<open>close\<close> can return.\<close>

definition agent_joined :: "'c agent \<Rightarrow> bool" where
  "agent_joined a \<longleftrightarrow> run_point a = RunOff \<or> run_point a = RunEnd"

definition delete_Agent :: "'c cenv \<Rightarrow> bool \<Rightarrow> 'c agent \<Rightarrow> 'c agent option" where
  "delete_Agent E in_cb a = agent_close E in_cb a"

section \<open>The C interface\<close>

text \<open>The functions that pass on to the class; the conversion of Caps objects is the identity. The handles are
  not checked for null.\<close>

definition flora_agent_create :: "'c agent" where
  "flora_agent_create = new_Agent"

definition flora_agent_config :: "u32 \<Rightarrow> va_arg list \<Rightarrow> 'c agent \<Rightarrow> 'c agent option" where
  "flora_agent_config key ap a = agent_config key ap a"

definition flora_agent_unsubscribe :: "'c cenv \<Rightarrow> string option \<Rightarrow> 'c agent \<Rightarrow> 'c agent option" where
  "flora_agent_unsubscribe E name a = agent_unsubscribe E name a"

definition flora_agent_start :: "i32 \<Rightarrow> 'c agent \<Rightarrow> 'c agent" where
  "flora_agent_start block a = agent_start (block \<noteq> 0) a"

definition flora_agent_close :: "'c cenv \<Rightarrow> bool \<Rightarrow> 'c agent \<Rightarrow> 'c agent option" where
  "flora_agent_close E in_cb a = agent_close E in_cb a"

definition flora_agent_post ::
  "'c cenv \<Rightarrow> string option \<Rightarrow> 'c option \<Rightarrow> u32 \<Rightarrow> 'c agent \<Rightarrow> (i32 \<times> 'c agent) option" where
  "flora_agent_post E name msg msgtype a = agent_post E name msg msgtype a"

text \<open>The two registrations wrap the C function: what it is called with. A call's reply object gets a handle
  of its own, as in \<open>ClientC\<close>.\<close>

definition flora_agent_subscribe :: "'c cenv \<Rightarrow> string option \<Rightarrow> nat \<Rightarrow> 'c agent \<Rightarrow> 'c agent option" where
  "flora_agent_subscribe E name cb a = agent_subscribe E name cb a"

definition flora_agent_declare_method :: "'c cenv \<Rightarrow> string option \<Rightarrow> nat \<Rightarrow> 'c agent \<Rightarrow> 'c agent option" where
  "flora_agent_declare_method E name cb a = agent_declare_method E name cb a"

definition flora_agent_delete :: "'c cenv \<Rightarrow> bool \<Rightarrow> 'c agent \<Rightarrow> 'c agent option" where
  "flora_agent_delete E in_cb a = delete_Agent E in_cb a"

text \<open>\<open>flora_agent_call\<close>: its beginning, with the \<open>Response\<close> on its stack, and what it makes of the code
  the call returned; \<open>k\<close> is the client the call used, if there was one.\<close>

definition flora_agent_call ::
  "'c cenv \<Rightarrow> bool \<Rightarrow> string option \<Rightarrow> 'c option \<Rightarrow> string option \<Rightarrow> nat \<Rightarrow> u32 \<Rightarrow> 'c agent \<Rightarrow>
   (call_status \<times> 'c agent) option" where
  "flora_agent_call E in_cb name msg target resp timeout a =
     agent_call E in_cb name msg target resp timeout
       (case flora_cli a of
          None \<Rightarrow> a
        | Some k \<Rightarrow> a\<lparr>ag_clients := (ag_clients a)
            (k := (ag_clients a k)\<lparr>live_resps := insert resp (live_resps (ag_clients a k))\<rparr>)\<rparr>)"

definition flora_agent_call_end ::
  "i32 \<Rightarrow> bool \<Rightarrow> nat option \<Rightarrow> nat \<Rightarrow> 'c agent \<Rightarrow> i32 \<times> 'c c_result option \<times> 'c agent" where
  "flora_agent_call_end r has_result used resp a =
     (let (r, a) = agent_call_end r a
      in case used of
           None \<Rightarrow> (r, None, a)
         | Some k \<Rightarrow>
             (r,
              (if r \<noteq> FLORA_CLI_SUCCESS \<or> \<not> has_result then None
               else Some (cxxresp_to_cresp (responses (ag_clients a k) resp))),
              a\<lparr>ag_clients := (ag_clients a)
                (k := (ag_clients a k)\<lparr>live_resps := live_resps (ag_clients a k) - {resp}\<rparr>)\<rparr>))"

text \<open>The asynchronous call passes a function that is never empty.\<close>

definition flora_agent_call_nb ::
  "'c cenv \<Rightarrow> string option \<Rightarrow> 'c option \<Rightarrow> string option \<Rightarrow> nat \<Rightarrow> u32 \<Rightarrow> 'c agent \<Rightarrow> (i32 \<times> 'c agent) option" where
  "flora_agent_call_nb E name msg target f timeout a = agent_call_nb E name msg target (Some f) timeout a"

text \<open>That function; a null callback is not checked for, calling it is
  undefined.\<close>

definition agent_call_nb_callback :: "bool \<Rightarrow> i32 \<Rightarrow> 'c response \<Rightarrow> (i32 \<times> 'c c_result option) option" where
  "agent_call_nb_callback has_cb rescode resp =
     (if \<not> has_cb then None
      else Some (rescode, if rescode = FLORA_CLI_SUCCESS then Some (cxxresp_to_cresp resp) else None))"

end
