(* ===== verification/AgentProps.thy ===== *)
theory AgentProps
  imports Agent ClientLife
begin

text \<open>
  The agent as a transition system over its clients, its invariant, and the proof that every step
  keeps it. What the clients' threads do is the client's own transition system; the agent relies on it
  only through the lemmas that no step opens a closed connection and that closing is always defined.
\<close>

section \<open>Closing a pool of clients\<close>

locale closing_pool =
  fixes ok :: "'s \<Rightarrow> bool" and shut :: "'s \<Rightarrow> bool" and close :: "'s \<Rightarrow> 's option"
  assumes close_ok: "ok s \<Longrightarrow> \<exists>t. close s = Some t \<and> ok t \<and> shut t"
begin

lemma close_all:
  "(\<And>k. k \<in> set ks \<Longrightarrow> ok (pool k)) \<Longrightarrow>
   \<exists>pool'. iterate (\<lambda>k p. map_option (\<lambda>s. p(k := s)) (close (p k))) ks pool = Some pool' \<and>
     (\<forall>k\<in>set ks. ok (pool' k) \<and> shut (pool' k)) \<and> (\<forall>k. k \<notin> set ks \<longrightarrow> pool' k = pool k)"
proof (induction ks arbitrary: pool)
  case (Cons k ks)
  from close_ok [of "pool k"] Cons.prems obtain t where t: "close (pool k) = Some t" "ok t" "shut t" by auto
  have "ok ((pool(k := t)) j)" if "j \<in> set ks" for j using that Cons.prems t(2) by simp
  from Cons.IH [of "pool(k := t)", OF this] obtain p where
    p: "iterate (\<lambda>k p. map_option (\<lambda>s. p(k := s)) (close (p k))) ks (pool(k := t)) = Some p"
      "\<forall>j\<in>set ks. ok (p j) \<and> shut (p j)" "\<forall>j. j \<notin> set ks \<longrightarrow> p j = (pool(k := t)) j" by blast
  have "ok (p k) \<and> shut (p k)" using p(2,3) t by (cases "k \<in> set ks") auto
  moreover have "\<forall>j. j \<notin> set (k # ks) \<longrightarrow> p j = pool j" using p(3) by simp
  moreover have "iterate (\<lambda>k p. map_option (\<lambda>s. p(k := s)) (close (p k))) (k # ks) pool = Some p"
    using p(1) t(1) by (simp del: fun_upd_apply)
  moreover have "\<forall>j\<in>set (k # ks). ok (p j) \<and> shut (p j)" using calculation(1) p(2) by simp
  ultimately show ?case by blast
qed simp

end

definition close_client :: "'c cenv \<Rightarrow> 'c client \<Rightarrow> 'c client option" where
  "close_client E s = map_option snd (client_close E False False s)"

lemma client_close_inv:
  assumes "client_inv w s"
  obtains t where "client_close E False b s = Some (FLORA_CLI_SUCCESS, t)" "client_inv w t" "is_closed t = Some True"
proof -
  from iclose_inv [OF assms, of E b FLORA_CLI_ECLOSED] obtain u where
    u: "iclose E b FLORA_CLI_ECLOSED s = Some u" "client_inv w u" "is_closed u = Some True" by blast
  then show ?thesis
    by (intro that [of "u\<lparr>recv_on := False, cmd_handler := BeforeAuth, keepalive_on := False\<rparr>"])
      (simp_all add: client_close_def client_inv_def is_closed_def)
qed

interpretation pool: closing_pool "\<lambda>s. \<exists>w. client_inv w s" "\<lambda>s. is_closed s = Some True" "close_client E" for E
proof
  fix s :: "'a client" assume "\<exists>w. client_inv w s"
  then obtain w where "client_inv w s" by blast
  then obtain t where "client_close E False False s = Some (FLORA_CLI_SUCCESS, t)" "client_inv w t" "is_closed t = Some True"
    by (rule client_close_inv)
  then show "\<exists>t. close_client E s = Some t \<and> (\<exists>w. client_inv w t) \<and> is_closed t = Some True"
    by (auto simp: close_client_def)
qed

section \<open>What the agent does to a client\<close>

text \<open>Every request is a step of the client, and no step opens a closed connection.\<close>

lemma cl_step_closed:
  assumes "cl_step E F p q" and "client_inv (snd p) (fst p)"
  shows "is_closed (fst p) = Some True \<Longrightarrow> is_closed (fst q) = Some True"
  using assms
proof (induction rule: cl_step.induct)
  case (call_wait s r in_cb name msg target timeout it t w)
  from call_wait(3) show ?case
  proof (cases rule: client_call_cases)
    case (sent m ok)
    from send_buffer_account(3) [OF sent(1)] call_wait(4) show ?thesis by (simp add: is_closed_def add_pending_def)
  qed simp
next
  case (call_fail s in_cb name msg target r timeout code t w)
  with client_call_seq [OF call_fail(2,3)] show ?case by (auto simp: is_closed_def)
next
  case (call_done it r w s code t)
  with call_check_cases [OF call_done(2)] show ?case by (auto simp: is_closed_def erase_node_def)
next
  case (call_late it r w s code t)
  then show ?case by (auto simp: call_timeout_def is_closed_def erase_node_def)
next
  case (call_nb s f name msg target timeout code t w)
  from call_nb(3) show ?case
  proof (cases rule: client_call_nb_cases)
    case early
    with client_call_nb_seq [OF call_nb(3)] call_nb(4) show ?thesis by (auto simp: is_closed_def)
  next
    case (sent m ok)
    from send_buffer_account(3) [OF sent(1)] call_nb(4) show ?thesis by (simp add: is_closed_def add_pending_def)
  qed
next
  case (send m c bs s ok t w)
  with send_buffer_account(3) [OF send(2)] show ?case by simp
next
  case (recv s outs t w)
  with recv_iter_closed [of s E outs] show ?case by auto
next
  case (keepalive s timed_out t w)
  with keepalive_closed [of s E timed_out] show ?case by (auto simp: is_closed_def)
next
  case (close in_cb passv s code t w)
  with iclose_noop [of s E passv FLORA_CLI_ECLOSED] show ?case
    by (auto simp: client_close_def is_closed_def split: if_splits)
qed (simp_all add: is_closed_def)

text \<open>An operation of a client that the agent may use: it keeps the invariant and opens nothing.\<close>

definition keeps_client :: "('c client \<Rightarrow> ('r \<times> 'c client) option) \<Rightarrow> bool" where
  "keeps_client f \<longleftrightarrow> (\<forall>w s r t. f s = Some (r, t) \<longrightarrow> client_inv w s \<longrightarrow>
     client_inv w t \<and> (is_closed s = Some True \<longrightarrow> is_closed t = Some True))"

lemma send_request_keeps:
  assumes "send_request E m s = Some (r, t)" and "client_inv w s"
  shows "client_inv w t \<and> (is_closed s = Some True \<longrightarrow> is_closed t = Some True)"
proof (cases "sint (fst m) \<le> 0")
  case False
  with assms(1) obtain ok where "send_buffer E m s = Some (ok, t)" by (auto simp: send_request_def)
  from send_buffer_inv [OF this assms(2)] send_buffer_account(3) [OF this] show ?thesis by simp
qed (use assms in \<open>simp add: send_request_def\<close>)

lemma keeps_clientI:
  assumes "\<And>s. (\<exists>r. f s = Some (r, s)) \<or> (\<exists>m. f s = send_request E m s)"
  shows "keeps_client f"
  unfolding keeps_client_def
proof (intro allI impI)
  fix w s r t assume f: "f s = Some (r, t)" and i: "client_inv w s"
  from assms [of s] show "client_inv w t \<and> (is_closed s = Some True \<longrightarrow> is_closed t = Some True)"
  proof
    assume "\<exists>m. f s = send_request E m s"
    then obtain m where "send_request E m s = Some (r, t)" using f by auto
    from send_request_keeps [OF this i] show ?thesis .
  qed (use f i in auto)
qed

lemma keeps_client_requests:
  "keeps_client (client_subscribe E name)" "keeps_client (client_unsubscribe E name)"
  "keeps_client (client_declare_method E name)" "keeps_client (client_remove_method E name)"
  "keeps_client (client_post E name msg type)"
  unfolding client_subscribe_def client_unsubscribe_def client_declare_method_def client_remove_method_def client_post_def
  by (rule keeps_clientI [where E = E], metis)+

lemma keeps_client_close: "keeps_client (client_close E in_cb b)"
  unfolding keeps_client_def
proof (intro allI impI)
  fix w s r t assume c: "client_close E in_cb b s = Some (r, t)" and i: "client_inv w s"
  have "cl_step E {} (s, w) (t, w)" by (rule cl_step.close [OF c])
  from cl_step_inv [OF this] cl_step_closed [OF this] i
  show "client_inv w t \<and> (is_closed s = Some True \<longrightarrow> is_closed t = Some True)" by simp
qed

section \<open>The agent as a transition system\<close>

text \<open>\<open>W k\<close> lists the synchronous calls in progress on client \<open>k\<close>. The rule \<open>client\<close> is a step of one of
  the clients: of its threads, of a call that waits on it, of a function that was called back. The
  synchronous call whose write fails is left out, as for a client.\<close>

type_synonym 'c ag_state = "'c agent \<times> (nat \<Rightarrow> (nat \<times> nat) list)"

inductive ag_step :: "'c cenv \<Rightarrow> nat set \<Rightarrow> 'c ag_state \<Rightarrow> 'c ag_state \<Rightarrow> bool" for E F where
  config: "agent_config key ap a = Some b \<Longrightarrow> ag_step E F (a, W) (b, W)"
| subscribe: "agent_subscribe E name cb a = Some b \<Longrightarrow> ag_step E F (a, W) (b, W)"
| unsubscribe: "agent_unsubscribe E name a = Some b \<Longrightarrow> ag_step E F (a, W) (b, W)"
| declare_method: "agent_declare_method E name cb a = Some b \<Longrightarrow> ag_step E F (a, W) (b, W)"
| remove_method: "agent_remove_method E name a = Some b \<Longrightarrow> ag_step E F (a, W) (b, W)"
| post: "agent_post E name msg type a = Some (r, b) \<Longrightarrow> ag_step E F (a, W) (b, W)"
| call_nb: "\<lbrakk>flora_cli a = Some k; seq_left (ag_clients a k); f \<in> F;
    agent_call_nb E name msg target (Some f) timeout a = Some (r, b)\<rbrakk> \<Longrightarrow> ag_step E F (a, W) (b, W)"
| call_wait: "\<lbrakk>flora_cli a = Some k; seq_left (ag_clients a k); r \<in> live_resps (ag_clients a k);
    agent_call E in_cb name msg target r timeout a = Some (CallWaiting it, b)\<rbrakk> \<Longrightarrow>
    ag_step E F (a, W) (b, W(k := (it, r) # W k))"
| call_fail: "\<lbrakk>flora_cli a = Some k; seq_left (ag_clients a k);
    agent_call E in_cb name msg target r timeout a = Some (CallReturned code, b); code \<noteq> FLORA_CLI_ECONN\<rbrakk> \<Longrightarrow>
    ag_step E F (a, W) (b, W)"
| call_end: "ag_step E F (a, W) (snd (agent_call_end r a), W)"
| client: "\<lbrakk>k < ag_next a; cl_step E F (ag_clients a k, W k) (t, w)\<rbrakk> \<Longrightarrow>
    ag_step E F (a, W) (a\<lparr>ag_clients := (ag_clients a)(k := t)\<rparr>, W(k := w))"
| upcall: "ag_step E F (a, W) (snd (agent_upcall u a), W)"
| start: "agent_joined a \<Longrightarrow> ag_step E F (a, W) (agent_start block a, W)"
| connect: "\<lbrakk>run_point a = RunConnect; run_connect E net script a = Some b\<rbrakk> \<Longrightarrow>
    ag_step E F (a, W) (b, W(ag_next a := []))"
| init: "\<lbrakk>run_point a = RunInit k; run_init E k a = Some b\<rbrakk> \<Longrightarrow> ag_step E F (a, W) (b, W)"
| publish: "run_point a = RunPublish k \<Longrightarrow> ag_step E F (a, W) (run_publish k a, W)"
| resume: "ag_step E F (a, W) (run_resume a, W)"
| clean: "\<lbrakk>run_point a = RunClean; run_clean E others a = Some b\<rbrakk> \<Longrightarrow> ag_step E F (a, W) (b, W)"
| close: "agent_close E in_cb a = Some b \<Longrightarrow> ag_step E F (a, W) (b, W)"

inductive ag_reachable :: "'c cenv \<Rightarrow> nat set \<Rightarrow> 'c ag_state \<Rightarrow> bool" for E F where
  new: "ag_reachable E F (new_Agent, \<lambda>_. [])"
| step: "\<lbrakk>ag_reachable E F p; ag_step E F p q\<rbrakk> \<Longrightarrow> ag_reachable E F q"

section \<open>Invariant\<close>

text \<open>The client the thread of \<open>run\<close> holds besides those in the list.\<close>

definition held :: "'c agent \<Rightarrow> nat set" where
  "held a = (case run_point a of RunInit k \<Rightarrow> {k} | RunPublish k \<Rightarrow> {k} | _ \<Rightarrow> {})"

text \<open>Every client is in order, and it is closed unless the thread holds it or will close it; the current
  client is one that the thread will close, and there is one only while the thread waits. When the
  thread is not running everything is closed.\<close>

definition clients_ok :: "'c ag_state \<Rightarrow> bool" where
  "clients_ok p \<longleftrightarrow> (\<forall>k<ag_next (fst p). client_inv (snd p k) (ag_clients (fst p) k))"

definition accounted :: "'c agent \<Rightarrow> bool" where
  "accounted a \<longleftrightarrow>
     (\<forall>k<ag_next a. k \<in> set (gabages a) \<or> k \<in> held a \<or> is_closed (ag_clients a k) = Some True) \<and>
     (\<forall>k\<in>set (gabages a) \<union> held a. k < ag_next a) \<and>
     (\<forall>k. flora_cli a = Some k \<longrightarrow> k \<in> set (gabages a) \<and> run_point a = RunWait) \<and>
     (agent_joined a \<longrightarrow> (\<forall>k<ag_next a. is_closed (ag_clients a k) = Some True))"

definition ag_inv :: "'c ag_state \<Rightarrow> bool" where
  "ag_inv p \<longleftrightarrow> clients_ok p \<and> accounted (fst p)"

lemma ag_inv_new: "ag_inv (new_Agent, \<lambda>_. [])"
  by (simp add: ag_inv_def clients_ok_def accounted_def new_Agent_def held_def)

text \<open>Operations that leave the clients and the thread alone.\<close>

lemma ag_inv_same:
  assumes "ag_inv (a, W)" and "ag_clients b = ag_clients a" "ag_next b = ag_next a" "run_point b = run_point a"
    "gabages b = gabages a" "flora_cli b = flora_cli a \<or> flora_cli b = None"
  shows "ag_inv (b, W)"
  using assms by (auto simp: ag_inv_def clients_ok_def accounted_def held_def agent_joined_def)

text \<open>A step of one client.\<close>

lemma ag_inv_client:
  assumes "ag_inv (a, W)" and "k < ag_next a \<Longrightarrow> client_inv w t"
    and "k < ag_next a \<Longrightarrow> is_closed (ag_clients a k) = Some True \<Longrightarrow> is_closed t = Some True"
  shows "ag_inv (a\<lparr>ag_clients := (ag_clients a)(k := t)\<rparr>, W(k := w))"
  using assms by (auto simp: ag_inv_def clients_ok_def accounted_def held_def agent_joined_def)

lemma ag_inv_with_cli:
  assumes "ag_inv (a, W)" and "with_cli k f a = Some (r, b)" and "keeps_client f" and "k < ag_next a"
  shows "ag_inv (b, W)"
proof -
  from assms(2) obtain t where t: "f (ag_clients a k) = Some (r, t)" "b = a\<lparr>ag_clients := (ag_clients a)(k := t)\<rparr>"
    by (auto simp: with_cli_def)
  have "client_inv (W k) (ag_clients a k)" using assms(1,4) by (simp add: ag_inv_def clients_ok_def)
  with assms(3) t(1) have "client_inv (W k) t" "is_closed (ag_clients a k) = Some True \<longrightarrow> is_closed t = Some True"
    by (auto simp: keeps_client_def)
  with ag_inv_client [OF assms(1), of k "W k" t] t(2) show ?thesis by simp
qed

lemma with_cli_fields:
  assumes "with_cli k f a = Some (r, b)"
  shows "ag_next b = ag_next a" "run_point b = run_point a" "gabages b = gabages a" "flora_cli b = flora_cli a"
    "post_handlers b = post_handlers a" "call_handlers b = call_handlers a" "ag_working b = ag_working a"
  using assms by (auto simp: with_cli_def)

lemma flora_cli_known: "ag_inv (a, W) \<Longrightarrow> flora_cli a = Some k \<Longrightarrow> k < ag_next a"
  by (auto simp: ag_inv_def accounted_def)

lemma ag_inv_tell:
  assumes "ag_inv (a, W)" and "tell_cli f a = Some b" and "keeps_client f"
  shows "ag_inv (b, W)"
proof (cases "flora_cli a")
  case (Some k)
  with assms(2) obtain r where "with_cli k f a = Some (r, b)" by (auto simp: tell_cli_def)
  from ag_inv_with_cli [OF assms(1) this assms(3) flora_cli_known [OF assms(1) Some]] show ?thesis .
qed (use assms in \<open>simp add: tell_cli_def\<close>)

lemma ag_inv_destroy: "ag_inv (a, W) \<Longrightarrow> ag_inv (destroy_client a, W)"
  by (erule ag_inv_same) (simp_all add: destroy_client_def)

lemma iterate_keeps:
  assumes "\<And>x a b. P a \<Longrightarrow> f x a = Some b \<Longrightarrow> P b" and "iterate f xs a = Some b" and "P a"
  shows "P b"
  using assms(2,3)
proof (induction xs arbitrary: a)
  case (Cons x xs)
  then obtain c where "f x a = Some c" "iterate f xs c = Some b" by (auto simp: bind_eq_Some)
  with Cons assms(1) show ?case by blast
qed simp

lemma init_cli_inv:
  assumes "ag_inv (a, W)" and "init_cli E k a = Some b" and "k < ag_next a"
  shows "ag_inv (b, W) \<and> ag_next b = ag_next a \<and> run_point b = run_point a \<and> ag_working b = ag_working a"
proof -
  let ?P = "\<lambda>b. ag_inv (b, W) \<and> ag_next b = ag_next a \<and> run_point b = run_point a \<and> ag_working b = ag_working a"
  have step: "?P d" if "?P c" "map_option snd (with_cli k f c) = Some d" "keeps_client f" for c d and f :: "'a client \<Rightarrow> (i32 \<times> 'a client) option"
  proof -
    from that(2) obtain r where w: "with_cli k f c = Some (r, d)" by auto
    from ag_inv_with_cli [OF _ w that(3)] that(1) assms(3) with_cli_fields [OF w] show ?thesis by simp
  qed
  from assms(2) obtain c where
    c: "iterate (\<lambda>h a. map_option snd (with_cli k (client_subscribe E (Some (c_str (fst h)))) a)) (post_handlers a) a = Some c"
      "iterate (\<lambda>h a. map_option snd (with_cli k (client_declare_method E (Some (c_str (fst h)))) a)) (call_handlers c) c = Some b"
    by (auto simp: init_cli_def bind_eq_Some)
  have "?P c" by (rule iterate_keeps [where P = ?P, OF _ c(1)]) (use step keeps_client_requests(1) assms(1) in blast)+
  then show ?thesis
    by (intro iterate_keeps [where P = ?P, OF _ c(2)]) (use step keeps_client_requests(3) in blast)+
qed

lemma run_connect_inv:
  assumes "ag_inv (a, W)" and "run_point a = RunConnect" and "run_connect E net script a = Some b"
  shows "ag_inv (b, W(ag_next a := []))"
proof -
  let ?u = "Some (c_str (ao_uri (ag_options a)))"
  from assms(3) obtain r s where s: "flora_Client_connect E net ?u True (ao_mon_callback (ag_options a)) (Some (run_opts a)) script
      = Some (r, s)" and b: "b = (case r of None \<Rightarrow> a | Some r \<Rightarrow>
        if r \<noteq> FLORA_CLI_SUCCESS then a\<lparr>ag_starting := False, ag_notified := False, run_point := RunRetry\<rparr>
        else a\<lparr>ag_clients := (ag_clients a)(ag_next a := s), ag_next := ag_next a + 1, run_point := RunInit (ag_next a)\<rparr>)"
    by (auto simp: run_connect_def)
  have fc: "flora_cli a = None" using assms(1,2) by (cases "flora_cli a") (auto simp: ag_inv_def accounted_def)
  have w: "ag_inv (a, W(ag_next a := []))" using assms(1) by (simp add: ag_inv_def clients_ok_def)
  show ?thesis
  proof (cases "r = Some FLORA_CLI_SUCCESS")
    case True
    with flora_connect_inv s have i: "client_inv [] s" by blast
    have "held a = {}" using assms(2) by (simp add: held_def)
    with True b w fc i show ?thesis
      by (auto simp: ag_inv_def clients_ok_def accounted_def held_def agent_joined_def less_Suc_eq)
  next
    case False
    show ?thesis
    proof (cases r)
      case (Some c)
      with False b w fc assms(2) show ?thesis
        by (auto simp: ag_inv_def clients_ok_def accounted_def held_def agent_joined_def)
    qed (use b w in simp)
  qed
qed

text \<open>Collecting garbage is closing the pool; nothing is ever taken out of the list.\<close>

lemma clean_gabages_pool:
  "clean_gabages E others ks a =
   map_option (\<lambda>p. (ks, a\<lparr>ag_clients := p\<rparr>))
     (iterate (\<lambda>k p. map_option (\<lambda>s. p(k := s)) (close_client E (p k))) ks (ag_clients a))"
proof (induction ks arbitrary: a)
  case (Cons k ks)
  show ?case
  proof (cases "client_close E False False (ag_clients a k)")
    case None
    then show ?thesis by (simp add: with_cli_def close_client_def)
  next
    case (Some x)
    obtain r t where "x = (r, t)" by fastforce
    with Some Cons.IH [of "a\<lparr>ag_clients := (ag_clients a)(k := t)\<rparr>"] show ?thesis
      by (simp add: with_cli_def close_client_def option.map_comp comp_def del: fun_upd_apply)
  qed
qed simp

lemma run_clean_inv:
  assumes "ag_inv (a, W)" and "run_point a = RunClean"
  obtains b where "run_clean E others a = Some b" "ag_inv (b, W)" "run_point b = (if ag_working a then RunConnect else RunEnd)"
    "\<forall>k<ag_next b. is_closed (ag_clients b k) = Some True" "gabages b = gabages a" "ag_next b = ag_next a"
proof -
  have ok: "\<exists>w. client_inv w (ag_clients a k)" if "k \<in> set (gabages a)" for k
    using assms(1) that by (auto simp: ag_inv_def clients_ok_def accounted_def)
  from pool.close_all [where E = E and ks = "gabages a" and pool = "ag_clients a", OF ok] obtain p where
    p: "iterate (\<lambda>k p. map_option (\<lambda>s. p(k := s)) (close_client E (p k))) (gabages a) (ag_clients a) = Some p"
      "\<forall>k\<in>set (gabages a). (\<exists>w. client_inv w (p k)) \<and> is_closed (p k) = Some True"
      "\<forall>k. k \<notin> set (gabages a) \<longrightarrow> p k = ag_clients a k" by blast
  let ?b = "a\<lparr>ag_clients := p, run_point := if ag_working a then RunConnect else RunEnd\<rparr>"
  have b: "run_clean E others a = Some ?b" by (simp add: run_clean_def clean_gabages_pool p(1))
  have i: "\<forall>k<ag_next a. client_inv (W k) (p k)"
    by (rule iterate_keeps [where P = "\<lambda>p. \<forall>k<ag_next a. client_inv (W k) (p k)", OF _ p(1)])
      (use assms(1) keeps_client_close [of E False False] in
        \<open>auto simp: ag_inv_def clients_ok_def close_client_def keeps_client_def split: if_splits\<close>)
  have h: "held a = {}" "flora_cli a = None"
    using assms by (cases "flora_cli a"; auto simp: held_def ag_inv_def accounted_def)+
  have cl: "\<forall>k<ag_next a. is_closed (p k) = Some True"
    using assms(1) p(2,3) h(1) unfolding ag_inv_def accounted_def by (metis empty_iff fst_conv)
  have "ag_inv (?b, W)" using assms(1) i cl h
    by (auto simp: ag_inv_def clients_ok_def accounted_def held_def agent_joined_def)
  with b cl that show ?thesis by simp
qed


lemma ag_inv_cl_step:
  assumes "ag_inv (a, W)" and "k < ag_next a" and "cl_step E F (ag_clients a k, W k) (t, w)"
  shows "ag_inv (a\<lparr>ag_clients := (ag_clients a)(k := t)\<rparr>, W(k := w))"
proof -
  have "client_inv (W k) (ag_clients a k)" using assms(1,2) by (simp add: ag_inv_def clients_ok_def)
  with cl_step_inv [OF assms(3)] cl_step_closed [OF assms(3)] show ?thesis by (intro ag_inv_client [OF assms(1)]) simp_all
qed

lemma agent_close_inv:
  assumes "ag_inv (a, W)" and "agent_close E in_cb a = Some b"
  shows "ag_inv (b, W)"
proof (cases "ag_working a")
  case True
  let ?b = "(destroy_client a)\<lparr>ag_working := False, flora_cli := None, post_handlers := [], call_handlers := []\<rparr>"
  have i: "ag_inv (?b, W)" by (rule ag_inv_same [OF assms(1)]) (simp_all add: destroy_client_def)
  show ?thesis
  proof (cases "flora_cli a")
    case None
    with True i assms(2) show ?thesis by (simp add: agent_close_def)
  next
    case (Some k)
    have k: "k < ag_next ?b" using flora_cli_known [OF assms(1) Some] by (simp add: destroy_client_def)
    from Some True assms(2) obtain r c where c: "with_cli k (client_close E in_cb False) ?b = Some (r, c)"
      "b = c \<or> (\<exists>r. with_cli k (client_close E False False) c = Some (r, b))"
      by (auto simp: agent_close_def bind_eq_Some split: if_splits)
    have ic: "ag_inv (c, W)" by (rule ag_inv_with_cli [OF i c(1) keeps_client_close k])
    have kc: "k < ag_next c" using k with_cli_fields(1) [OF c(1)] by simp
    from c(2) ag_inv_with_cli [OF ic _ keeps_client_close kc] ic show ?thesis by blast
  qed
qed (use assms in \<open>simp add: agent_close_def\<close>)

text \<open>Subscribing, declaring and their opposites change the tables of functions and tell the client.\<close>

lemma ag_inv_tables:
  assumes "ag_inv (a, W)"
  shows "ag_inv (a\<lparr>post_handlers := hs\<rparr>, W)" "ag_inv (a\<lparr>call_handlers := hs\<rparr>, W)"
  using ag_inv_same [OF assms] by simp_all

lemma ag_inv_requests:
  assumes "ag_inv (a, W)"
  shows "agent_subscribe E name cb a = Some b \<Longrightarrow> ag_inv (b, W)"
    and "agent_unsubscribe E name a = Some b \<Longrightarrow> ag_inv (b, W)"
    and "agent_declare_method E name cb a = Some b \<Longrightarrow> ag_inv (b, W)"
    and "agent_remove_method E name a = Some b \<Longrightarrow> ag_inv (b, W)"
  using ag_inv_tables [OF assms] assms keeps_client_requests [of E name]
  by (auto simp: agent_subscribe_def agent_unsubscribe_def agent_declare_method_def agent_remove_method_def
      bind_eq_Some Let_def case_prod_unfold split: if_splits option.splits intro: ag_inv_tell)

lemma agent_config_fields:
  assumes "agent_config key ap a = Some b"
  shows "ag_clients b = ag_clients a" "ag_next b = ag_next a" "run_point b = run_point a" "gabages b = gabages a"
    "flora_cli b = flora_cli a"
  using assms by (auto simp: agent_config_def bind_eq_Some Let_def split: if_splits)

lemma agent_upcall_fields:
  "ag_inv (a, W) \<Longrightarrow> ag_inv (snd (agent_upcall u a), W)"
  by (cases u) (simp_all add: agent_disconnected_def ag_inv_destroy)

lemma agent_call_end_inv: "ag_inv (a, W) \<Longrightarrow> ag_inv (snd (agent_call_end r a), W)"
  by (simp add: agent_call_end_def ag_inv_destroy)

text \<open>Calls are steps of the current client.\<close>

lemma agent_post_inv:
  assumes "ag_inv (a, W)" and "agent_post E name msg type a = Some (r, b)"
  shows "ag_inv (b, W)"
proof (cases "flora_cli a")
  case (Some k)
  with assms(2) obtain c where c: "with_cli k (client_post E name msg type) a = Some (r, c)"
    "b = c \<or> b = destroy_client c" by (auto simp: agent_post_def split: if_splits)
  from ag_inv_with_cli [OF assms(1) c(1) keeps_client_requests(5) flora_cli_known [OF assms(1) Some]] c(2)
  show ?thesis by (auto simp: ag_inv_destroy)
qed (use assms in \<open>simp add: agent_post_def\<close>)

lemma agent_call_nb_inv:
  assumes "ag_inv (a, W)" and "flora_cli a = Some k" and "seq_left (ag_clients a k)" and "f \<in> F"
    and "agent_call_nb E name msg target (Some f) timeout a = Some (r, b)"
  shows "ag_inv (b, W)"
proof -
  from assms(2,5) obtain c t where c: "client_call_nb E name msg target (Some f) timeout (ag_clients a k) = Some (c, t)"
    "b = snd (agent_call_end c (a\<lparr>ag_clients := (ag_clients a)(k := t)\<rparr>))"
    by (auto simp: agent_call_nb_def with_cli_def)
  from ag_inv_cl_step [OF assms(1) flora_cli_known [OF assms(1,2)] cl_step.call_nb [OF assms(3,4) c(1)]]
  show ?thesis unfolding c(2) by (intro agent_call_end_inv) simp
qed

lemma agent_call_inv:
  assumes "ag_inv (a, W)" and "flora_cli a = Some k" and "seq_left (ag_clients a k)"
    and "agent_call E in_cb name msg target r timeout a = Some (st, b)"
  shows "st = CallWaiting it \<Longrightarrow> r \<in> live_resps (ag_clients a k) \<Longrightarrow> ag_inv (b, W(k := (it, r) # W k))"
    and "st = CallReturned code \<Longrightarrow> code \<noteq> FLORA_CLI_ECONN \<Longrightarrow> ag_inv (b, W)"
proof -
  from assms(2,4) obtain t where c: "client_call E in_cb name msg target r timeout (ag_clients a k) = Some (st, t)"
    and b: "b = a\<lparr>ag_clients := (ag_clients a)(k := t)\<rparr>" by (auto simp: agent_call_def with_cli_def)
  note step = ag_inv_cl_step [OF assms(1) flora_cli_known [OF assms(1,2)]]
  show "ag_inv (b, W(k := (it, r) # W k))" if "st = CallWaiting it" "r \<in> live_resps (ag_clients a k)"
    unfolding b using that c by (intro step, intro cl_step.call_wait [OF assms(3)]) auto
  show "ag_inv (b, W)" if "st = CallReturned code" "code \<noteq> FLORA_CLI_ECONN"
    using step [OF cl_step.call_fail [OF assms(3), of E in_cb name msg target r timeout code t F "W k"]] that c
    unfolding b by simp
qed

lemma run_point_inv:
  assumes "ag_inv (a, W)"
  shows "agent_joined a \<Longrightarrow> ag_inv (agent_start block a, W)"
    and "run_point a = RunInit k \<Longrightarrow> run_init E k a = Some b \<Longrightarrow> ag_inv (b, W)"
    and "run_point a = RunPublish k \<Longrightarrow> ag_inv (run_publish k a, W)"
    and "ag_inv (run_resume a, W)"
proof -
  show "ag_inv (agent_start block a, W)" if "agent_joined a"
    using assms that by (auto simp: ag_inv_def clients_ok_def accounted_def held_def agent_joined_def agent_start_def)
  show "ag_inv (run_publish k a, W)" if "run_point a = RunPublish k"
    using assms that by (auto simp: ag_inv_def clients_ok_def accounted_def held_def agent_joined_def run_publish_def)
  show "ag_inv (run_resume a, W)"
    using assms by (cases "run_point a")
      (auto simp: ag_inv_def clients_ok_def accounted_def held_def agent_joined_def run_resume_def Let_def)
  show "ag_inv (b, W)" if "run_point a = RunInit k" "run_init E k a = Some b"
  proof -
    from that(2) obtain c where c: "init_cli E k a = Some c" "b = c\<lparr>run_point := RunPublish k\<rparr>" by (auto simp: run_init_def)
    have k: "k < ag_next a" using assms that(1) by (auto simp: ag_inv_def accounted_def held_def)
    from init_cli_inv [OF assms c(1) k] that(1) c(2) show ?thesis
      by (auto simp: ag_inv_def clients_ok_def accounted_def held_def agent_joined_def)
  qed
qed

lemma ag_step_inv: "ag_step E F p q \<Longrightarrow> ag_inv p \<Longrightarrow> ag_inv q"
proof (induction rule: ag_step.induct)
  case (config key ap a b W)
  from agent_config_fields [OF config(1)] show ?case by (intro ag_inv_same [OF config(2)]) simp_all
next
  case (clean a others b W)
  from run_clean_inv [OF clean(3,1), of E others] clean(2) show ?case by (metis option.inject)
qed (auto intro: ag_inv_requests agent_post_inv agent_call_nb_inv agent_call_inv agent_call_end_inv ag_inv_cl_step
    agent_upcall_fields run_point_inv run_connect_inv agent_close_inv)

lemma ag_reachable_inv: "ag_reachable E F p \<Longrightarrow> ag_inv p"
  by (induction rule: ag_reachable.induct) (auto simp: ag_inv_new intro: ag_step_inv)

end
