(* ===== verification/AgentRun.thy ===== *)
theory AgentRun
  imports AgentProps
begin

text \<open>
  What the agent's transition system of \<open>AgentProps\<close> gives: no operation of a reachable agent is
  undefined, a thread that has ended has closed every client, a lost connection is replaced by one on
  which everything is subscribed and declared again; and where a notification is lost.
\<close>

section \<open>Requests on a ready connection\<close>

text \<open>The writes of a connection.\<close>

fun op_written :: "sock_op \<Rightarrow> (u32 \<times> byte list) list" where
  "op_written (OpWrite n bs r) = [(n, bs)]"
| "op_written _ = []"

definition written :: "conn \<Rightarrow> (u32 \<times> byte list) list" where
  "written c = concat (map op_written (conn_io c))"

text \<open>The messages of \<open>init_cli\<close> for a client with these options.\<close>

definition subscribe_msg :: "'c cenv \<Rightarrow> u32 \<Rightarrow> u32 \<Rightarrow> string \<times> nat \<Rightarrow> i32 \<times> byte list" where
  "subscribe_msg E sz fl h = req_serialize_subscribe (ccaps E) (Some (c_str (fst h))) sz fl"

definition declare_msg :: "'c cenv \<Rightarrow> u32 \<Rightarrow> u32 \<Rightarrow> string \<times> nat \<Rightarrow> i32 \<times> byte list" where
  "declare_msg E sz fl h = req_serialize_declare_method (ccaps E) (Some (c_str (fst h))) sz fl"

lemma send_request_written:
  assumes "connection s = Some c" and "sock_ready c"
  obtains r c' where "send_request E m s = Some (r, s\<lparr>connection := Some c'\<rparr>)" "sock_ready c'"
    "written c' = written c @ filter (\<lambda>m. 0 < sint (fst m)) [m]"
proof (cases "0 < sint (fst m)")
  case True
  let ?r = "cwrite E (conn_io c) (fst m) (snd m)"
  have "send_request E m s = Some (case ?r of SysErr e \<Rightarrow> FLORA_CLI_ECONN | SysRet n \<Rightarrow> if n \<noteq> 0 then FLORA_CLI_SUCCESS else FLORA_CLI_ECONN,
      s\<lparr>connection := Some (conn_log (OpWrite (fst m) (snd m) ?r) c)\<rparr>)"
    using True assms by (auto simp: send_request_def send_buffer_def conn_send_def Let_def split: sysret.split)
  from that [OF this] True assms(2) show ?thesis by (simp add: conn_log_def written_def)
next
  case False
  with assms show ?thesis by (intro that [of FLORA_CLI_EINVAL c]) (simp_all add: send_request_def)
qed

text \<open>A loop of the agent over requests of client \<open>k\<close>.\<close>

lemma requests_written:
  assumes "\<And>h s. is_monitor (opt_flags (options s)) = False \<Longrightarrow>
      f h s = send_request E (msg h (bufsize (options s)) (cl_serialize_flags s)) s"
    and "ag_clients a k = s" and "connection s = Some c" and "sock_ready c" and "\<not> is_monitor (opt_flags (options s))"
  shows "\<exists>c'. iterate (\<lambda>h a. map_option snd (with_cli k (f h) a)) hs a =
      Some (a\<lparr>ag_clients := (ag_clients a)(k := s\<lparr>connection := Some c'\<rparr>)\<rparr>) \<and> sock_ready c' \<and>
    written c' = written c @ filter (\<lambda>m. 0 < sint (fst m)) (map (\<lambda>h. msg h (bufsize (options s)) (cl_serialize_flags s)) hs)"
  using assms(2-)
proof (induction hs arbitrary: a s c)
  case Nil
  then have "(ag_clients a)(k := s\<lparr>connection := Some c\<rparr>) = ag_clients a" by auto
  with Nil show ?case by (intro exI [of _ c]) (simp del: fun_upd_apply)
next
  case (Cons h hs)
  let ?m = "msg h (bufsize (options s)) (cl_serialize_flags s)"
  from send_request_written [OF Cons.prems(2,3)] obtain r d where
    d: "send_request E ?m s = Some (r, s\<lparr>connection := Some d\<rparr>)" "sock_ready d"
      "written d = written c @ filter (\<lambda>m. 0 < sint (fst m)) [?m]" by blast
  let ?s = "s\<lparr>connection := Some d\<rparr>"
  let ?a = "a\<lparr>ag_clients := (ag_clients a)(k := ?s)\<rparr>"
  have w: "with_cli k (f h) a = Some (r, ?a)"
    using assms(1) [of s h] Cons.prems(1,4) d(1) by (simp add: with_cli_def)
  have a: "ag_clients ?a k = ?s" "connection ?s = Some d" "\<not> is_monitor (opt_flags (options ?s))" using Cons.prems(4) by simp_all
  from Cons.IH [OF a(1,2) d(2) a(3)] obtain e where
    "iterate (\<lambda>h a. map_option snd (with_cli k (f h) a)) hs ?a =
        Some (?a\<lparr>ag_clients := (ag_clients ?a)(k := ?s\<lparr>connection := Some e\<rparr>)\<rparr>)"
    and e: "sock_ready e"
      "written e = written d @ filter (\<lambda>m. 0 < sint (fst m)) (map (\<lambda>h. msg h (bufsize (options s)) (cl_serialize_flags s)) hs)"
    by (auto simp del: fun_upd_apply)
  moreover have "(ag_clients ?a)(k := ?s\<lparr>connection := Some e\<rparr>) = (ag_clients a)(k := s\<lparr>connection := Some e\<rparr>)" by simp
  ultimately have "iterate (\<lambda>h a. map_option snd (with_cli k (f h) a)) (h # hs) a =
      Some (a\<lparr>ag_clients := (ag_clients a)(k := s\<lparr>connection := Some e\<rparr>)\<rparr>)" using w by simp
  then show ?case by (intro exI [of _ e]) (use e d(3) in \<open>simp del: fun_upd_apply\<close>)
qed

lemma init_cli_written:
  assumes "ag_clients a k = s" and "connection s = Some c" and "sock_ready c" and "\<not> is_monitor (opt_flags (options s))"
  shows "\<exists>c'. init_cli E k a = Some (a\<lparr>ag_clients := (ag_clients a)(k := s\<lparr>connection := Some c'\<rparr>)\<rparr>) \<and>
    sock_ready c' \<and>
    written c' = written c @ filter (\<lambda>m. 0 < sint (fst m))
      (map (subscribe_msg E (bufsize (options s)) (cl_serialize_flags s)) (post_handlers a) @
       map (declare_msg E (bufsize (options s)) (cl_serialize_flags s)) (call_handlers a))"
proof -
  have f: "client_subscribe E (Some (c_str (fst h))) s = send_request E (subscribe_msg E (bufsize (options s)) (cl_serialize_flags s) h) s"
      "client_declare_method E (Some (c_str (fst h))) s = send_request E (declare_msg E (bufsize (options s)) (cl_serialize_flags s) h) s"
    if "is_monitor (opt_flags (options s)) = False" for h :: "string \<times> nat" and s :: "'a client"
    using that by (simp_all add: client_subscribe_def client_declare_method_def subscribe_msg_def declare_msg_def)
  let ?sz = "bufsize (options s)" and ?fl = "cl_serialize_flags s"
  from requests_written [where f = "\<lambda>h. client_subscribe E (Some (c_str (fst h)))" and msg = "\<lambda>h sz fl. subscribe_msg E sz fl h" and E = E and hs = "post_handlers a", OF f(1) assms]
  obtain d where d: "iterate (\<lambda>h a. map_option snd (with_cli k (client_subscribe E (Some (c_str (fst h)))) a)) (post_handlers a) a =
      Some (a\<lparr>ag_clients := (ag_clients a)(k := s\<lparr>connection := Some d\<rparr>)\<rparr>)" "sock_ready d"
    "written d = written c @ filter (\<lambda>m. 0 < sint (fst m)) (map (\<lambda>h. subscribe_msg E ?sz ?fl h) (post_handlers a))" by blast
  let ?a = "a\<lparr>ag_clients := (ag_clients a)(k := s\<lparr>connection := Some d\<rparr>)\<rparr>"
  from requests_written [where f = "\<lambda>h. client_declare_method E (Some (c_str (fst h)))" and msg = "\<lambda>h sz fl. declare_msg E sz fl h" and E = E
      and hs = "call_handlers a" and a = ?a and s = "s\<lparr>connection := Some d\<rparr>" and k = k and c = d, OF f(2)] d(2) assms(4)
  obtain e where e: "iterate (\<lambda>h a. map_option snd (with_cli k (client_declare_method E (Some (c_str (fst h)))) a)) (call_handlers a) ?a =
      Some (a\<lparr>ag_clients := (ag_clients a)(k := s\<lparr>connection := Some e\<rparr>)\<rparr>)" "sock_ready e"
    "written e = written d @ filter (\<lambda>m. 0 < sint (fst m)) (map (\<lambda>h. declare_msg E ?sz ?fl h) (call_handlers a))" by auto
  show ?thesis by (intro exI [of _ e]) (use d e in \<open>simp add: init_cli_def\<close>)
qed

section \<open>Operations are defined\<close>

definition defined_client :: "('c client \<Rightarrow> ('r \<times> 'c client) option) \<Rightarrow> bool" where
  "defined_client f \<longleftrightarrow> (\<forall>w s. client_inv w s \<longrightarrow> (\<exists>r t. f s = Some (r, t)))"

lemma defined_clientI:
  fixes f :: "'c client \<Rightarrow> (i32 \<times> 'c client) option"
  assumes "\<And>s. (\<exists>r. f s = Some (r, s)) \<or> (\<exists>m. f s = send_request E m s)"
  shows "defined_client f"
  unfolding defined_client_def
proof (intro allI impI)
  fix w and s :: "'c client" assume "client_inv w s"
  then obtain c where c: "connection s = Some c" by (rule client_invE)
  have "\<exists>r t. send_request E m s = Some (r, t)" for m
    using c by (cases "conn_send (cwrite E) (fst m) (snd m) c") (simp add: send_request_def send_buffer_def)
  with assms [of s] show "\<exists>r t. f s = Some (r, t)" by metis
qed

lemma defined_client_requests:
  "defined_client (client_subscribe E name)" "defined_client (client_unsubscribe E name)"
  "defined_client (client_declare_method E name)" "defined_client (client_remove_method E name)"
  "defined_client (client_post E name msg type)"
  unfolding client_subscribe_def client_unsubscribe_def client_declare_method_def client_remove_method_def client_post_def
  by (rule defined_clientI [where E = E], metis)+

lemma defined_client_calls:
  "defined_client (client_call E in_cb name msg target r timeout)" "defined_client (client_call_nb E name msg target f timeout)"
  by (auto simp: defined_client_def client_call_def client_call_nb_def send_buffer_def add_pending_def Let_def
      elim!: client_invE split: option.split prod.split)

lemma defined_client_close: "defined_client (client_close E in_cb b)"
proof (cases in_cb)
  case False
  with client_close_inv show ?thesis unfolding defined_client_def by metis
qed (simp add: defined_client_def client_close_def)

lemma with_cli_defined:
  assumes "ag_inv (a, W)" and "k < ag_next a" and "defined_client f"
  obtains r b where "with_cli k f a = Some (r, b)"
proof -
  from assms(1,2) have "client_inv (W k) (ag_clients a k)" by (simp add: ag_inv_def clients_ok_def)
  with assms(3) obtain r t where "f (ag_clients a k) = Some (r, t)" unfolding defined_client_def by blast
  then show ?thesis using that by (simp add: with_cli_def)
qed

lemma tell_cli_defined:
  assumes "ag_inv (a, W)" and "defined_client f"
  shows "\<exists>b. tell_cli f a = Some b"
proof (cases "flora_cli a")
  case (Some k)
  from with_cli_defined [OF assms(1) flora_cli_known [OF assms(1) Some] assms(2)] obtain r b where
    "with_cli k f a = Some (r, b)" .
  with Some show ?thesis by (simp add: tell_cli_def)
qed (simp add: tell_cli_def)

lemma agent_calls_defined:
  assumes "ag_inv (a, W)"
  shows "\<exists>st b. agent_call E in_cb name msg target r timeout a = Some (st, b)"
    and "\<exists>c b. agent_call_nb E name msg target f timeout a = Some (c, b)"
proof -
  note known = with_cli_defined [OF assms flora_cli_known [OF assms]]
  have 1: "\<exists>st b. with_cli k (client_call E in_cb name msg target r timeout) a = Some (st, b)"
    and 2: "\<exists>c b. with_cli k (client_call_nb E name msg target f timeout) a = Some (c, b)" if "flora_cli a = Some k" for k
    by (rule known [OF that defined_client_calls(1)], blast) (rule known [OF that defined_client_calls(2)], blast)
  show "\<exists>st b. agent_call E in_cb name msg target r timeout a = Some (st, b)"
    using 1 by (cases "flora_cli a") (simp_all add: agent_call_def)
  show "\<exists>c b. agent_call_nb E name msg target f timeout a = Some (c, b)"
    using 2 by (cases "flora_cli a") (auto simp: agent_call_nb_def agent_call_end_def)
qed

lemma iterate_defined:
  assumes "\<And>x a. x \<in> set xs \<Longrightarrow> P a \<Longrightarrow> \<exists>b. f x a = Some b \<and> P b" and "P a"
  shows "\<exists>b. iterate f xs a = Some b \<and> P b"
  using assms
proof (induction xs arbitrary: a)
  case (Cons x xs)
  from Cons.prems obtain b where "f x a = Some b" "P b" by auto
  with Cons.IH [of b] Cons.prems(1) show ?case by auto
qed simp

lemma init_cli_defined:
  assumes "ag_inv (a, W)" and "k < ag_next a"
  shows "\<exists>b. init_cli E k a = Some b"
proof -
  let ?P = "\<lambda>b. ag_inv (b, W) \<and> k < ag_next b"
  have step: "\<exists>d. map_option snd (with_cli k f c) = Some d \<and> ?P d"
    if "?P c" "defined_client f" "keeps_client f" for c and f :: "'a client \<Rightarrow> (i32 \<times> 'a client) option"
  proof -
    from that(1) have i: "ag_inv (c, W)" "k < ag_next c" by simp_all
    from with_cli_defined [OF i that(2)] obtain r d where d: "with_cli k f c = Some (r, d)" .
    from ag_inv_with_cli [OF i(1) d that(3) i(2)] with_cli_fields(1) [OF d] i(2) d show ?thesis by simp
  qed
  have "\<exists>c. iterate (\<lambda>h a. map_option snd (with_cli k (client_subscribe E (Some (c_str (fst h)))) a)) (post_handlers a) a = Some c \<and> ?P c"
    by (rule iterate_defined [where P = ?P]) (use step [OF _ defined_client_requests(1) keeps_client_requests(1)] assms in simp_all)
  then obtain c where c: "iterate (\<lambda>h a. map_option snd (with_cli k (client_subscribe E (Some (c_str (fst h)))) a)) (post_handlers a) a = Some c" "?P c"
    by blast
  have "\<exists>b. iterate (\<lambda>h a. map_option snd (with_cli k (client_declare_method E (Some (c_str (fst h)))) a)) (call_handlers c) c = Some b \<and> ?P b"
    by (rule iterate_defined [where P = ?P]) (use step [OF _ defined_client_requests(3) keeps_client_requests(3)] c(2) in simp_all)
  with c(1) show ?thesis by (auto simp: init_cli_def)
qed

lemma agent_close_defined:
  assumes "ag_inv (a, W)"
  shows "\<exists>b. agent_close E in_cb a = Some b"
proof -
  let ?b = "(destroy_client a)\<lparr>ag_working := False, flora_cli := None, post_handlers := [], call_handlers := []\<rparr>"
  have i: "ag_inv (?b, W)" by (rule ag_inv_same [OF assms]) (simp_all add: destroy_client_def)
  show ?thesis
  proof (cases "flora_cli a")
    case (Some k)
    have k: "k < ag_next ?b" using flora_cli_known [OF assms Some] by (simp add: destroy_client_def)
    from with_cli_defined [OF i k defined_client_close] obtain r c where
      c: "with_cli k (client_close E in_cb False) ?b = Some (r, c)" .
    have ic: "ag_inv (c, W)" by (rule ag_inv_with_cli [OF i c keeps_client_close k])
    have kc: "k < ag_next c" using k with_cli_fields(1) [OF c] by simp
    from with_cli_defined [OF ic kc defined_client_close] obtain r' d where
      "with_cli k (client_close E False False) c = Some (r', d)" .
    with Some c show ?thesis by (simp add: agent_close_def)
  qed (simp add: agent_close_def)
qed

section \<open>Properties\<close>


text \<open>C14: When the agent's thread has returned, every client it ever connected is closed; and while it
  runs, every client is closed, or is the one it is about to publish, or is in the list it closes before
  it connects again. A client the application can reach through the agent is one of that list.\<close>

theorem agent_closes_clients:
  assumes "ag_reachable E F (a, W)"
  shows "(run_point a = RunEnd \<longrightarrow> (\<forall>k<ag_next a. is_closed (ag_clients a k) = Some True) \<and> flora_cli a = None) \<and>
    (\<forall>k<ag_next a. is_closed (ag_clients a k) = Some True \<or> run_point a = RunInit k \<or> run_point a = RunPublish k \<or>
       k \<in> set (gabages a)) \<and>
    (\<forall>k. flora_cli a = Some k \<longrightarrow> k \<in> set (gabages a) \<and> k < ag_next a)"
proof -
  from assms have i: "accounted a" using ag_reachable_inv by (force simp: ag_inv_def)
  have "flora_cli a = None" if "run_point a = RunEnd" using i that by (cases "flora_cli a") (auto simp: accounted_def)
  moreover have "k \<in> held a \<longleftrightarrow> run_point a = RunInit k \<or> run_point a = RunPublish k" for k
    by (auto simp: held_def split: run_point.splits)
  ultimately show ?thesis using i unfolding accounted_def agent_joined_def by blast
qed


text \<open>What the requests leave in the tables of functions.\<close>

lemma tell_cli_tables:
  assumes "tell_cli f a = Some b"
  shows "post_handlers b = post_handlers a" "call_handlers b = call_handlers a"
  using assms by (auto simp: tell_cli_def with_cli_def split: option.splits)

lemma agent_tables:
  "agent_subscribe E (Some n) cb a = Some b \<Longrightarrow>
     post_handlers b = fst (map_insert n cb (post_handlers a)) \<and> call_handlers b = call_handlers a"
  "agent_unsubscribe E (Some n) a = Some b \<Longrightarrow>
     post_handlers b = map_erase n (post_handlers a) \<and> call_handlers b = call_handlers a"
  "agent_declare_method E (Some n) cb a = Some b \<Longrightarrow>
     call_handlers b = fst (map_insert n cb (call_handlers a)) \<and> post_handlers b = post_handlers a"
  "agent_remove_method E (Some n) a = Some b \<Longrightarrow>
     call_handlers b = map_erase n (call_handlers a) \<and> post_handlers b = post_handlers a"
  by (auto simp: agent_subscribe_def agent_unsubscribe_def agent_declare_method_def agent_remove_method_def
      case_prod_unfold Let_def map_erase_absent dest: tell_cli_tables split: if_splits option.splits)

lemma agent_close_tables:
  assumes "ag_working a" and "agent_close E in_cb a = Some b"
  shows "post_handlers b = [] \<and> call_handlers b = [] \<and> flora_cli b = None \<and> \<not> ag_working b"
proof (cases "flora_cli a")
  case (Some k)
  let ?b = "(destroy_client a)\<lparr>ag_working := False, flora_cli := None, post_handlers := [], call_handlers := []\<rparr>"
  from Some assms obtain r c where c: "with_cli k (client_close E in_cb False) ?b = Some (r, c)"
    "b = c \<or> (\<exists>r. with_cli k (client_close E False False) c = Some (r, b))"
    by (auto simp: agent_close_def bind_eq_Some split: if_splits)
  from with_cli_fields [OF c(1)] c(2) with_cli_fields [of k _ c _ b] show ?thesis by auto
qed (use assms in \<open>auto simp: agent_close_def\<close>)

lemma find_insert: "map_of (fst (map_insert n cb hs)) m = (if m = n \<and> map_of hs m = None then Some cb else map_of hs m)"
  by (cases "map_of hs n") (auto simp: map_insert_def smap_simps)

text \<open>C28: The agent hands each message to the function registered first. After a subscription a post
  of that name goes to the function that was given, unless the name already had one, which it keeps;
  after unsubscribing it goes to none; posts of other names and all calls go where they went before.
  Declaring and removing a method do the same for calls. After closing a working agent no message
  goes anywhere.\<close>

theorem agent_handlers_dispatch:
  fixes msg :: "'c option" and rp :: "'c reply_impl"
    and ty :: u32 and tg :: u64 and sd :: string
  defines "goes \<equiv> \<lambda>u (a :: 'c agent). fst (agent_upcall u a)"
  defines "pst \<equiv> \<lambda>m. UpPost m ty msg tg sd" and "cll \<equiv> \<lambda>m. UpCall m msg tg sd rp"
  shows "(agent_subscribe E (Some n) cb a = Some b \<longrightarrow>
       goes (pst m) b = (if m = n \<and> goes (pst m) a = None then Some (HandlePost cb m msg ty) else goes (pst m) a) \<and>
       goes (cll m) b = goes (cll m) a) \<and>
     (agent_unsubscribe E (Some n) a = Some b \<longrightarrow>
       goes (pst m) b = (if m = n then None else goes (pst m) a) \<and> goes (cll m) b = goes (cll m) a) \<and>
     (agent_declare_method E (Some n) cb a = Some b \<longrightarrow>
       goes (cll m) b = (if m = n \<and> goes (cll m) a = None then Some (HandleCall cb m msg rp) else goes (cll m) a) \<and>
       goes (pst m) b = goes (pst m) a) \<and>
     (agent_remove_method E (Some n) a = Some b \<longrightarrow>
       goes (cll m) b = (if m = n then None else goes (cll m) a) \<and> goes (pst m) b = goes (pst m) a) \<and>
     (ag_working a \<and> agent_close E in_cb a = Some b \<longrightarrow> goes (pst m) b = None \<and> goes (cll m) b = None)"
  using agent_tables(1,3) [of E n cb a b] agent_tables(2,4) [of E n a b] agent_close_tables [of a E in_cb b]
  by (auto simp: goes_def pst_def cll_def agent_recv_post_def agent_recv_call_def find_insert smap_simps)


text \<open>A disconnection while the agent subscribes is missed as well: the thread goes on to wait, with
  no notification, on a client whose connection is closed. Nothing wakes it but a message the
  application tries to send, which fails with the connection error.\<close>

lemma early_disconnect_missed:
  assumes "run_point a = RunPublish k" and "is_closed (ag_clients a k) = Some True"
    and "\<not> is_monitor (opt_flags (options (ag_clients a k)))" and "is_valid_msgtype type"
    and "0 < sint (fst (req_serialize_post (ccaps E) (Some n) type msg (bufsize (options (ag_clients a k)))
           (cl_serialize_flags (ag_clients a k))))"
  defines "e \<equiv> run_publish k (snd (agent_upcall UpDisconnected a))"
  shows "run_point e = RunWait \<and> \<not> ag_notified e \<and> flora_cli e = Some k \<and>
    (\<exists>e'. agent_post E (Some n) msg type e = Some (FLORA_CLI_ECONN, e') \<and> ag_notified e')"
proof -
  from assms(2) obtain c where c: "connection (ag_clients a k) = Some c" "\<not> sock_ready c"
    by (auto simp: is_closed_def conn_closed_def)
  have e: "run_point e = RunWait" "\<not> ag_notified e" "flora_cli e = Some k" "ag_clients e = ag_clients a"
    using assms(1) by (simp_all add: e_def run_publish_def agent_disconnected_def destroy_client_def)
  have "(ag_clients a)(k := ag_clients a k\<lparr>connection := Some c\<rparr>) = ag_clients a" using c(1) by auto
  then have "client_post E (Some n) msg type (ag_clients e k) = Some (FLORA_CLI_ECONN, ag_clients e k)"
    using assms(3-5) c e(4) by (simp add: client_post_def send_request_def send_buffer_def conn_send_def)
  with e show ?thesis by (simp add: agent_post_def with_cli_def destroy_client_def)
qed

end
