(* ===== verification/AgentDemo.thy ===== *)
theory AgentDemo
  imports AgentRun ClientDemo
begin

text \<open>
  Concrete inputs for the agent's theorems: an agent with one function for posts and one for calls,
  started and connected with the sample service of \<open>ClientDemo\<close>, and the witnesses.
\<close>

section \<open>An agent\<close>

definition ademo_new :: "lite agent" where
  "ademo_new = new_Agent\<lparr>ag_options := (ag_options (new_Agent :: lite agent))\<lparr>ao_uri := ''unix:s#a''\<rparr>, post_handlers := [(''t'', 1)],
     call_handlers := [(''m'', 2)]\<rparr>"

definition ademo_conn :: "lite agent" where
  "ademo_conn = (agent_start False ademo_new)\<lparr>ag_clients := (ag_clients ademo_new)(0 := cdemo), ag_next := 1, run_point := RunInit 0\<rparr>"

definition ademo_init :: "lite agent" where
  "ademo_init = the (run_init cdemo_env 0 ademo_conn)"

lemma ademo_new_reachable: "ag_reachable cdemo_env {} (ademo_new, \<lambda>_. [])"
proof -
  let ?a = "new_Agent\<lparr>ag_options := (ag_options (new_Agent :: lite agent))\<lparr>ao_uri := ''unix:s#a''\<rparr>\<rparr> :: lite agent"
  have n: "flora_cli (new_Agent :: lite agent) = None" "post_handlers (new_Agent :: lite agent) = []"
    "call_handlers (new_Agent :: lite agent) = []" by (simp_all add: new_Agent_def)
  have "agent_config FLORA_AGENT_CONFIG_URI [VaStr ''unix:s#a''] (new_Agent :: lite agent) = Some ?a"
    by (simp add: agent_config_def)
  from ag_reachable.step [OF ag_reachable.new ag_step.config [OF this]]
  have 1: "ag_reachable cdemo_env {} (?a, \<lambda>_. [])" .
  have "agent_subscribe cdemo_env (Some ''t'') 1 ?a = Some (?a\<lparr>post_handlers := [(''t'', 1)]\<rparr>)"
    using n by (simp add: agent_subscribe_def map_insert_def tell_cli_def)
  from ag_reachable.step [OF 1 ag_step.subscribe [OF this]]
  have 2: "ag_reachable cdemo_env {} (?a\<lparr>post_handlers := [(''t'', 1)]\<rparr>, \<lambda>_. [])" .
  have "agent_declare_method cdemo_env (Some ''m'') 2 (?a\<lparr>post_handlers := [(''t'', 1)]\<rparr>) = Some ademo_new"
    using n by (simp add: agent_declare_method_def map_insert_def tell_cli_def ademo_new_def)
  from ag_reachable.step [OF 2 ag_step.declare_method [OF this]] show ?thesis .
qed

lemma ademo_options: "connect_options (Some (run_opts (agent_start False ademo_new))) = connect_options None"
  by (simp add: agent_start_def ademo_new_def new_Agent_def connect_options_def default_options_def flora_consts)

lemma ademo_connects:
  "flora_Client_connect cdemo_env cdemo_net (Some (c_str (ao_uri (ag_options (agent_start False ademo_new))))) True
     (ao_mon_callback (ag_options (agent_start False ademo_new))) (Some (run_opts (agent_start False ademo_new))) [[RoData (cframe 0)]] =
   Some (Some FLORA_CLI_SUCCESS, cdemo)"
proof (rule cdemo_state)
  assume "flora_Client_connect cdemo_env cdemo_net (Some ''unix:s#a'') True False None [[RoData (cframe 0)]] =
     Some (Some FLORA_CLI_SUCCESS, cdemo)"
  moreover have "c_str ''unix:s#a'' = ''unix:s#a''" by (simp add: c_str_def)
  moreover have "ao_uri (ag_options (agent_start False ademo_new)) = ''unix:s#a''"
    "\<not> ao_mon_callback (ag_options (agent_start False ademo_new))"
    by (simp_all add: agent_start_def ademo_new_def new_Agent_def)
  ultimately show ?thesis using ademo_options by (simp add: flora_Client_connect_def)
qed

lemma ademo_conn_reachable: "ag_reachable cdemo_env {} (ademo_conn, \<lambda>_. [])"
proof -
  let ?a = "agent_start False ademo_new"
  have j: "agent_joined ademo_new" by (simp add: agent_joined_def ademo_new_def new_Agent_def)
  have n: "ag_next ?a = 0" "ag_clients ?a = ag_clients ademo_new"
    by (simp_all add: agent_start_def ademo_new_def new_Agent_def)
  have "run_connect cdemo_env cdemo_net [[RoData (cframe 0)]] ?a = Some ademo_conn"
    using ademo_connects n by (simp add: run_connect_def ademo_conn_def)
  from ag_reachable.step [OF ag_reachable.step [OF ademo_new_reachable ag_step.start [OF j]] ag_step.connect [OF _ this]] n(1)
  show ?thesis by (simp add: agent_start_def fun_upd_idem)
qed

lemma ademo_init_state:
  obtains c where "run_init cdemo_env 0 ademo_conn = Some ademo_init" "connection (ag_clients ademo_init 0) = Some c"
    "sock_ready c" "run_point ademo_init = RunPublish 0" "ag_working ademo_init" "ag_next ademo_init = 1"
    "options (ag_clients ademo_init 0) = copts" "cl_serialize_flags (ag_clients ademo_init 0) = 0"
    "ag_options ademo_init = ag_options (agent_start False ademo_new)" "run_opts ademo_init = run_opts (agent_start False ademo_new)"
    "post_handlers ademo_init = [(''t'', 1)]" "call_handlers ademo_init = [(''m'', 2)]" "gabages ademo_init = []"
proof (rule cdemo_state)
  fix c assume c: "connection cdemo = Some c" "sock_ready c" "options cdemo = copts" "cl_serialize_flags cdemo = 0"
  have "ag_clients ademo_conn 0 = cdemo" "\<not> is_monitor (opt_flags (options cdemo))"
    using c copts_fields by (simp_all add: ademo_conn_def is_monitor_def flora_consts)
  from init_cli_written [OF this(1) c(1,2) this(2), of cdemo_env] obtain d where
    d: "init_cli cdemo_env 0 ademo_conn = Some (ademo_conn\<lparr>ag_clients := (ag_clients ademo_conn)(0 := cdemo\<lparr>connection := Some d\<rparr>)\<rparr>)"
      "sock_ready d" by blast
  then have i: "run_init cdemo_env 0 ademo_conn =
      Some (ademo_conn\<lparr>ag_clients := (ag_clients ademo_conn)(0 := cdemo\<lparr>connection := Some d\<rparr>), run_point := RunPublish 0\<rparr>)"
    by (simp add: run_init_def)
  then show ?thesis using that [of d] d(2) c by (simp add: ademo_init_def ademo_conn_def agent_start_def ademo_new_def)
qed

lemma ademo_init_reachable: "ag_reachable cdemo_env {} (ademo_init, \<lambda>_. [])"
  by (rule ademo_init_state, rule ag_reachable.step [OF ademo_conn_reachable ag_step.init [of _ 0]])
    (simp_all add: ademo_conn_def)

definition ademo_wait :: "lite agent" where
  "ademo_wait = run_publish 0 ademo_init"

lemma ademo_wait_reachable: "ag_reachable cdemo_env {} (ademo_wait, \<lambda>_. [])"
  unfolding ademo_wait_def
  by (rule ademo_init_state, rule ag_reachable.step [OF ademo_init_reachable ag_step.publish])

lemma ademo_wait_state:
  obtains "run_point ademo_wait = RunWait" "ag_working ademo_wait" "ag_next ademo_wait = 1" "flora_cli ademo_wait = Some 0"
    "post_handlers ademo_wait = [(''t'', 1)]" "call_handlers ademo_wait = [(''m'', 2)]" "gabages ademo_wait = [0]"
    "ag_options ademo_wait = ag_options (agent_start False ademo_new)" "run_opts ademo_wait = run_opts (agent_start False ademo_new)"
  by (rule ademo_init_state) (simp add: ademo_wait_def run_publish_def)

text \<open>The agent is closed, and its thread ends.\<close>

lemma agent_close_point:
  assumes "agent_close E in_cb a = Some b"
  shows "run_point b = run_point a" "ag_next b = ag_next a"
proof -
  have w: "run_point d = run_point c \<and> ag_next d = ag_next c" if "with_cli k f c = Some (r, d)"
    for k r and c d :: "'a agent" and f :: "'a client \<Rightarrow> (i32 \<times> 'a client) option"
    using with_cli_fields(1,2) [OF that] by simp
  show "run_point b = run_point a" "ag_next b = ag_next a"
    using assms by (auto simp: agent_close_def bind_eq_Some destroy_client_def Let_def dest!: w
      split: if_splits option.splits)
qed

lemma ademo_ends:
  obtains a where "ag_reachable cdemo_env {} (a, \<lambda>_. [])" "run_point a = RunEnd" "ag_next a = 1"
proof -
  note i = ag_reachable_inv [OF ademo_wait_reachable]
  from agent_close_defined [OF i, of cdemo_env False] obtain b where b: "agent_close cdemo_env False ademo_wait = Some b" by blast
  have nb: "\<not> ag_working b" "run_point b = RunWait" "ag_next b = 1"
    by (rule ademo_wait_state, use agent_close_tables [OF _ b] agent_close_point [OF b] in simp)+
  have r: "ag_reachable cdemo_env {} (run_resume b, \<lambda>_. [])"
    by (rule ag_reachable.step [OF ag_reachable.step [OF ademo_wait_reachable ag_step.close [OF b]] ag_step.resume])
  have p: "run_point (run_resume b) = RunClean" "\<not> ag_working (run_resume b)" "ag_next (run_resume b) = 1"
    using nb by (simp_all add: run_resume_def)
  from run_clean_inv [OF ag_reachable_inv [OF r] p(1), of cdemo_env "\<lambda>_. 0"] p(2,3) obtain c where
    c: "run_clean cdemo_env (\<lambda>_. 0) (run_resume b) = Some c" "run_point c = RunEnd" "ag_next c = 1" by auto
  from that [OF ag_reachable.step [OF r ag_step.clean [OF p(1) c(1)]] c(2,3)] show ?thesis .
qed

section \<open>Witnesses\<close>


theorem agent_closes_clients_witness:
  "\<exists>a :: lite agent. run_point a = RunEnd \<and> ag_next a = 1 \<and> is_closed (ag_clients a 0) = Some True \<and> flora_cli a = None"
proof (rule ademo_ends)
  fix a :: "lite agent" assume a: "ag_reachable cdemo_env {} (a, \<lambda>_. [])" "run_point a = RunEnd" "ag_next a = 1"
  with agent_closes_clients [OF a(1)] show ?thesis by auto
qed


theorem agent_handlers_dispatch_witness:
  "\<exists>b. agent_subscribe cdemo_env (Some ''x'') 5 ademo_new = Some b \<and>
     fst (agent_upcall (UpPost ''x'' 0 None 7 ''b'') b) = Some (HandlePost 5 ''x'' None 0)"
proof -
  have n: "flora_cli ademo_new = None" "post_handlers ademo_new = [(''t'', 1)]" by (simp_all add: ademo_new_def new_Agent_def)
  then obtain b where b: "agent_subscribe cdemo_env (Some ''x'') 5 ademo_new = Some b"
    by (auto simp: agent_subscribe_def tell_cli_def map_insert_def)
  with agent_handlers_dispatch [of cdemo_env "''x''" 5 ademo_new b "''x''" 0 None 7 "''b''"] n show ?thesis
    by (auto simp: agent_recv_post_def)
qed


definition ademo_lost :: "lite agent" where
  "ademo_lost = ademo_init\<lparr>ag_clients := (ag_clients ademo_init)
     (0 := (ag_clients ademo_init 0)\<lparr>connection := map_option conn_close (connection (ag_clients ademo_init 0))\<rparr>)\<rparr>"

lemma early_disconnect_missed_witness:
  "run_point (run_publish 0 (snd (agent_upcall UpDisconnected ademo_lost))) = RunWait \<and>
   \<not> ag_notified (run_publish 0 (snd (agent_upcall UpDisconnected ademo_lost)))"
proof (rule ademo_init_state)
  fix c assume c: "connection (ag_clients ademo_init 0) = Some c" "run_point ademo_init = RunPublish 0"
    "options (ag_clients ademo_init 0) = copts" "cl_serialize_flags (ag_clients ademo_init 0) = 0"
  have l: "run_point ademo_lost = RunPublish 0" "is_closed (ag_clients ademo_lost 0) = Some True"
    "options (ag_clients ademo_lost 0) = copts" "cl_serialize_flags (ag_clients ademo_lost 0) = 0"
    using c by (simp_all add: ademo_lost_def is_closed_def)
  show ?thesis
    using early_disconnect_missed [OF l(1,2), of 0 cdemo_env "''t''" None] l(3,4) copts_fields
    by (simp add: is_monitor_def is_valid_msgtype_def flora_consts cdemo_env_def lite_ops_def ser_defs ser_check_def)
qed

end
