(* ===== verification/MonitorTool.thy ===== *)
theory MonitorTool
  imports Agent
begin

text \<open>
  The monitor (\<open>monitor/main.cc\<close>): a program that shows the clients of the service on a terminal. Its
  \<open>MonitorView\<close> is the \<open>MonitorCallback\<close> of an agent. The terminal is the text passed to \<open>printw\<close> since
  the last \<open>clear\<close>; \<open>None\<close> is an access outside an array. Options are parsed by a library outside the
  sources and left out.
\<close>

section \<open>State\<close>

definition COLUMN_WIDTH :: "u32 list" where "COLUMN_WIDTH = [8, 32]"
definition COLUMN_PAD :: u32 where "COLUMN_PAD = 1"
definition COLUMN_HEADER_TEXT :: "string list" where "COLUMN_HEADER_TEXT = [''PID'', ''NAME'']"

record flora_client_info =
  fc_id :: u32
  fc_pid :: i32
  fc_name :: string
  fc_flags :: u32

text \<open>\<open>textBuffer\<close> is the static array of 64 characters.\<close>

record monitor_view =
  floraClients :: "flora_client_info list"
  textBuffer :: string
  screen :: string

definition new_MonitorView :: monitor_view where
  "new_MonitorView = \<lparr>floraClients = [], textBuffer = replicate 64 (CHR 0x00), screen = []\<rparr>"

section \<open>Printing\<close>

definition buf_set :: "nat \<Rightarrow> string \<Rightarrow> string \<Rightarrow> string option" where
  "buf_set i xs b = (if i + length xs \<le> length b then Some (take i b @ xs @ drop (i + length xs) b) else None)"

definition printw :: "string \<Rightarrow> monitor_view \<Rightarrow> monitor_view" where
  "printw x v = v\<lparr>screen := screen v @ x\<rparr>"

definition printTabCell :: "nat \<Rightarrow> string \<Rightarrow> monitor_view \<Rightarrow> monitor_view option" where
  "printTabCell idx content v =
     (if length COLUMN_WIDTH \<le> idx then None
      else
        (let width = COLUMN_WIDTH ! idx + COLUMN_PAD in
         Option.bind (buf_set 0 (replicate (unat width) CHR '' '') (textBuffer v)) (\<lambda>b.
         Option.bind (buf_set (unat width) [CHR 0x00] b) (\<lambda>b.
           let len = (word_of_nat (length (c_str content)) :: i32);
               len = (if COLUMN_WIDTH ! idx < len then COLUMN_WIDTH ! idx else len)
           in map_option (\<lambda>b. printw (c_str b) (v\<lparr>textBuffer := b\<rparr>))
                (buf_set 0 (take (unat len) (c_str content)) b)))))"

definition printTabHeader :: "monitor_view \<Rightarrow> monitor_view option" where
  "printTabHeader v =
     map_option (printw [CHR 0x0A])
       (iterate (\<lambda>i. printTabCell i (COLUMN_HEADER_TEXT ! i)) [0..<length COLUMN_WIDTH] v)"

text \<open>\<open>snprintf\<close> with the format \<open>%d\<close> into 16 characters, the last of which is the NUL.\<close>

definition digit :: "nat \<Rightarrow> char" where
  "digit d = char_of (48 + d)"

fun dec_nat :: "nat \<Rightarrow> string" where
  "dec_nat n = (if n < 10 then [digit n] else dec_nat (n div 10) @ [digit (n mod 10)])"

declare dec_nat.simps [simp del]

definition fmt_d :: "i32 \<Rightarrow> string" where
  "fmt_d w = (if sint w < 0 then CHR ''-'' # dec_nat (nat (- sint w)) else dec_nat (nat (sint w)))"

definition printTabLine :: "flora_client_info \<Rightarrow> monitor_view \<Rightarrow> monitor_view option" where
  "printTabLine c v =
     map_option (printw [CHR 0x0A])
       (Option.bind (printTabCell 0 (take 15 (fmt_d (fc_pid c))) v) (printTabCell 1 (c_str (fc_name c))))"

definition updateMonitorScreen :: "monitor_view \<Rightarrow> monitor_view option" where
  "updateMonitorScreen v =
     Option.bind (printTabHeader (v\<lparr>screen := []\<rparr>)) (iterate printTabLine (floraClients v))"

section \<open>The callbacks\<close>

definition client_of_item :: "monitor_list_item \<Rightarrow> flora_client_info" where
  "client_of_item it = \<lparr>fc_id = mli_id it, fc_pid = mli_pid it, fc_name = mli_name it, fc_flags = mli_flags it\<rparr>"

definition view_list_all :: "monitor_list_item list \<Rightarrow> monitor_view \<Rightarrow> monitor_view option" where
  "view_list_all items v =
     updateMonitorScreen (fold (\<lambda>it v. v\<lparr>floraClients := floraClients v @ [client_of_item it]\<rparr>) items v)"

definition view_list_add :: "monitor_list_item \<Rightarrow> monitor_view \<Rightarrow> monitor_view option" where
  "view_list_add item v = updateMonitorScreen (v\<lparr>floraClients := floraClients v @ [client_of_item item]\<rparr>)"

fun erase_first :: "u32 \<Rightarrow> flora_client_info list \<Rightarrow> flora_client_info list option" where
  "erase_first i [] = None"
| "erase_first i (c # cs) = (if fc_id c = i then Some cs else map_option (Cons c) (erase_first i cs))"

definition view_list_remove :: "u32 \<Rightarrow> monitor_view \<Rightarrow> monitor_view option" where
  "view_list_remove i v =
     (case erase_first i (floraClients v) of
        None \<Rightarrow> Some v
      | Some cs \<Rightarrow> updateMonitorScreen (v\<lparr>floraClients := cs\<rparr>))"

text \<open>The view as the \<open>MonitorCallback\<close> of a client: it overrides three of the functions.\<close>

fun view_upcall :: "'c upcall \<Rightarrow> monitor_view \<Rightarrow> monitor_view option" where
  "view_upcall (MonListAll items) v = view_list_all items v"
| "view_upcall (MonListAdd item) v = view_list_add item v"
| "view_upcall (MonListRemove i) v = view_list_remove i v"
| "view_upcall _ v = Some v"

section \<open>The program\<close>

text \<open>How \<open>doMonitor\<close> sets up its agent, and its loop over the keys: the keys that are left when it ends,
  \<open>None\<close> while it waits for one.\<close>

definition monitor_agent :: "string \<Rightarrow> 'c agent option" where
  "monitor_agent floraUri =
     Option.bind (agent_config FLORA_AGENT_CONFIG_URI [VaStr (c_str (floraUri @ ''#flora-monitor''))] new_Agent) (\<lambda>a.
       map_option (agent_start False)
         (agent_config FLORA_AGENT_CONFIG_MONITOR [VaU32 FLORA_CLI_FLAG_MONITOR, VaMonitor True] a))"

fun key_loop :: "int list \<Rightarrow> int list option" where
  "key_loop [] = None"
| "key_loop (c # cs) = (if c < 0 \<or> c = 113 \<or> c = 81 then Some cs else key_loop cs)"

section \<open>What is shown\<close>

text \<open>A cell: at most \<open>w\<close> characters of the text, filled with blanks to one more.\<close>

definition tab_cell :: "nat \<Rightarrow> string \<Rightarrow> string" where
  "tab_cell w x = (let n = min w (length x mod 2 ^ 32) in take n x @ replicate (w + 1 - n) CHR '' '')"

definition tab_line :: "flora_client_info \<Rightarrow> string" where
  "tab_line c = tab_cell 8 (fmt_d (fc_pid c)) @ tab_cell 32 (c_str (fc_name c)) @ [CHR 0x0A]"

definition tab_screen :: "flora_client_info list \<Rightarrow> string" where
  "tab_screen cs = tab_cell 8 ''PID'' @ tab_cell 32 ''NAME'' @ [CHR 0x0A] @ concat (map tab_line cs)"

lemma c_str_upto: "nul_free xs \<Longrightarrow> c_str (xs @ CHR 0x00 # ys) = xs"
  unfolding c_str_def nul_free_def by (induction xs) auto

lemma tab_cell_length: "length (tab_cell w x) = w + 1"
  by (auto simp: tab_cell_def Let_def)

lemma printTabCell_text:
  assumes "idx < 2" and "length (textBuffer v) = 64"
  shows "\<exists>b. printTabCell idx x v = Some (v\<lparr>textBuffer := b, screen := screen v @ tab_cell (unat (COLUMN_WIDTH ! idx)) (c_str x)\<rparr>) \<and>
    length b = 64"
proof -
  define w where "w = unat (COLUMN_WIDTH ! idx)"
  have w: "w \<le> 32" "unat (COLUMN_WIDTH ! idx + COLUMN_PAD) = w + 1" "idx < length COLUMN_WIDTH" "COLUMN_WIDTH ! idx = word_of_nat w"
    using assms(1) by (auto simp: w_def COLUMN_WIDTH_def COLUMN_PAD_def less_2_cases_iff)
  define n where "n = min w (length (c_str x) mod 2 ^ 32)"
  have n: "unat (if COLUMN_WIDTH ! idx < (word_of_nat (length (c_str x)) :: i32) then COLUMN_WIDTH ! idx else word_of_nat (length (c_str x))) = n"
    by (simp add: n_def w_def word_less_nat_alt unat_of_nat min_def)
  have nl: "n \<le> w" "n \<le> length (c_str x)" by (auto simp: n_def min_def intro: order_trans [OF mod_less_eq_dividend])
  let ?t = "textBuffer v"
  let ?b = "replicate (w + 1) CHR '' '' @ [CHR 0x00] @ drop (w + 2) ?t"
  let ?c = "take n (c_str x) @ drop n ?b"
  have 1: "buf_set 0 (replicate (w + 1) CHR '' '') ?t = Some (replicate (w + 1) CHR '' '' @ drop (w + 1) ?t)"
    using w(1) assms(2) by (simp add: buf_set_def)
  have 2: "buf_set (w + 1) [CHR 0x00] (replicate (w + 1) CHR '' '' @ drop (w + 1) ?t) = Some ?b"
    using w(1) assms(2) by (simp add: buf_set_def)
  have 3: "buf_set 0 (take n (c_str x)) ?b = Some ?c"
    using w(1) assms(2) nl by (simp add: buf_set_def)
  have "drop n ?b = replicate (w + 1 - n) CHR '' '' @ [CHR 0x00] @ drop (w + 2) ?t" using nl(1) by (simp del: replicate_Suc)
  moreover have "nul_free (take n (c_str x) @ replicate (w + 1 - n) CHR '' '')"
    using nul_free_c_str [of x] by (auto simp: nul_free_def dest: in_set_takeD)
  ultimately have "c_str ?c = tab_cell w (c_str x)"
    using c_str_upto [of "take n (c_str x) @ replicate (w + 1 - n) CHR '' ''" "drop (w + 2) ?t"]
    by (simp add: tab_cell_def Let_def n_def)
  moreover have "length ?c = 64" using w(1) assms(2) nl by simp
  ultimately obtain d where d: "buf_set 0 (take n (c_str x)) ?b = Some d" "c_str d = tab_cell w (c_str x)" "length d = 64"
    using 3 by blast
  have "printTabCell idx x v = Some (printw (c_str d) (v\<lparr>textBuffer := d\<rparr>))"
    unfolding printTabCell_def Let_def n w(2) using w(3) [folded not_le] by (simp only: 1 2 d(1) bind.simps option.map if_False)
  with d(2,3) show ?thesis unfolding w_def [symmetric] by (intro exI [of _ d]) (simp add: printw_def)
qed


lemma dec_nat_length: "n < 10 ^ k \<Longrightarrow> 0 < k \<Longrightarrow> length (dec_nat n) \<le> k"
proof (induction k arbitrary: n)
  case (Suc k)
  show ?case
  proof (cases "n < 10")
    case False
    with Suc.prems(1) have "0 < k" by (cases k) auto
    moreover have "n div 10 < 10 ^ k" using Suc.prems(1) by (simp add: less_mult_imp_div_less mult.commute)
    ultimately show ?thesis using Suc.IH [of "n div 10"] False by (subst dec_nat.simps) simp
  qed (subst dec_nat.simps, simp)
qed simp

lemma digit_nonzero: "d < 10 \<Longrightarrow> digit d \<noteq> CHR 0x00"
  by (auto simp: digit_def char_of_eq_iff take_bit_eq_mod)

lemma dec_nat_nul_free: "nul_free (dec_nat n)"
proof (induction n rule: dec_nat.induct)
  case (1 n)
  then show ?case by (subst dec_nat.simps) (auto simp: nul_free_def digit_nonzero dest: sym)
qed

lemma fmt_d_text: "length (fmt_d w) \<le> 11" "nul_free (fmt_d w)"
proof -
  have "- (2 ^ 31) \<le> sint w" "sint w < 2 ^ 31" using sint_range_size [of w] by (simp_all add: word_size)
  then have "nat (- sint w) < 10 ^ 10" "nat (sint w) < 10 ^ 10" by (simp_all add: nat_less_iff)
  then show "length (fmt_d w) \<le> 11" using dec_nat_length [of _ 10] by (fastforce simp: fmt_d_def)
  show "nul_free (fmt_d w)" using dec_nat_nul_free by (auto simp: fmt_d_def nul_free_def)
qed

text \<open>The loops over the columns and the clients.\<close>

lemma column_widths: "unat (COLUMN_WIDTH ! 0) = 8" "unat (COLUMN_WIDTH ! Suc 0) = 32"
  by (simp_all add: COLUMN_WIDTH_def)

lemma printTabHeader_text:
  assumes "length (textBuffer v) = 64"
  shows "\<exists>b. printTabHeader v = Some (v\<lparr>textBuffer := b, screen := screen v @ tab_screen []\<rparr>) \<and> length b = 64"
proof -
  have c: "c_str ''PID'' = ''PID''" "c_str ''NAME'' = ''NAME''" by (simp_all add: c_str_def)
  from printTabCell_text [of 0 v "''PID''"] assms column_widths obtain b where
    b: "printTabCell 0 ''PID'' v = Some (v\<lparr>textBuffer := b, screen := screen v @ tab_cell 8 ''PID''\<rparr>)" "length b = 64"
    by (auto simp: c)
  let ?v = "v\<lparr>textBuffer := b, screen := screen v @ tab_cell 8 ''PID''\<rparr>"
  from printTabCell_text [of 1 ?v "''NAME''"] b(2) column_widths obtain d where
    "printTabCell 1 ''NAME'' ?v = Some (?v\<lparr>textBuffer := d, screen := screen ?v @ tab_cell 32 ''NAME''\<rparr>)" "length d = 64"
    by (auto simp: c)
  moreover have "[0..<length COLUMN_WIDTH] = [0, 1]" by (simp add: COLUMN_WIDTH_def upt_rec)
  ultimately show ?thesis using b(1)
    by (intro exI [of _ d]) (simp add: printTabHeader_def COLUMN_HEADER_TEXT_def printw_def tab_screen_def)
qed

lemma printTabLine_text:
  assumes "length (textBuffer v) = 64"
  shows "\<exists>b. printTabLine c v = Some (v\<lparr>textBuffer := b, screen := screen v @ tab_line c\<rparr>) \<and> length b = 64"
proof -
  let ?p = "fmt_d (fc_pid c)" and ?n = "c_str (fc_name c)"
  have c: "c_str ?p = ?p" "take 15 ?p = ?p" using fmt_d_text [of "fc_pid c"] by simp_all
  from printTabCell_text [of 0 v ?p] assms column_widths obtain b where
    b: "printTabCell 0 ?p v = Some (v\<lparr>textBuffer := b, screen := screen v @ tab_cell 8 ?p\<rparr>)" "length b = 64"
    by (auto simp: c)
  let ?v = "v\<lparr>textBuffer := b, screen := screen v @ tab_cell 8 ?p\<rparr>"
  from printTabCell_text [of 1 ?v ?n] b(2) column_widths obtain d where
    "printTabCell 1 ?n ?v = Some (?v\<lparr>textBuffer := d, screen := screen ?v @ tab_cell 32 ?n\<rparr>)" "length d = 64" by auto
  with b(1) c(2) show ?thesis by (intro exI [of _ d]) (simp add: printTabLine_def printw_def tab_line_def)
qed

lemma printTabLines_text:
  assumes "length (textBuffer v) = 64"
  shows "\<exists>b. iterate printTabLine cs v = Some (v\<lparr>textBuffer := b, screen := screen v @ concat (map tab_line cs)\<rparr>) \<and> length b = 64"
  using assms
proof (induction cs arbitrary: v)
  case Nil
  then show ?case by (intro exI [of _ "textBuffer v"]) simp
next
  case (Cons c cs)
  from printTabLine_text [OF Cons.prems] obtain b where
    b: "printTabLine c v = Some (v\<lparr>textBuffer := b, screen := screen v @ tab_line c\<rparr>)" "length b = 64" by blast
  let ?v = "v\<lparr>textBuffer := b, screen := screen v @ tab_line c\<rparr>"
  from Cons.IH [of ?v] b(2) obtain d where
    "iterate printTabLine cs ?v = Some (?v\<lparr>textBuffer := d, screen := screen ?v @ concat (map tab_line cs)\<rparr>)" "length d = 64" by auto
  with b(1) show ?case by (intro exI [of _ d]) simp
qed

definition view_ok :: "monitor_view \<Rightarrow> bool" where
  "view_ok v \<longleftrightarrow> length (textBuffer v) = 64 \<and> (floraClients v = [] \<and> screen v = [] \<or> screen v = tab_screen (floraClients v))"

lemma updateMonitorScreen_text:
  assumes "length (textBuffer v) = 64"
  obtains w where "updateMonitorScreen v = Some w" "view_ok w" "floraClients w = floraClients v"
    "screen w = tab_screen (floraClients v)"
proof -
  from printTabHeader_text [of "v\<lparr>screen := []\<rparr>"] assms obtain b where
    b: "printTabHeader (v\<lparr>screen := []\<rparr>) = Some (v\<lparr>textBuffer := b, screen := tab_screen []\<rparr>)" "length b = 64" by auto
  from printTabLines_text [of "v\<lparr>textBuffer := b, screen := tab_screen []\<rparr>" "floraClients v"] b(2) obtain d where
    "iterate printTabLine (floraClients v) (v\<lparr>textBuffer := b, screen := tab_screen []\<rparr>) =
       Some (v\<lparr>textBuffer := d, screen := tab_screen (floraClients v)\<rparr>)" "length d = 64" by (auto simp: tab_screen_def)
  with b(1) that [of "v\<lparr>textBuffer := d, screen := tab_screen (floraClients v)\<rparr>"] show ?thesis
    by (simp add: updateMonitorScreen_def view_ok_def)
qed

section \<open>Properties of the view\<close>

lemma view_list_all_clients:
  "fold (\<lambda>it v. v\<lparr>floraClients := floraClients v @ [client_of_item it]\<rparr>) items v =
   v\<lparr>floraClients := floraClients v @ map client_of_item items\<rparr>"
  by (induction items arbitrary: v) simp_all

lemma view_upcall_ok:
  assumes "view_ok v"
  shows "\<exists>w. view_upcall u v = Some w \<and> view_ok w"
proof -
  have s: "\<exists>w. updateMonitorScreen (v\<lparr>floraClients := cs\<rparr>) = Some w \<and> view_ok w" for cs
    using updateMonitorScreen_text [of "v\<lparr>floraClients := cs\<rparr>"] assms by (auto simp: view_ok_def)
  show ?thesis
    using assms s by (cases u) (auto simp: view_list_all_def view_list_all_clients view_list_add_def view_list_remove_def split: option.split)
qed

text \<open>C30: What the monitor displays. Whatever the service reports and in whatever order, drawing never
  leaves the array of 64 characters or the buffer for the process id, and the terminal shows the header
  and then one line for each client in the view's list, in its order: the process id in decimal cut to 8
  characters, and the name cut to 32, each filled with blanks to its column, so that all lines have the
  same length.\<close>

theorem monitor_screen:
  fixes us :: "'c upcall list"
  shows "\<exists>v. iterate view_upcall us new_MonitorView = Some v \<and>
    (floraClients v = [] \<and> screen v = [] \<or> screen v = tab_screen (floraClients v)) \<and>
    (\<forall>c. length (tab_line c) = 43)"
proof -
  have "\<exists>v. iterate view_upcall us w = Some v \<and> view_ok v" if "view_ok w" for w
    using that
  proof (induction us arbitrary: w)
    case (Cons u us)
    from view_upcall_ok [OF Cons.prems, of u] obtain x where "view_upcall u w = Some x" "view_ok x" by blast
    with Cons.IH [of x] show ?case by simp
  qed simp
  moreover have "view_ok new_MonitorView" by (simp add: view_ok_def new_MonitorView_def)
  ultimately have "\<exists>v. iterate view_upcall us new_MonitorView = Some v \<and> view_ok v" by blast
  then show ?thesis by (auto simp: view_ok_def tab_line_def tab_cell_length)
qed

end
