(* ===== verification/MonitorTrack.thy ===== *)
theory MonitorTrack
  imports MonitorTool EndToEnd DispAdmin "HOL-Library.Multiset"
begin

text \<open>
  The monitor and the service together: what the dispatcher tells the monitors goes over the wire and
  through the monitor's client into the view, and keeps the view equal to the list of clients.
\<close>

section \<open>Messages to a monitor\<close>

lemma parse_monitor_message:
  assumes "caps_laws C content rest" and "ser_check sz (serialize C sz fl k) = (r, bs)" and "0 \<le> sint r"
    and "content k = MInt CMD_MONITOR_RESP # MInt sub # ms"
  obtains c c1 c2 where "caps_parse C bs = Some c" "read_i32 C c = (Some CMD_MONITOR_RESP, c1)"
    "read_u32 C c1 = (Some sub, c2)" "rest c2 = ms"
proof -
  from ser_check_parse [OF assms(2,3,1)] assms(4) obtain c where
    c: "caps_parse C bs = Some c" "rest c = MInt CMD_MONITOR_RESP # MInt sub # ms" by auto
  from read_i32I [OF assms(1) c(2)] obtain c1 where 1: "read_i32 C c = (Some CMD_MONITOR_RESP, c1)" "rest c1 = MInt sub # ms" .
  from read_u32I [OF assms(1) 1(2)] obtain c2 where 2: "read_u32 C c1 = (Some sub, c2)" "rest c2 = ms" .
  from that c 1 2 show ?thesis by blast
qed

lemma deliver_monitor:
  assumes "caps_parse (ccaps M) f = Some c" and "read_i32 (ccaps M) c = (Some CMD_MONITOR_RESP, c1)"
    and "read_u32 (ccaps M) c1 = (Some sub, c2)" and "sub < MONITOR_SUBTYPE_NUM"
    and "\<And>q. (monitor_handlers M ! unat sub) c2 q = Some (True, emit u q)"
    and "cmd_handler q = AfterAuth" and "mon_callback q"
  shows "client_deliver M f (client_view q) = Some (client_view (emit u q))"
  using assms by (simp add: client_deliver_def run_handler_def handle_cmd_after_auth_def on_monitor_resp_def flora_consts
    client_view_def with_buf_def emit_def)

lemma deliver_added:
  assumes "caps_laws C content rest" and "caps E = C" and "ccaps M = C"
    and "added_bytes E s i b = (k, f)" and "0 \<le> sint k" and "cmd_handler q = AfterAuth" and "mon_callback q"
  shows "client_deliver M f (client_view q) = Some (client_view (emit (MonListAdd (list_item i)) q))"
proof -
  let ?k = "write_caps C (Some (serialize_monitor_list_item C i)) (write_i32 C MONITOR_LIST_ADD (write_i32 C CMD_MONITOR_RESP (new_instance C)))"
  have "ser_check (d_buf_size s) (serialize C (d_buf_size s) (serialize_flags (heap s b)) ?k) = (k, f)"
    using assms(2,4) by (simp add: added_bytes_def resp_serialize_monitor_list_add_def Let_def)
  moreover have "content ?k = MInt CMD_MONITOR_RESP # MInt MONITOR_LIST_ADD # [MCaps (Some (item_members i))]"
    by (simp add: caps_write_simps [OF assms(1)] item_content [OF assms(1)])
  ultimately obtain c c1 c2 where c: "caps_parse C f = Some c" "read_i32 C c = (Some CMD_MONITOR_RESP, c1)"
    "read_u32 C c1 = (Some MONITOR_LIST_ADD, c2)" "rest c2 = [MCaps (Some (item_members i))]"
    by (rule parse_monitor_message [OF assms(1) _ assms(5)])
  from read_capsI [OF assms(1) c(4)] obtain x c3 where x: "read_caps C c2 = (Some x, c3)"
    "map_option content x = Some (item_members i)" "\<And>s. x = Some s \<Longrightarrow> rest s = content s" by metis
  then obtain y where "x = Some y" "rest y = item_members i" by auto
  with x(1) have "resp_parse_monitor_list_add C c2 = Some (Some (list_item i))"
    by (simp add: resp_parse_monitor_list_add_def parse_item [OF assms(1)])
  then show ?thesis
    using c assms(3,6,7) by (intro deliver_monitor) (auto simp: monitor_handlers_def handle_monitor_list_add_def flora_consts)
qed

lemma deliver_removed:
  assumes "caps_laws C content rest" and "caps E = C" and "ccaps M = C"
    and "removed_bytes E s i b = (k, f)" and "0 \<le> sint k" and "cmd_handler q = AfterAuth" and "mon_callback q"
  shows "client_deliver M f (client_view q) = Some (client_view (emit (MonListRemove i) q))"
proof -
  let ?k = "write_u32 C i (write_i32 C MONITOR_LIST_REMOVE (write_i32 C CMD_MONITOR_RESP (new_instance C)))"
  have "ser_check (d_buf_size s) (serialize C (d_buf_size s) (serialize_flags (heap s b)) ?k) = (k, f)"
    using assms(2,4) by (simp add: removed_bytes_def resp_serialize_monitor_list_remove_def Let_def)
  moreover have "content ?k = MInt CMD_MONITOR_RESP # MInt MONITOR_LIST_REMOVE # [MInt i]"
    by (simp add: caps_write_simps [OF assms(1)])
  ultimately obtain c c1 c2 where c: "caps_parse C f = Some c" "read_i32 C c = (Some CMD_MONITOR_RESP, c1)"
    "read_u32 C c1 = (Some MONITOR_LIST_REMOVE, c2)" "rest c2 = [MInt i]"
    by (rule parse_monitor_message [OF assms(1) _ assms(5)])
  from read_u32I [OF assms(1) c(4)] obtain c3 where "read_u32 C c2 = (Some i, c3)" by blast
  then have "resp_parse_monitor_list_remove C c2 = Some i" by (simp add: resp_parse_monitor_list_remove_def)
  then show ?thesis
    using c assms(3,6,7) by (intro deliver_monitor) (auto simp: monitor_handlers_def handle_monitor_list_remove_def flora_consts)
qed

lemma deliver_list:
  assumes "caps_laws C content rest" and "caps E = C" and "ccaps M = C" and "length (adapter_infos s) < 2 ^ 32"
    and "list_bytes E s b = (k, f)" and "0 \<le> sint k" and "cmd_handler q = AfterAuth" and "mon_callback q"
  shows "client_deliver M f (client_view q) =
    Some (client_view (emit (MonListAll (map (list_item \<circ> snd) (adapter_infos s))) q))"
proof -
  let ?infos = "adapter_infos s"
  let ?k = "write_items C ?infos (write_i32 C (word_of_nat (length ?infos))
    (write_i32 C MONITOR_LIST_ALL (write_i32 C CMD_MONITOR_RESP (new_instance C))))"
  have "ser_check (d_buf_size s) (serialize C (d_buf_size s) (serialize_flags (heap s b)) ?k) = (k, f)"
    using assms(2,5) by (simp add: list_bytes_def resp_serialize_monitor_list_all_def Let_def)
  moreover have "content ?k = MInt CMD_MONITOR_RESP # MInt MONITOR_LIST_ALL # MInt (word_of_nat (length ?infos)) #
      map (\<lambda>(k, i). MCaps (Some (item_members i))) ?infos"
    by (simp add: caps_write_simps [OF assms(1)] write_items_content [OF assms(1)])
  ultimately obtain c c1 c2 where c: "caps_parse C f = Some c" "read_i32 C c = (Some CMD_MONITOR_RESP, c1)"
    "read_u32 C c1 = (Some MONITOR_LIST_ALL, c2)"
    "rest c2 = MInt (word_of_nat (length ?infos)) # map (\<lambda>(k, i). MCaps (Some (item_members i))) ?infos"
    by (rule parse_monitor_message [OF assms(1) _ assms(6)])
  from parse_list_all [OF assms(1,4) c(4)] show ?thesis
    using c assms(3,7,8) by (intro deliver_monitor) (auto simp: monitor_handlers_def handle_monitor_list_all_def flora_consts)
qed

section \<open>The view follows the service\<close>

text \<open>The view lists exactly the clients of the service, in any order.\<close>

definition view_shows :: "monitor_view \<Rightarrow> 'c disp \<Rightarrow> bool" where
  "view_shows v s \<longleftrightarrow> length (textBuffer v) = 64 \<and>
     mset (floraClients v) = mset (map (client_of_item \<circ> list_item \<circ> snd) (adapter_infos s))"

lemma mset_map_put:
  assumes "distinct (map fst m)" and "distinct (map fst m')" and "map_of m' = (map_of m)(a \<mapsto> i)" and "map_of m a = None"
  shows "mset m' = add_mset (a, i) (mset m)"
proof -
  have g: "map_of x k = Some y \<longleftrightarrow> (k, y) \<in> set x" if "distinct (map fst x)" for x :: "('a \<times> 'b) list" and k y
    using that by (rule map_of_eq_Some_iff)
  have "(k, y) \<in> set m' \<longleftrightarrow> (k, y) \<in> insert (a, i) (set m)" for k y
    unfolding g [OF assms(2), symmetric] insert_iff g [OF assms(1), symmetric] assms(3) using assms(4) by auto
  then have "set m' = insert (a, i) (set m)" by (intro set_eqI) (simp only: split_paired_all)
  moreover have "(a, i) \<notin> set m" unfolding g [OF assms(1), symmetric] using assms(4) by simp
  ultimately have "set m' = set ((a, i) # m)" "distinct m'" "distinct ((a, i) # m)"
    using assms(1,2) by (auto simp: distinct_map)
  then show ?thesis by (metis mset.simps(2) set_eq_iff_mset_eq_distinct)
qed

lemma erase_first_mset:
  "c \<in> set cs \<Longrightarrow> distinct (map fc_id cs) \<Longrightarrow> \<exists>ds. erase_first (fc_id c) cs = Some ds \<and> mset cs = add_mset c (mset ds)"
proof (induction cs)
  case (Cons d cs)
  show ?case
  proof (cases "c = d")
    case False
    with Cons obtain ds where "erase_first (fc_id c) cs = Some ds" "mset cs = add_mset c (mset ds)" by auto
    moreover have "fc_id d \<noteq> fc_id c" using False Cons.prems by auto
    ultimately show ?thesis by (simp add: add_mset_commute)
  qed simp
qed simp

lemma mset_map_erase:
  assumes "distinct (map fst m)" and "map_of m a = Some i"
  shows "mset m = add_mset (a, i) (mset (map_erase a m))"
  using assms
proof (induction m)
  case (Cons p m)
  show ?case
  proof (cases "fst p = a")
    case True
    with Cons.prems have "map_erase a m = m" by (auto simp: map_erase_absent map_of_eq_None_iff)
    with True Cons.prems show ?thesis by (cases p) (simp add: map_erase_def)
  next
    case False
    with Cons show ?thesis by (cases p) (auto simp: map_erase_def)
  qed
qed simp

lemma view_redrawn:
  assumes "length (textBuffer v) = 64"
  obtains w where "updateMonitorScreen (v\<lparr>floraClients := cs\<rparr>) = Some w" "floraClients w = cs" "length (textBuffer w) = 64"
    "screen w = tab_screen cs"
proof -
  from updateMonitorScreen_text [of "v\<lparr>floraClients := cs\<rparr>"] assms obtain w where
    "updateMonitorScreen (v\<lparr>floraClients := cs\<rparr>) = Some w" "view_ok w" "floraClients w = cs" "screen w = tab_screen cs" by auto
  then show ?thesis using that by (auto simp: view_ok_def)
qed

text \<open>What arrives at monitor \<open>b\<close> among the messages written: its client takes them one by one, and what it
  reports is passed to the view.\<close>

definition view_after :: "'c cenv \<Rightarrow> (aid \<times> i32 \<times> byte list) list \<Rightarrow> aid \<Rightarrow> 'c client \<Rightarrow> monitor_view \<Rightarrow> monitor_view option" where
  "view_after M ws b q v =
     Option.bind (iterate (client_deliver M) (map (snd \<circ> snd) (filter (\<lambda>w. fst w = b) ws)) (client_view (q\<lparr>upcalls := []\<rparr>)))
       (\<lambda>q. iterate view_upcall (upcalls q) v)"

lemma view_after_nothing: "b \<notin> fst ` set ws \<Longrightarrow> view_after M ws b q v = Some v"
proof -
  assume "b \<notin> fst ` set ws"
  then have "filter (\<lambda>w. fst w = b) ws = []" by (auto simp: filter_empty_conv)
  then show ?thesis by (simp add: view_after_def client_view_def with_buf_def)
qed

lemma view_after_one:
  assumes "filter (\<lambda>w. fst w = b) ws = [(b, k, f)]"
    and "client_deliver M f (client_view (q\<lparr>upcalls := []\<rparr>)) = Some (client_view (emit u (q\<lparr>upcalls := []\<rparr>)))"
  shows "view_after M ws b q v = view_upcall u v"
  using assms by (cases "view_upcall u v") (simp_all add: view_after_def client_view_def with_buf_def emit_def)

lemma filter_told:
  "\<lbrakk>distinct bs; b \<in> set bs\<rbrakk> \<Longrightarrow> filter (\<lambda>w. fst w = b) (map (\<lambda>b. (b, m b)) bs) = [(b, m b)]"
  by (induction bs) (auto simp: filter_empty_conv)

lemma open_monitors_distinct: "disp_inv s \<Longrightarrow> distinct (open_monitors s)"
  using monitors_distinct [of s] by (simp add: open_monitors_def)

lemma infos_distinct: "disp_inv s \<Longrightarrow> distinct (map fst (adapter_infos s))"
  using map_ok_distinct by (auto simp: disp_inv_def maps_ok_def)


text \<open>C15: The view follows a client that joins. When the dispatcher handles a client's authentication, on
  whichever branch, a view that shows the clients of the service before shows them afterwards, once the
  monitor's client has taken what was written to it: one report if the client was accepted, none if it
  was refused.\<close>

theorem monitor_view_joined:
  assumes "caps_laws C content rest" and "caps E = C" and "ccaps M = C"
    and "new_at s a" and "req_parse_auth C c = Some (version, extra, pid, flags)" and "\<not> is_monitor flags"
    and "r = auth_code s version extra flags" and "0 \<le> sint (fst (auth_bytes E s a r))"
    and "\<And>b. 0 \<le> sint (fst (added_bytes E s (client_info_of s extra pid flags) b))"
    and "b \<in> set (open_monitors s)" and "cmd_handler q = AfterAuth" and "mon_callback q" and "view_shows v s"
  shows "\<exists>t ws v'. handle_auth_req E c a s = Some (r = FLORA_CLI_SUCCESS, t) \<and> writes (iolog t) = writes (iolog s) @ ws \<and>
    view_after M ws b q v = Some v' \<and> view_shows v' t \<and>
    (r = FLORA_CLI_SUCCESS \<longrightarrow> screen v' = tab_screen (floraClients v'))"
proof -
  let ?i = "client_info_of s extra pid flags"
  let ?told = "map (\<lambda>b. (b, added_bytes E s ?i b)) (open_monitors s)"
  have inv: "disp_inv s" using assms(4) by (simp add: new_at_def)
  obtain t where t: "handle_auth_req E c a s = Some (r = FLORA_CLI_SUCCESS, t)"
    "writes (iolog t) = writes (iolog s) @ (if closed (heap s a) then [] else [(a, auth_bytes E s a r)]) @
      (if r = FLORA_CLI_SUCCESS then ?told else [])"
    "map_of (adapter_infos t) = (if r = FLORA_CLI_SUCCESS then (map_of (adapter_infos s)) (a \<mapsto> ?i) else map_of (adapter_infos s))"
    using auth_client [OF assms(4) _ assms(6-9)] assms(2,5) by blast
  let ?ws = "(if closed (heap s a) then [] else [(a, auth_bytes E s a r)]) @ (if r = FLORA_CLI_SUCCESS then ?told else [])"
  have "disp_inv t" using good_auth [OF assms(4), of E c] t(1) by (auto simp: good_def dest: keeps_inv)
  note di = infos_distinct [OF inv] infos_distinct [OF this]
  have ab: "a \<noteq> b" using assms(10) new_at_fresh(2) [OF assms(4)] by (auto simp: open_monitors_def map_of_eq_None_iff)
  have "\<exists>v'. view_after M ?ws b q v = Some v' \<and> view_shows v' t \<and> (r = FLORA_CLI_SUCCESS \<longrightarrow> screen v' = tab_screen (floraClients v'))"
  proof (cases "r = FLORA_CLI_SUCCESS")
    case False
    have "set (adapter_infos t) = set (adapter_infos s)" using t(3) False di map_of_inject_set by fastforce
    moreover have "distinct (adapter_infos t)" "distinct (adapter_infos s)" using di by (simp_all add: distinct_map)
    ultimately have "mset (adapter_infos t) = mset (adapter_infos s)" by (simp add: set_eq_iff_mset_eq_distinct)
    then have "view_shows v t" using assms(13) by (simp add: view_shows_def)
    moreover have "view_after M ?ws b q v = Some v" using False ab by (intro view_after_nothing) auto
    ultimately show ?thesis using False by blast
  next
    case True
    obtain k f where kf: "added_bytes E s ?i b = (k, f)" by fastforce
    have "filter (\<lambda>w. fst w = b) ?ws = [(b, k, f)]"
      using True ab filter_told [OF open_monitors_distinct [OF inv] assms(10), of "added_bytes E s ?i"] kf by simp
    moreover have "client_deliver M f (client_view (q\<lparr>upcalls := []\<rparr>)) =
        Some (client_view (emit (MonListAdd (list_item ?i)) (q\<lparr>upcalls := []\<rparr>)))"
      by (rule deliver_added [OF assms(1-3) kf]) (use assms(9) [of b] assms(11,12) kf in simp_all)
    ultimately have va: "view_after M ?ws b q v = view_list_add (list_item ?i) v" using view_after_one [of b ?ws k f M q] by simp
    have "map_of (adapter_infos s) a = None" by (rule new_at_fresh(1) [OF assms(4)])
    with mset_map_put [OF di] t(3) True have "mset (adapter_infos t) = add_mset (a, ?i) (mset (adapter_infos s))" by simp
    then have m: "mset (map (client_of_item \<circ> list_item \<circ> snd) (adapter_infos t)) =
        add_mset (client_of_item (list_item ?i)) (mset (floraClients v))"
      using assms(13) by (simp add: view_shows_def)
    have "length (textBuffer v) = 64" using assms(13) by (simp add: view_shows_def)
    from view_redrawn [OF this, of "floraClients v @ [client_of_item (list_item ?i)]"] obtain w where
      "view_list_add (list_item ?i) v = Some w" "floraClients w = floraClients v @ [client_of_item (list_item ?i)]"
      "length (textBuffer w) = 64" "screen w = tab_screen (floraClients w)" by (auto simp: view_list_add_def)
    with va m show ?thesis by (auto simp: view_shows_def)
  qed
  with t(1,2) show ?thesis by blast
qed

text \<open>C16: The view follows a client that leaves: when the dispatcher erases a client and the clients' ids are
  different, the view shows the remaining ones after it has taken what the monitor was sent.\<close>

theorem monitor_view_left:
  assumes "caps_laws C content rest" and "caps E = C" and "ccaps M = C"
    and "disp_inv s" and "deref_info s a = Some i" and "\<not> is_monitor (ai_flags i)"
    and "\<And>b. 0 \<le> sint (fst (removed_bytes E s (ai_id i) b))"
    and "distinct (map (ai_id \<circ> snd) (adapter_infos s))"
    and "b \<in> set (open_monitors s)" and "cmd_handler q = AfterAuth" and "mon_callback q" and "view_shows v s"
  shows "\<exists>t ws v'. handle_cmd E tp tp' None a s = Some t \<and> writes (iolog t) = writes (iolog s) @ ws \<and>
    view_after M ws b q v = Some v' \<and> view_shows v' t \<and> screen v' = tab_screen (floraClients v')"
proof -
  let ?ws = "map (\<lambda>b. (b, removed_bytes E s (ai_id i) b)) (open_monitors s)"
  let ?g = "client_of_item \<circ> list_item \<circ> snd"
  obtain t where t: "handle_cmd E tp tp' None a s = Some t" "writes (iolog t) = writes (iolog s) @ ?ws"
    "adapter_infos t = map_erase a (adapter_infos s)"
    using erase_client [OF assms(4-7), of tp tp'] by auto
  obtain k f where kf: "removed_bytes E s (ai_id i) b = (k, f)" by fastforce
  have "filter (\<lambda>w. fst w = b) ?ws = [(b, k, f)]"
    using filter_told [OF open_monitors_distinct [OF assms(4)] assms(9), of "removed_bytes E s (ai_id i)"] kf by simp
  moreover have "client_deliver M f (client_view (q\<lparr>upcalls := []\<rparr>)) =
      Some (client_view (emit (MonListRemove (ai_id i)) (q\<lparr>upcalls := []\<rparr>)))"
    by (rule deliver_removed [OF assms(1-3) kf]) (use assms(7) [of b] assms(10,11) kf in simp_all)
  ultimately have va: "view_after M ?ws b q v = view_list_remove (ai_id i) v" using view_after_one [of b ?ws k f M q] by simp
  have ai: "map_of (adapter_infos s) a = Some i" by (rule client_info(2) [OF assms(4-6)])
  have m: "mset (floraClients v) = add_mset (?g (a, i)) (mset (map ?g (adapter_infos t)))"
    using assms(12) mset_map_erase [OF infos_distinct [OF assms(4)] ai] by (simp add: view_shows_def t(3))
  have "mset (map fc_id (floraClients v)) = mset (map (ai_id \<circ> snd) (adapter_infos s))"
    using assms(12) by (simp add: view_shows_def mset_map image_mset.compositionality comp_def client_of_item_def list_item_def)
  then have "distinct (map fc_id (floraClients v))" using assms(8) mset_eq_imp_distinct_iff by blast
  moreover have "?g (a, i) \<in> set (floraClients v)" using m by (metis set_mset_mset union_single_eq_member)
  moreover have "fc_id (?g (a, i)) = ai_id i" by (simp add: client_of_item_def list_item_def)
  ultimately obtain ds where ds: "erase_first (ai_id i) (floraClients v) = Some ds" "mset (floraClients v) = add_mset (?g (a, i)) (mset ds)"
    using erase_first_mset by metis
  have "length (textBuffer v) = 64" using assms(12) by (simp add: view_shows_def)
  from view_redrawn [OF this, of ds] obtain w where
    "view_list_remove (ai_id i) v = Some w" "floraClients w = ds" "length (textBuffer w) = 64" "screen w = tab_screen ds"
    by (auto simp: view_list_remove_def ds(1))
  with va m ds(2) have "view_after M ?ws b q v = Some w \<and> view_shows w t \<and> screen w = tab_screen (floraClients w)"
    by (simp add: view_shows_def)
  with t(1,2) show ?thesis by blast
qed

end
