(* ===== verification/MonitorDemo.thy ===== *)
theory MonitorDemo
  imports MonitorTrack
begin

text \<open>
  Concrete inputs for the theorems about the monitor: a service with one client, one monitor and one
  connection that is about to authenticate, and the witnesses.
\<close>

definition mdemo_disp :: "ref_caps disp" where
  "mdemo_disp = (new_Dispatcher 1 0 0 1)\<lparr>adapter_infos := [(1, e2e_info 1 ''a'')], named_adapters := [(''a'', 1)],
     monitors := [(2, (e2e_info 0 ''w'')\<lparr>ai_flags := FLORA_CLI_FLAG_MONITOR\<rparr>)], poll_refs := [1, 2, 3],
     cmd_packets := [(Some \<lparr>members = [], pos = 0\<rparr>, 3)],
     heap := (\<lambda>_. demo_ad)(1 := demo_ad\<lparr>info := InfoAdapter\<rparr>, 2 := demo_ad\<lparr>info := InfoMonitor\<rparr>)\<rparr>"

definition mdemo_client :: "ref_caps client" where
  "mdemo_client = e2e_client\<lparr>mon_callback := True\<rparr>"

definition mdemo_view :: monitor_view where
  "mdemo_view = new_MonitorView\<lparr>floraClients := [\<lparr>fc_id = 1, fc_pid = 7, fc_name = ''a'', fc_flags = 0\<rparr>]\<rparr>"

lemma mdemo_inv: "disp_inv mdemo_disp"
  by (intro disp_invI)
    (auto simp: inv_defs mdemo_disp_def new_Dispatcher_def e2e_info_def demo_ad_def new_SocketAdapter_def has_info_def
      deref_info_def is_monitor_def map_ok_def flora_consts split: if_splits)

lemma mdemo_facts:
  "open_monitors mdemo_disp = [2]" "view_shows mdemo_view mdemo_disp" "deref_info mdemo_disp 1 = Some (e2e_info 1 ''a'')"
  "\<not> is_monitor (ai_flags (e2e_info 1 ''a''))" "new_at mdemo_disp 3" "d_buf_size mdemo_disp = 32768"
  "cmd_handler mdemo_client = AfterAuth" "mon_callback mdemo_client" "caps e2e_env = ref_ops" "ccaps e2e_cenv = ref_ops"
  "auth_code mdemo_disp 4 ''c'' 0 = FLORA_CLI_SUCCESS" "adapter_infos mdemo_disp = [(1, e2e_info 1 ''a'')]" "ai_id (e2e_info 1 ''a'') = 1"
  using mdemo_inv
  by (auto simp: open_monitors_def mdemo_disp_def demo_ad_def new_SocketAdapter_def closed_def view_shows_def mdemo_view_def
      new_MonitorView_def client_of_item_def list_item_def e2e_info_def deref_info_def is_monitor_def new_at_def has_info_def queue_def
      new_Dispatcher_def mdemo_client_def e2e_client_def e2e_env_def e2e_cenv_def auth_code_def flora_consts)

text \<open>The messages fit the buffer.\<close>

lemma mdemo_fits:
  assumes "ser_check 32768 (serialize ref_ops 32768 fl c) = m" and "smalls (members c)" and "length (encs (members c)) \<le> 1000"
  shows "0 \<le> sint (fst m)"
  using ref_fits_nonneg [OF assms(2), of 32768 fl] assms(1,3) by simp

lemma mdemo_sizes:
  "0 \<le> sint (fst (list_bytes e2e_env mdemo_disp b))"
  "0 \<le> sint (fst (removed_bytes e2e_env mdemo_disp i b))"
  "0 \<le> sint (fst (added_bytes e2e_env mdemo_disp (client_info_of mdemo_disp ''c'' 77 0) b))"
  "0 \<le> sint (fst (auth_bytes e2e_env mdemo_disp b r))"
  unfolding list_bytes_def removed_bytes_def added_bytes_def auth_bytes_def mdemo_facts(6,9,12) Let_def
    resp_serialize_monitor_list_all_def resp_serialize_monitor_list_remove_def resp_serialize_monitor_list_add_def resp_serialize_auth_def
  by (rule mdemo_fits [OF refl]; simp add: caps_write_simps [OF ref_laws] item_content [OF ref_laws]
      item_members_def client_info_of_def e2e_info_def)+

section \<open>Witnesses\<close>


theorem monitor_view_joined_witness:
  "\<exists>t ws v. handle_auth_req e2e_env \<lparr>members = [MInt 4, MStr ''c'', MInt 77, MInt 0], pos = 0\<rparr> 3 mdemo_disp = Some (True, t) \<and>
     writes (iolog t) = writes (iolog mdemo_disp) @ ws \<and> view_after e2e_cenv ws 2 mdemo_client mdemo_view = Some v \<and> view_shows v t"
proof -
  let ?c = "\<lparr>members = [MInt 4, MStr ''c'', MInt 77, MInt 0], pos = 0\<rparr>"
  have p: "req_parse_auth ref_ops ?c = Some (4, ''c'', 77, 0)" "\<not> is_monitor 0" "2 \<in> set (open_monitors mdemo_disp)"
    by (simp_all add: req_parse_auth_def ref_ops_def read_member_def ref_rest_def mdemo_facts(1) is_monitor_def flora_consts)
  from monitor_view_joined [OF ref_laws mdemo_facts(9,10,5) p(1,2) refl _ _ p(3) mdemo_facts(7,8,2)] mdemo_sizes(3,4) mdemo_facts(11)
  show ?thesis by fastforce
qed

theorem monitor_view_left_witness:
  "\<exists>t ws v. handle_cmd e2e_env 5 6 None 1 mdemo_disp = Some t \<and> writes (iolog t) = writes (iolog mdemo_disp) @ ws \<and>
     view_after e2e_cenv ws 2 mdemo_client mdemo_view = Some v \<and> floraClients v = []"
proof -
  have d: "distinct (map (ai_id \<circ> snd) (adapter_infos mdemo_disp))" "2 \<in> set (open_monitors mdemo_disp)"
    by (simp_all add: mdemo_facts(1,12))
  from monitor_view_left [OF ref_laws mdemo_facts(9,10) mdemo_inv mdemo_facts(3,4) mdemo_sizes(2) d mdemo_facts(7,8,2), of 5 6]
  obtain t ws v where t: "handle_cmd e2e_env 5 6 None 1 mdemo_disp = Some t" "writes (iolog t) = writes (iolog mdemo_disp) @ ws"
    "view_after e2e_cenv ws 2 mdemo_client mdemo_view = Some v" "view_shows v t" by blast
  have "adapter_infos t = map_erase 1 (adapter_infos mdemo_disp)"
    using erase_client [OF mdemo_inv mdemo_facts(3,4) mdemo_sizes(2), of 5 6] t(1) by auto
  with t(4) have "floraClients v = []" by (simp add: view_shows_def mdemo_facts(12) map_erase_def)
  with t(1-3) show ?thesis by blast
qed

end
