(* ===== verification/PostOrder.thy ===== *)
theory PostOrder
  imports EndToEnd "HOL-Library.Sublist"
begin

text \<open>
  The order of messages: what several clients post is handled in the order of the dispatcher's queue,
  and a subscriber's application gets the posts of its names in that order, without gaps, for as long as
  its connection is open.
\<close>

section \<open>One post\<close>

text \<open>A packet with a post: the times of its handling, the connection it came from, the object, and the
  post it contains.\<close>

record 'c post_packet =
  pk_times :: "time \<times> time"
  pk_from :: aid
  pk_caps :: 'c
  pk_name :: string
  pk_type :: u32
  pk_args :: "'c option"

definition handle_post :: "'c env \<Rightarrow> 'c post_packet \<Rightarrow> 'c disp \<Rightarrow> 'c disp option" where
  "handle_post E x s = handle_cmd E (fst (pk_times x)) (snd (pk_times x)) (Some (pk_caps x)) (pk_from x) s"

text \<open>What subscriber \<open>b\<close> is sent for it.\<close>

definition sent_to :: "'c env \<Rightarrow> 'c disp \<Rightarrow> aid \<Rightarrow> 'c post_packet \<Rightarrow> i32 \<times> byte list" where
  "sent_to E s b x =
     post_bytes E s (pk_from x) (case deref_info s (pk_from x) of None \<Rightarrow> [] | Some i \<Rightarrow> ai_name i)
       (pk_name x) (pk_type x) (pk_args x) (if net_order E s b then CAPS_FLAG_NET_BYTEORDER (caps E) else 0)"

text \<open>A post the service accepts: its sender is a registered client, the object is a valid post, and the
  message made of it fits the service's buffer in both byte orders.\<close>

definition postable :: "'c env \<Rightarrow> 'c disp \<Rightarrow> 'c post_packet \<Rightarrow> bool" where
  "postable E s x \<longleftrightarrow>
     (case deref_info s (pk_from x) of
        None \<Rightarrow> False
      | Some i \<Rightarrow>
          \<not> is_monitor (ai_flags i) \<and> is_valid_msgtype (pk_type x) \<and> pk_name x \<noteq> [] \<and>
          (case read_i32 (caps E) (pk_caps x) of
             (cmd, c) \<Rightarrow> cmd = Some CMD_POST_REQ \<and> req_parse_post (caps E) c = Some (pk_name x, pk_type x, pk_args x)) \<and>
          (\<forall>fl\<in>{0, CAPS_FLAG_NET_BYTEORDER (caps E)}.
             0 \<le> sint (fst (post_bytes E s (pk_from x) (ai_name i) (pk_name x) (pk_type x) (pk_args x) fl))))"

lemma filter_one_sent:
  "distinct xs \<Longrightarrow> filter (\<lambda>w. fst w = b) (map (\<lambda>x. (x, m)) (filter P xs)) = (if b \<in> set xs \<and> P b then [(b, m)] else [])"
  by (induction xs) auto

lemma quiet_sent:
  assumes "quiet s (t\<lparr>subscriptions := subscriptions s\<rparr>)"
  shows "deref_info t = deref_info s" "tag (heap t a) = tag (heap s a)" "d_buf_size t = d_buf_size s"
    "net_order E t = net_order E s" "alive t = alive s" "closed (heap s a) \<Longrightarrow> closed (heap t a)"
proof -
  note q = quiet_simps [OF assms]
  have "deref_info (t\<lparr>subscriptions := x\<rparr>) = deref_info t" "alive (t\<lparr>subscriptions := x\<rparr>) = alive t" for x
    by (simp_all add: fun_eq_iff deref_info_def alive_def split: info_ptr.split)
  with q show "deref_info t = deref_info s" "alive t = alive s" by simp_all
  from q show "tag (heap t a) = tag (heap s a)" "d_buf_size t = d_buf_size s" "net_order E t = net_order E s"
    by (simp_all add: net_order_def fun_eq_iff)
  show "closed (heap s a) \<Longrightarrow> closed (heap t a)" using quiet_fields(17) [OF assms] by simp
qed

text \<open>A connection on which no write fails stays open.\<close>

definition never_fails :: "'c env \<Rightarrow> aid \<Rightarrow> bool" where
  "never_fails E b \<longleftrightarrow> (\<forall>log n d. \<exists>k. kern E log b n d = SysRet k)"

lemma write_to_stays_open:
  assumes "never_fails E b" and "\<not> closed (heap s b)"
  shows "\<not> closed (heap (snd (write_to E a m s)) b)"
proof (cases "a = b")
  case True
  obtain k where "kern E (iolog s) b (fst m) (snd m) = SysRet k" using assms(1) unfolding never_fails_def by metis
  with True assms(2) show ?thesis by (auto simp: write_to_def adapter_write_def Let_def split: option.split)
qed (use assms(2) in \<open>simp add: write_to_other\<close>)

lemma iterate_invariant:
  assumes "\<And>x s t. f x s = Some t \<Longrightarrow> P s \<Longrightarrow> P t"
  shows "iterate f xs s = Some t \<Longrightarrow> P s \<Longrightarrow> P t"
proof (induction xs arbitrary: s)
  case (Cons x xs)
  then obtain u where "f x s = Some u" "iterate f xs u = Some t" by (auto simp: bind_eq_Some)
  with Cons assms show ?case by blast
qed simp

lemma post_stays_open:
  assumes "never_fails E b"
    and "post_to_subscribers E name type args sender cn s = Some t" and "\<not> closed (heap s b)"
  shows "\<not> closed (heap t b)"
proof -
  have w: "\<not> closed (heap v b)" if "write_post_msg_to E m a u = Some v" "\<not> closed (heap u b)" for a m u v
    using that write_to_stays_open [OF assms(1), of u a m]
    by (auto simp: write_post_msg_to_def log_timeout_def split: if_splits prod.splits option.splits)
  have ws: "write_post_msg_to_adapters E name type args tg fl as cn u = Some v \<Longrightarrow> \<not> closed (heap u b) \<Longrightarrow> \<not> closed (heap v b)"
    for as u v tg fl
    using iterate_invariant [of "write_post_msg_to E _" "\<lambda>s. \<not> closed (heap s b)", OF w]
    by (auto simp: write_post_msg_to_adapters_def Let_def split: if_splits)
  show ?thesis using assms(2,3)
    by (auto simp: post_to_subscribers_def Let_def bind_eq_Some split: option.splits prod.splits if_splits dest!: ws)
qed

lemma handle_post_step:
  assumes inv: "disp_inv s" and x: "postable E s x"
  obtains t ws where "handle_post E x s = Some t" "disp_inv t" "postable E t = postable E s" "sent_to E t = sent_to E s"
    "writes (iolog t) = writes (iolog s) @ ws"
    "filter (\<lambda>w. fst w = b) ws = (if b \<in> set (live s (pk_name x)) then [(b, sent_to E s b x)] else [])"
    "\<And>n. b \<in> set (live t n) \<longleftrightarrow> b \<in> set (live s n) \<and> \<not> closed (heap t b)"
    "closed (heap s b) \<Longrightarrow> closed (heap t b)"
    "never_fails E b \<Longrightarrow> \<not> closed (heap s b) \<Longrightarrow> \<not> closed (heap t b)"
proof -
  from x obtain i c where i: "deref_info s (pk_from x) = Some i" "\<not> is_monitor (ai_flags i)"
    and p: "read_i32 (caps E) (pk_caps x) = (Some CMD_POST_REQ, c)"
      "req_parse_post (caps E) c = Some (pk_name x, pk_type x, pk_args x)"
    and v: "is_valid_msgtype (pk_type x)" "pk_name x \<noteq> []"
    and fits: "\<And>fl. fl \<in> {0, CAPS_FLAG_NET_BYTEORDER (caps E)} \<Longrightarrow>
      0 \<le> sint (fst (post_bytes E s (pk_from x) (ai_name i) (pk_name x) (pk_type x) (pk_args x) fl))"
    by (auto simp: postable_def split: option.splits prod.splits)
  let ?m = "\<lambda>fl. post_bytes E s (pk_from x) (ai_name i) (pk_name x) (pk_type x) (pk_args x) fl"
  let ?n = "CAPS_FLAG_NET_BYTEORDER (caps E)"
  define ws where "ws = map (\<lambda>b. (b, ?m 0)) (filter (\<lambda>b. \<not> net_order E s b) (live s (pk_name x))) @
      map (\<lambda>b. (b, ?m ?n)) (filter (net_order E s) (live s (pk_name x)))"
  from post_to_subscribers_delivers [OF inv refl _ refl, of E "pk_from x" "ai_name i" "pk_name x" "pk_type x" "pk_args x"] fits
  obtain t0 where t0: "post_to_subscribers E (pk_name x) (pk_type x) (pk_args x) (Some (pk_from x)) (c_str (ai_name i)) s = Some t0"
      "writes (iolog t0) = writes (iolog s) @ ws"
      "map_of (subscriptions t0) = (map_of (subscriptions s))
        (pk_name x := if live s (pk_name x) = [] then None else Some (live s (pk_name x)))"
      "quiet s (t0\<lparr>subscriptions := subscriptions s\<rparr>)" by (auto simp: ws_def)
  define t where "t = (if pk_type x = FLORA_MSGTYPE_PERSIST
    then t0\<lparr>persist_msgs := map_put (pk_name x) (pk_args x) (persist_msgs t0)\<rparr> else t0)\<lparr>handle_cmd_tp := snd (pk_times x)\<rparr>"
  have hi: "has_info s (pk_from x)" using i by (auto simp: deref_info_def has_info_def split: if_splits)
  have pm: "post_msg E (pk_name x) (pk_type x) (pk_args x) (Some (pk_from x)) s =
      Some (True, if pk_type x = FLORA_MSGTYPE_PERSIST
        then t0\<lparr>persist_msgs := map_put (pk_name x) (pk_args x) (persist_msgs t0)\<rparr> else t0)"
    using i v t0(1) by (simp add: post_msg_def)
  have h: "handle_post E x s = Some t"
    using hi i p pm by (simp add: handle_post_def handle_cmd_def dispatch_cmd_def flora_consts msg_handlers_def
      handle_post_req_def t_def)
  have same: "heap t = heap t0" "deref_info t = deref_info t0" "d_buf_size t = d_buf_size t0" "alive t = alive t0"
      "net_order E t = net_order E t0" "subscriptions t = subscriptions t0" "iolog t = iolog t0"
    by (simp_all add: t_def fun_eq_iff deref_info_def alive_def net_order_def split: info_ptr.split)
  note q = quiet_sent [OF t0(4)]
  have d: "distinct (live s (pk_name x))"
    using disp_invD(4) [OF inv] by (auto simp: live_def subscribers_def subs_ok_def split: option.split)
  have pb: "post_bytes E t = post_bytes E s" by (simp add: fun_eq_iff post_bytes_def same q)
  have k: "keeps s t0" "persist_msgs t0 = persist_msgs s"
    using post_to_subscribers_keeps [OF inv] t0(1) by (metis option.inject)+
  have "disp_inv (t0\<lparr>persist_msgs := map_put (pk_name x) (pk_args x) (persist_msgs t0)\<rparr>)"
    using k inv by (intro inv_persist) (simp_all add: keeps_def disp_inv_def maps_ok_def smap.inv_put)
  show ?thesis
  proof (rule that [OF h])
    show "disp_inv t" using k(1) \<open>disp_inv (_\<lparr>persist_msgs := _\<rparr>)\<close> by (auto simp: t_def keeps_def inv_counters)
    show "postable E t = postable E s" unfolding postable_def [abs_def] same q pb ..
    show "sent_to E t = sent_to E s" unfolding sent_to_def [abs_def] same q pb ..
    show "writes (iolog t) = writes (iolog s) @ ws" by (simp add: same t0(2))
    show "filter (\<lambda>w. fst w = b) ws = (if b \<in> set (live s (pk_name x)) then [(b, sent_to E s b x)] else [])"
      using d by (simp add: ws_def filter_one_sent sent_to_def i)
    show "b \<in> set (live t n) \<longleftrightarrow> b \<in> set (live s n) \<and> \<not> closed (heap t b)" for n
      using q(6) by (auto simp: live_def subscribers_def same q t0(3) filter_empty_conv split: option.splits)
    show "closed (heap s b) \<Longrightarrow> closed (heap t b)" using q(6) by (simp add: same)
    show "never_fails E b \<Longrightarrow> \<not> closed (heap s b) \<Longrightarrow> \<not> closed (heap t b)"
      using post_stays_open [OF _ t0(1)] by (simp add: same)
  qed
qed

section \<open>Many posts\<close>

text \<open>The posts subscriber \<open>b\<close> is to get.\<close>

definition due_to :: "'c disp \<Rightarrow> aid \<Rightarrow> 'c post_packet list \<Rightarrow> 'c post_packet list" where
  "due_to s b xs = filter (\<lambda>x. b \<in> set (live s (pk_name x))) xs"

lemma handle_posts:
  assumes "disp_inv s" and "\<forall>x\<in>set xs. postable E s x"
  shows "\<exists>t ws ys. iterate (handle_post E) xs s = Some t \<and> writes (iolog t) = writes (iolog s) @ ws \<and>
    filter (\<lambda>w. fst w = b) ws = map (\<lambda>x. (b, sent_to E s b x)) ys \<and> prefix ys (due_to s b xs) \<and>
    (\<not> closed (heap t b) \<or> never_fails E b \<longrightarrow> ys = due_to s b xs) \<and> (closed (heap s b) \<longrightarrow> closed (heap t b))"
  using assms
proof (induction xs arbitrary: s)
  case Nil
  show ?case by (intro exI [of _ s] exI [of _ "[]"]) (simp add: due_to_def)
next
  case (Cons x xs)
  then have "postable E s x" by simp
  from handle_post_step [OF Cons.prems(1) this, of b] obtain u vs where
    u: "handle_post E x s = Some u" "disp_inv u" "postable E u = postable E s" "sent_to E u = sent_to E s"
      "writes (iolog u) = writes (iolog s) @ vs"
      "filter (\<lambda>w. fst w = b) vs = (if b \<in> set (live s (pk_name x)) then [(b, sent_to E s b x)] else [])"
      "\<And>n. b \<in> set (live u n) \<longleftrightarrow> b \<in> set (live s n) \<and> \<not> closed (heap u b)"
      "closed (heap s b) \<Longrightarrow> closed (heap u b)"
      "never_fails E b \<Longrightarrow> \<not> closed (heap s b) \<Longrightarrow> \<not> closed (heap u b)" by blast
  from Cons.IH [OF u(2)] Cons.prems(2) u(3) obtain t ws ys where
    t: "iterate (handle_post E) xs u = Some t" "writes (iolog t) = writes (iolog u) @ ws"
      "filter (\<lambda>w. fst w = b) ws = map (\<lambda>x. (b, sent_to E u b x)) ys" "prefix ys (due_to u b xs)"
      "\<not> closed (heap t b) \<or> never_fails E b \<longrightarrow> ys = due_to u b xs" "closed (heap u b) \<longrightarrow> closed (heap t b)" by auto
  let ?ys = "(if b \<in> set (live s (pk_name x)) then [x] else []) @ ys"
  have due: "due_to u b xs = (if closed (heap u b) then [] else due_to s b xs)" by (simp add: due_to_def u(7))
  have shut: "due_to s b xs = []" if "closed (heap s b)" using that by (simp add: due_to_def live_def)
  have "prefix ?ys (due_to s b (x # xs)) \<and> (\<not> closed (heap t b) \<or> never_fails E b \<longrightarrow> ?ys = due_to s b (x # xs))"
    using t(4,5,6) due shut u(9) by (cases "closed (heap s b)") (auto simp: due_to_def split: if_splits)
  moreover have "filter (\<lambda>w. fst w = b) (vs @ ws) = map (\<lambda>x. (b, sent_to E s b x)) ?ys"
    using u(4,6) t(3) by simp
  ultimately show ?case using u(1,5,8) t(1,2,6) by (intro exI [of _ t] exI [of _ "vs @ ws"] exI [of _ ?ys]) auto
qed

section \<open>At the subscriber\<close>

text \<open>The call of the application a post leads to.\<close>

definition upcall_of :: "('c \<Rightarrow> member list) \<Rightarrow> 'c disp \<Rightarrow> 'c post_packet \<Rightarrow> 'c upcall \<Rightarrow> bool" where
  "upcall_of content s x u \<longleftrightarrow>
     (\<exists>args. u = UpPost (c_str (pk_name x)) (pk_type x) args (tag (heap s (pk_from x)))
         (case deref_info s (pk_from x) of None \<Rightarrow> [] | Some i \<Rightarrow> c_str (ai_name i)) \<and>
       map_option content args = map_option content (pk_args x))"

lemma c_str_twice [simp]: "c_str (c_str n) = c_str n"
  by (simp add: c_str_def)

lemma frame_delivered:
  assumes "caps_laws C content rest" and "caps E = C" and "ccaps B = C" and "postable E s x"
  shows "\<exists>u. upcall_of content s x u \<and> good_frame C (d_buf_size s) (snd (sent_to E s b x)) \<and>
    (\<forall>q. cmd_handler q = AfterAuth \<and> cli_callback q \<longrightarrow> (\<exists>q'. client_deliver B (snd (sent_to E s b x)) (client_view q) = Some (client_view q') \<and>
       upcalls q' = upcalls q @ [u] \<and> cmd_handler q' = AfterAuth \<and> cli_callback q'))"
proof -
  from assms(4) obtain i where i: "deref_info s (pk_from x) = Some i" by (auto simp: postable_def split: option.splits)
  have fits: "0 \<le> sint (fst (sent_to E s b x))" using assms(4) i by (auto simp: postable_def sent_to_def)
  have e: "resp_serialize_post C (Some (c_str (pk_name x))) (pk_type x) (pk_args x) (tag (heap s (pk_from x)))
      (Some (c_str (ai_name i))) (d_buf_size s) (if net_order E s b then CAPS_FLAG_NET_BYTEORDER C else 0) =
      (fst (sent_to E s b x), snd (sent_to E s b x))"
    using assms(2) by (simp add: sent_to_def post_bytes_def i)
  from parse_post_response [OF assms(1) e fits] obtain c c' args where
    c: "caps_parse C (snd (sent_to E s b x)) = Some c" "read_i32 C c = (Some CMD_POST_RESP, c')"
      "is_frame C (d_buf_size s) (snd (sent_to E s b x))"
      "resp_parse_post C c' = Some (c_str (pk_name x), pk_type x, args, tag (heap s (pk_from x)), c_str (ai_name i))"
      "map_option content args = map_option content (pk_args x)" .
  let ?u = "UpPost (c_str (pk_name x)) (pk_type x) args (tag (heap s (pk_from x))) (c_str (ai_name i))"
  have "\<exists>q'. client_deliver B (snd (sent_to E s b x)) (client_view q) = Some (client_view q') \<and>
      upcalls q' = upcalls q @ [?u] \<and> cmd_handler q' = AfterAuth \<and> cli_callback q'"
    if "cmd_handler q = AfterAuth \<and> cli_callback q" for q
    using deliver_post [of B "snd (sent_to E s b x)" c c' "c_str (pk_name x)" "pk_type x" args "tag (heap s (pk_from x))"
        "c_str (ai_name i)" q] c(1,2,4) that
    by (intro exI [of _ "emit ?u (q\<lparr>cl_tag := tag (heap s (pk_from x)), sender_name := c_str (ai_name i)\<rparr>)"])
      (simp add: assms(3) emit_def)
  with c(1,3,5) i show ?thesis by (intro exI [of _ ?u]) (simp add: upcall_of_def good_frame_def)
qed

lemma frames_delivered:
  assumes "caps_laws C content rest" and "caps E = C" and "ccaps B = C" and "\<forall>x\<in>set ys. postable E s x"
    and "cmd_handler q = AfterAuth" and "cli_callback q"
  shows "\<exists>q' us. iterate (client_deliver B) (map (\<lambda>x. snd (sent_to E s b x)) ys) (client_view q) = Some (client_view q') \<and>
    upcalls q' = upcalls q @ us \<and> list_all2 (upcall_of content s) ys us"
  using assms(4-)
proof (induction ys arbitrary: q)
  case Nil
  show ?case by (intro exI [of _ q] exI [of _ "[]"]) simp
next
  case (Cons x ys)
  then obtain u q1 where u: "upcall_of content s x u"
      "client_deliver B (snd (sent_to E s b x)) (client_view q) = Some (client_view q1)"
      "upcalls q1 = upcalls q @ [u]" "cmd_handler q1 = AfterAuth" "cli_callback q1"
    using frame_delivered [OF assms(1-3), of s x b] by auto
  from Cons.IH [OF _ u(4,5)] Cons.prems(1) obtain q' us where
    "iterate (client_deliver B) (map (\<lambda>x. snd (sent_to E s b x)) ys) (client_view q1) = Some (client_view q')"
    "upcalls q' = upcalls q1 @ us" "list_all2 (upcall_of content s) ys us" by auto
  with u show ?case by (intro exI [of _ q'] exI [of _ "u # us"]) simp
qed

lemma good_frame_mono: "good_frame C sz f \<Longrightarrow> sz \<le> sz' \<Longrightarrow> good_frame C sz' f"
  by (auto simp: good_frame_def is_frame_def split: option.splits)

text \<open>Feeding the client the bytes in any chunks the reads can deliver.\<close>

lemma chunks_delivered:
  assumes "caps_header_law (ccaps B)" and "client_buf_ok sz q" and "rbuf_off q = 0" and "\<forall>f\<in>set fs. good_frame (ccaps B) sz f"
    and "iterate (client_deliver B) fs (client_view q) = Some v"
    and "concat bss = concat fs" and "all_fit (client_chunk B) client_fits bss q"
  shows "\<exists>t. iterate (client_chunk B) bss q = Some t \<and> client_view t = v"
proof (cases fs)
  case Nil
  then have "bss = []" using assms(6,7) by (cases bss) (auto simp: client_fits_def)
  with Nil assms(5) show ?thesis by simp
next
  case (Cons f gs)
  with assms(4) have "is_frame (ccaps B) sz ([] @ f)" "f \<noteq> []" by (auto simp: good_frame_def is_frame_def)
  then have p: "partial (ccaps B) sz []" unfolding partial_def by blast
  have "client_pend q = []" using assms(3) by (simp add: client_pend_def)
  with cli.feed_frames [OF assms(1,2) _ assms(7) _ assms(4) p assms(5)] p assms(6) show ?thesis by auto
qed

text \<open>C4: Messages keep their order. Let the service handle a sequence of valid posts, of one or of several
  clients. Then every post is handled, and what is written to a subscriber are the posts of the names it
  is subscribed to, in the order in which they were handled and without gaps: all of them if no write to it
  fails, or if its connection is still open at the end, and the first ones if it was closed on the way. However the bytes are cut into chunks
  on their way, the subscriber's client calls its application once for each of these posts, in the same
  order, with the name, the type and the content posted and the identity of the poster.\<close>

theorem posts_in_order:
  assumes laws: "caps_laws C content rest" and same: "caps E = C" "ccaps B = C"
    and s: "disp_inv s" "\<forall>x\<in>set xs. postable E s x"
    and q: "client_buf_ok sz q" "rbuf_off q = 0" "cmd_handler q = AfterAuth" "cli_callback q" "d_buf_size s \<le> sz"
  shows "\<exists>t ws ys. iterate (handle_post E) xs s = Some t \<and> writes (iolog t) = writes (iolog s) @ ws \<and>
    prefix ys (due_to s b xs) \<and> (\<not> closed (heap t b) \<or> never_fails E b \<longrightarrow> ys = due_to s b xs) \<and>
    (\<forall>bss. concat bss = concat (map (snd \<circ> snd) (filter (\<lambda>w. fst w = b) ws)) \<and> all_fit (client_chunk B) client_fits bss q \<longrightarrow>
      (\<exists>q' us. iterate (client_chunk B) bss q = Some q' \<and> upcalls q' = upcalls q @ us \<and> list_all2 (upcall_of content s) ys us))"
proof -
  from handle_posts [OF s, of b] obtain t ws ys where
    t: "iterate (handle_post E) xs s = Some t" "writes (iolog t) = writes (iolog s) @ ws" "prefix ys (due_to s b xs)"
      "\<not> closed (heap t b) \<or> never_fails E b \<longrightarrow> ys = due_to s b xs" "filter (\<lambda>w. fst w = b) ws = map (\<lambda>x. (b, sent_to E s b x)) ys" by blast
  let ?fs = "map (\<lambda>x. snd (sent_to E s b x)) ys"
  have ys: "\<forall>x\<in>set ys. postable E s x" using set_mono_prefix [OF t(3)] s(2) by (auto simp: due_to_def)
  from frames_delivered [OF laws same ys q(3,4)] obtain v us where
    v: "iterate (client_deliver B) ?fs (client_view q) = Some (client_view v)" "upcalls v = upcalls q @ us"
      "list_all2 (upcall_of content s) ys us" by blast
  have h: "caps_header_law (ccaps B)" using laws same(2) by (simp add: caps_laws_def caps_wire_laws_def)
  have "good_frame C sz (snd (sent_to E s b x))" if "x \<in> set ys" for x
    using frame_delivered [OF laws same, of s x b] ys that good_frame_mono [OF _ q(5)] by blast
  then have "\<forall>f\<in>set ?fs. good_frame (ccaps B) sz f" using same(2) by simp
  note c = chunks_delivered [OF h q(1,2) this v(1)]
  have u: "upcalls q' = upcalls v" if "client_view q' = client_view v" for q'
    using arg_cong [OF that, of upcalls] by (simp add: client_view_def with_buf_def)
  have e: "map (snd \<circ> snd) (filter (\<lambda>w. fst w = b) ws) = ?fs" by (simp add: t(5))
  have "\<exists>q' us. iterate (client_chunk B) bss q = Some q' \<and> upcalls q' = upcalls q @ us \<and> list_all2 (upcall_of content s) ys us"
    if "concat bss = concat ?fs \<and> all_fit (client_chunk B) client_fits bss q" for bss
    using c [of bss] that u v(2,3) by metis
  with t(1-4) show ?thesis unfolding e [symmetric] by blast
qed

text \<open>Two posts of client 2 to a subscriber, client 1, whose client reads both in one chunk.\<close>

definition order_client :: "ref_caps client" where
  "order_client = (new_Client (default_options\<lparr>bufsize := 65536\<rparr>))
     \<lparr>connection := Some \<lparr>sock = 3, recv_timeout = 0, sock_ready = True, conn_io = []\<rparr>, cli_callback := True, cmd_handler := AfterAuth\<rparr>"

lemma order_packet:
  obtains x where "postable e2e_env e2e_disp x" "pk_name x = ''t''"
proof -
  let ?m = "req_serialize_post ref_ops (Some ''t'') 0 None 64 0"
  have "0 \<le> sint (fst ?m)"
    using ref_request_nonneg [of "Post ''t'' 0 None" 64 0] by simp
  from parse_post_request [OF ref_laws prod.collapse [symmetric] this] obtain c c' args where
    c: "caps_parse ref_ops (snd ?m) = Some c" "read_i32 ref_ops c = (Some CMD_POST_REQ, c')"
      "req_parse_post ref_ops c' = Some (''t'', 0, args)" "map_option members args = map_option members (None :: ref_caps option)" .
  let ?x = "\<lparr>pk_times = (5, 6), pk_from = 2, pk_caps = c, pk_name = ''t'', pk_type = 0, pk_args = None\<rparr>"
  have i: "deref_info e2e_disp 2 = Some (e2e_info 2 ''b'')" "\<not> is_monitor (ai_flags (e2e_info 2 ''b''))"
    by (simp_all add: e2e_disp_def deref_info_def e2e_info_def is_monitor_def flora_consts)
  have e: "caps e2e_env = ref_ops" by (simp add: e2e_env_def)
  have "postable e2e_env e2e_disp ?x"
    unfolding postable_def using c i e2e_fits
    by (simp add: e is_valid_msgtype_def flora_consts)
  then show ?thesis using that by simp
qed

lemma order_frame_fits: "postable e2e_env e2e_disp x \<Longrightarrow> 8 \<le> length (snd (sent_to e2e_env e2e_disp b x)) \<and>
    length (snd (sent_to e2e_env e2e_disp b x)) \<le> 32768"
proof -
  assume "postable e2e_env e2e_disp x"
  from frame_delivered [OF ref_laws _ _ this, of e2e_cenv b]
  have "is_frame ref_ops (d_buf_size e2e_disp) (snd (sent_to e2e_env e2e_disp b x))"
    by (auto simp: e2e_env_def e2e_cenv_def good_frame_def)
  moreover have "d_buf_size e2e_disp = 32768" by (simp add: e2e_disp_def new_Dispatcher_def flora_consts)
  ultimately show ?thesis by (auto simp: is_frame_def word_le_nat_alt split: option.splits)
qed

theorem posts_in_order_witness:
  "\<exists>x t bs q' u v. pk_name x = ''t'' \<and> iterate (handle_post e2e_env) [x, x] e2e_disp = Some t \<and>
     client_chunk e2e_cenv bs order_client = Some q' \<and> upcalls q' = [u, v] \<and>
     upcall_of members e2e_disp x u \<and> upcall_of members e2e_disp x v"
proof -
  obtain x where x: "postable e2e_env e2e_disp x" "pk_name x = ''t''" by (rule order_packet)
  have q: "client_buf_ok 65536 order_client" "rbuf_off order_client = 0" "cmd_handler order_client = AfterAuth"
      "cli_callback order_client" "d_buf_size e2e_disp \<le> 65536" "upcalls order_client = []" "bufsize (options order_client) = 65536"
    by (simp_all add: client_buf_ok_def order_client_def new_Client_def is_closed_def conn_closed_def e2e_disp_def new_Dispatcher_def flora_consts)
  have due: "due_to e2e_disp 1 [x, x] = [x, x]"
    using x(2) by (simp add: due_to_def live_def subscribers_def e2e_disp_def alive_def demo_ad_def new_SocketAdapter_def closed_def)
  have nf: "never_fails e2e_env 1" by (simp add: never_fails_def e2e_env_def)
  have same: "caps e2e_env = ref_ops" "ccaps e2e_cenv = ref_ops" by (simp_all add: e2e_env_def e2e_cenv_def)
  have xs: "\<forall>y\<in>set [x, x]. postable e2e_env e2e_disp y" using x(1) by simp
  from handle_posts [OF e2e_inv xs, of 1] nf due obtain t' ws' where
    w: "iterate (handle_post e2e_env) [x, x] e2e_disp = Some t'" "writes (iolog t') = writes (iolog e2e_disp) @ ws'"
      "filter (\<lambda>w. fst w = 1) ws' = map (\<lambda>x. (1, sent_to e2e_env e2e_disp 1 x)) [x, x]" by auto
  from posts_in_order [OF ref_laws same e2e_inv xs q(1-5), of 1] nf due obtain t ws where
    t: "iterate (handle_post e2e_env) [x, x] e2e_disp = Some t" "writes (iolog t) = writes (iolog e2e_disp) @ ws"
      "\<forall>bss. concat bss = concat (map (snd \<circ> snd) (filter (\<lambda>w. fst w = 1) ws)) \<and>
        all_fit (client_chunk e2e_cenv) client_fits bss order_client \<longrightarrow>
        (\<exists>q' us. iterate (client_chunk e2e_cenv) bss order_client = Some q' \<and> upcalls q' = upcalls order_client @ us \<and>
          list_all2 (upcall_of members e2e_disp) [x, x] us)" by auto
  define bs where "bs = snd (sent_to e2e_env e2e_disp 1 x) @ snd (sent_to e2e_env e2e_disp 1 x)"
  have "ws' = ws" using w(1,2) t(1,2) by simp
  then have e: "concat (map (snd \<circ> snd) (filter (\<lambda>w. fst w = 1) ws)) = bs" using w(3) by (simp add: bs_def)
  have f: "all_fit (client_chunk e2e_cenv) client_fits [bs] order_client"
    using order_frame_fits [OF x(1), of 1] q(2,7) by (auto simp: client_fits_def bs_def split: option.split)
  have "concat [bs] = concat (map (snd \<circ> snd) (filter (\<lambda>w. fst w = 1) ws)) \<and>
      all_fit (client_chunk e2e_cenv) client_fits [bs] order_client" using e f by simp
  from t(3) [rule_format, OF this] obtain q' us where
    r: "iterate (client_chunk e2e_cenv) [bs] order_client = Some q'" "upcalls q' = upcalls order_client @ us"
      "list_all2 (upcall_of members e2e_disp) [x, x] us" by blast
  from r(3) obtain u v where us: "us = [u, v]" "upcall_of members e2e_disp x u" "upcall_of members e2e_disp x v"
    by (auto simp: list_all2_Cons1)
  have "client_chunk e2e_cenv bs order_client = Some q'" "upcalls q' = [u, v]"
    using r(1,2) us(1) q(6) by (auto simp: bind_eq_Some)
  with t(1) x(2) us(2,3) show ?thesis by blast
qed

end
