(* ===== verification/JniCaps.thy ===== *)
theory JniCaps
  imports Protocol
begin

text \<open>
  The Java binding of Caps objects: the native functions of \<open>android/jni/com_rokid_flora_Caps.cpp\<close> and the
  class \<open>Caps.java\<close> that calls them. A Java object keeps the address of a \<open>CapsNativeHandle\<close>, which keeps a
  shared pointer to the Caps object. \<open>None\<close> is undefined behaviour: a handle that is not allocated, a null
  \<open>shared_ptr\<close>, or a JNI function called with arguments it does not allow. The Caps library is a parameter.
\<close>

section \<open>Java values\<close>

text \<open>The classes that carry the result of a read; each has one field, \<open>value\<close>.\<close>

datatype value_class = IntegerValue | FloatValue | LongValue | DoubleValue | StringValue | BinaryValue | CapsValue

text \<open>Floating-point numbers are passed on as their bits; a \<open>String\<close> is its modified UTF-8 encoding, which has
  no NUL; \<open>JHandle\<close> is a \<open>long\<close> that holds an address.\<close>

datatype jvalue = JInt i32 | JFloat u32 | JLong u64 | JDouble u64 | JString string | JBytes "byte list" | JHandle nat

fun sig_of :: "value_class \<Rightarrow> string" where
  "sig_of IntegerValue = ''I''"
| "sig_of FloatValue = ''F''"
| "sig_of LongValue = ''J''"
| "sig_of DoubleValue = ''D''"
| "sig_of StringValue = ''Ljava/lang/String;''"
| "sig_of BinaryValue = ''[B''"
| "sig_of CapsValue = ''J''"

fun val_sig :: "jvalue \<Rightarrow> string" where
  "val_sig (JInt _) = ''I''"
| "val_sig (JFloat _) = ''F''"
| "val_sig (JLong _) = ''J''"
| "val_sig (JDouble _) = ''D''"
| "val_sig (JString _) = ''Ljava/lang/String;''"
| "val_sig (JBytes _) = ''[B''"
| "val_sig (JHandle _) = ''J''"

record jobject =
  jo_class :: value_class
  jo_value :: "jvalue option"

text \<open>\<open>GetFieldID\<close> gives an id of the field of that class, or null; \<open>Set<Type>Field\<close> requires an id of a field
  of the object's class with the type of the value.\<close>

definition get_field_id :: "value_class \<Rightarrow> string \<Rightarrow> string \<Rightarrow> value_class option" where
  "get_field_id cls name sg = (if name = ''value'' \<and> sig_of cls = sg then Some cls else None)"

definition set_field :: "value_class option \<Rightarrow> jvalue \<Rightarrow> jobject \<Rightarrow> jobject option" where
  "set_field fid v obj =
     (case fid of
        None \<Rightarrow> None
      | Some cls \<Rightarrow> if cls = jo_class obj \<and> val_sig v = sig_of cls then Some (obj\<lparr>jo_value := Some v\<rparr>) else None)"

section \<open>The native functions\<close>

record 'c jcaps_ops =
  jc_new :: 'c
  jc_write_i32 :: "i32 \<Rightarrow> 'c \<Rightarrow> i32 \<times> 'c"
  jc_write_float :: "u32 \<Rightarrow> 'c \<Rightarrow> i32 \<times> 'c"
  jc_write_i64 :: "u64 \<Rightarrow> 'c \<Rightarrow> i32 \<times> 'c"
  jc_write_double :: "u64 \<Rightarrow> 'c \<Rightarrow> i32 \<times> 'c"
  jc_write_cstr :: "string option \<Rightarrow> 'c \<Rightarrow> i32 \<times> 'c"
  jc_write_binary :: "byte list option \<Rightarrow> 'c \<Rightarrow> i32 \<times> 'c"  \<comment> \<open>data and length; \<open>None\<close>: null and 0\<close>
  jc_write_caps :: "nat option \<Rightarrow> 'c \<Rightarrow> i32 \<times> 'c"  \<comment> \<open>the shared pointer, not a copy\<close>
  jc_read_i32 :: "'c \<Rightarrow> (i32 \<times> i32) \<times> 'c"  \<comment> \<open>code and value\<close>
  jc_read_float :: "'c \<Rightarrow> (i32 \<times> u32) \<times> 'c"
  jc_read_i64 :: "'c \<Rightarrow> (i32 \<times> u64) \<times> 'c"
  jc_read_double :: "'c \<Rightarrow> (i32 \<times> u64) \<times> 'c"
  jc_read_string :: "'c \<Rightarrow> (i32 \<times> string) \<times> 'c"
  jc_read_binary :: "'c \<Rightarrow> (i32 \<times> byte list) \<times> 'c"
  jc_read_caps :: "'c \<Rightarrow> (i32 \<times> 'c option) \<times> 'c"

definition CAPS_SUCCESS :: i32 where [flora_consts]: "CAPS_SUCCESS = 0"
definition CAPS_ERR_INVAL :: i32 where [flora_consts]: "CAPS_ERR_INVAL = - 1"

definition JAVA_FIELD_INTEGER_VALUE :: nat where [flora_consts]: "JAVA_FIELD_INTEGER_VALUE = 0"
definition JAVA_FIELD_FLOAT_VALUE :: nat where [flora_consts]: "JAVA_FIELD_FLOAT_VALUE = 1"
definition JAVA_FIELD_LONG_VALUE :: nat where [flora_consts]: "JAVA_FIELD_LONG_VALUE = 2"
definition JAVA_FIELD_DOUBLE_VALUE :: nat where [flora_consts]: "JAVA_FIELD_DOUBLE_VALUE = 3"
definition JAVA_FIELD_STRING_VALUE :: nat where [flora_consts]: "JAVA_FIELD_STRING_VALUE = 4"
definition JAVA_FIELD_BINARY_VALUE :: nat where [flora_consts]: "JAVA_FIELD_BINARY_VALUE = 5"
definition JAVA_FIELD_CAPS_VALUE :: nat where [flora_consts]: "JAVA_FIELD_CAPS_VALUE = 6"
definition JAVA_FIELD_NUMBER :: nat where [flora_consts]: "JAVA_FIELD_NUMBER = 7"

text \<open>The native side: the Caps objects, the allocated handles with their pointers, and the field ids. Address
  0 is null; addresses are not reused, so that a use after \<open>delete\<close> is seen.\<close>

record 'c jni =
  j_objs :: "nat \<Rightarrow> 'c"
  j_next_obj :: nat
  j_handles :: "nat \<Rightarrow> nat option option"
  j_next_handle :: nat
  java_fields :: "value_class option list"

definition native_init :: "value_class list \<Rightarrow> 'c jni \<Rightarrow> 'c jni" where
  "native_init classes s =
     (if length classes \<noteq> JAVA_FIELD_NUMBER then s
      else s\<lparr>java_fields := [get_field_id (classes ! 0) ''value'' ''I'', get_field_id (classes ! 1) ''value'' ''F'',
             get_field_id (classes ! 2) ''value'' ''J'', get_field_id (classes ! 3) ''value'' ''D'',
             get_field_id (classes ! 4) ''value'' ''Ljava/lang/String;'', get_field_id (classes ! 5) ''value'' ''[B'',
             get_field_id (classes ! 6) ''value'' ''J'']\<rparr>)"

text \<open>\<open>new CapsNativeHandle()\<close> with a pointer to a new object, or a null pointer.\<close>

definition new_handle :: "'c option \<Rightarrow> 'c jni \<Rightarrow> nat \<times> 'c jni" where
  "new_handle c s =
     (case c of
        None \<Rightarrow> (j_next_handle s, s\<lparr>j_handles := (j_handles s)(j_next_handle s := Some None), j_next_handle := Suc (j_next_handle s)\<rparr>)
      | Some c \<Rightarrow>
          (j_next_handle s,
           s\<lparr>j_objs := (j_objs s)(j_next_obj s := c), j_next_obj := Suc (j_next_obj s),
             j_handles := (j_handles s)(j_next_handle s := Some (Some (j_next_obj s))),
             j_next_handle := Suc (j_next_handle s)\<rparr>))"

definition native_create :: "'c jcaps_ops \<Rightarrow> 'c jni \<Rightarrow> nat \<times> 'c jni" where
  "native_create C s = new_handle (Some (jc_new C)) s"

definition native_destroy :: "nat \<Rightarrow> 'c jni \<Rightarrow> 'c jni option" where
  "native_destroy h s =
     (if h = 0 then Some s
      else if j_handles s h = None then None
      else Some (s\<lparr>j_handles := (j_handles s)(h := None)\<rparr>))"

text \<open>\<open>handle->caps->f\<close>\<close>

definition with_caps :: "nat \<Rightarrow> ('c \<Rightarrow> 'r \<times> 'c) \<Rightarrow> 'c jni \<Rightarrow> ('r \<times> 'c jni) option" where
  "with_caps h f s =
     (case j_handles s h of
        Some (Some k) \<Rightarrow> (let (r, c) = f (j_objs s k) in Some (r, s\<lparr>j_objs := (j_objs s)(k := c)\<rparr>))
      | _ \<Rightarrow> None)"

definition native_write_integer :: "'c jcaps_ops \<Rightarrow> nat \<Rightarrow> i32 \<Rightarrow> 'c jni \<Rightarrow> (i32 \<times> 'c jni) option" where
  "native_write_integer C h v = with_caps h (jc_write_i32 C v)"

definition native_write_float :: "'c jcaps_ops \<Rightarrow> nat \<Rightarrow> u32 \<Rightarrow> 'c jni \<Rightarrow> (i32 \<times> 'c jni) option" where
  "native_write_float C h v = with_caps h (jc_write_float C v)"

definition native_write_long :: "'c jcaps_ops \<Rightarrow> nat \<Rightarrow> u64 \<Rightarrow> 'c jni \<Rightarrow> (i32 \<times> 'c jni) option" where
  "native_write_long C h v = with_caps h (jc_write_i64 C v)"

definition native_write_double :: "'c jcaps_ops \<Rightarrow> nat \<Rightarrow> u64 \<Rightarrow> 'c jni \<Rightarrow> (i32 \<times> 'c jni) option" where
  "native_write_double C h v = with_caps h (jc_write_double C v)"

definition native_write_string :: "'c jcaps_ops \<Rightarrow> nat \<Rightarrow> string option \<Rightarrow> 'c jni \<Rightarrow> (i32 \<times> 'c jni) option" where
  "native_write_string C h v = with_caps h (jc_write_cstr C (map_option c_str v))"

text \<open>\<open>GetByteArrayRegion\<close> leaves the new array uninitialised when the range is not one of the Java array.\<close>

definition native_write_binary ::
  "'c jcaps_ops \<Rightarrow> nat \<Rightarrow> byte list option \<Rightarrow> i32 \<Rightarrow> i32 \<Rightarrow> 'c jni \<Rightarrow> (i32 \<times> 'c jni) option" where
  "native_write_binary C h v off len s =
     (case v of
        None \<Rightarrow> with_caps h (jc_write_binary C None) s
      | Some bs \<Rightarrow>
          if 0 \<le> sint off \<and> 0 \<le> sint len \<and> sint off + sint len \<le> int (length bs)
          then with_caps h (jc_write_binary C (Some (take (nat (sint len)) (drop (nat (sint off)) bs)))) s
          else None)"

definition native_write_caps :: "'c jcaps_ops \<Rightarrow> nat \<Rightarrow> nat \<Rightarrow> 'c jni \<Rightarrow> (i32 \<times> 'c jni) option" where
  "native_write_caps C h v s =
     (if v = 0 then with_caps h (jc_write_caps C None) s
      else
        (case j_handles s v of
           None \<Rightarrow> None
         | Some sub \<Rightarrow> with_caps h (jc_write_caps C sub) s))"

text \<open>A read, and the result object's field set if it succeeded.\<close>

definition read_into ::
  "nat \<Rightarrow> ('v \<Rightarrow> 'c jni \<Rightarrow> jvalue \<times> 'c jni) \<Rightarrow> ('c \<Rightarrow> (i32 \<times> 'v) \<times> 'c) \<Rightarrow> nat \<Rightarrow> jobject \<Rightarrow> 'c jni \<Rightarrow>
   (i32 \<times> jobject \<times> 'c jni) option" where
  "read_into fid mk rd h res s =
     Option.bind (with_caps h rd s) (\<lambda>((r, v), s).
       if r = CAPS_SUCCESS
       then (let (jv, s) = mk v s in map_option (\<lambda>res. (r, res, s)) (set_field (java_fields s ! fid) jv res))
       else Some (r, res, s))"

definition native_read_integer :: "'c jcaps_ops \<Rightarrow> nat \<Rightarrow> jobject \<Rightarrow> 'c jni \<Rightarrow> (i32 \<times> jobject \<times> 'c jni) option" where
  "native_read_integer C = read_into JAVA_FIELD_INTEGER_VALUE (\<lambda>v. Pair (JInt v)) (jc_read_i32 C)"

definition native_read_float :: "'c jcaps_ops \<Rightarrow> nat \<Rightarrow> jobject \<Rightarrow> 'c jni \<Rightarrow> (i32 \<times> jobject \<times> 'c jni) option" where
  "native_read_float C = read_into JAVA_FIELD_FLOAT_VALUE (\<lambda>v. Pair (JFloat v)) (jc_read_float C)"

definition native_read_long :: "'c jcaps_ops \<Rightarrow> nat \<Rightarrow> jobject \<Rightarrow> 'c jni \<Rightarrow> (i32 \<times> jobject \<times> 'c jni) option" where
  "native_read_long C = read_into JAVA_FIELD_LONG_VALUE (\<lambda>v. Pair (JLong v)) (jc_read_i64 C)"

definition native_read_double :: "'c jcaps_ops \<Rightarrow> nat \<Rightarrow> jobject \<Rightarrow> 'c jni \<Rightarrow> (i32 \<times> jobject \<times> 'c jni) option" where
  "native_read_double C = read_into JAVA_FIELD_DOUBLE_VALUE (\<lambda>v. Pair (JDouble v)) (jc_read_double C)"

definition native_read_string :: "'c jcaps_ops \<Rightarrow> nat \<Rightarrow> jobject \<Rightarrow> 'c jni \<Rightarrow> (i32 \<times> jobject \<times> 'c jni) option" where
  "native_read_string C = read_into JAVA_FIELD_STRING_VALUE (\<lambda>v. Pair (JString (c_str v))) (jc_read_string C)"

definition native_read_binary :: "'c jcaps_ops \<Rightarrow> nat \<Rightarrow> jobject \<Rightarrow> 'c jni \<Rightarrow> (i32 \<times> jobject \<times> 'c jni) option" where
  "native_read_binary C = read_into JAVA_FIELD_BINARY_VALUE (\<lambda>v. Pair (JBytes v)) (jc_read_binary C)"

text \<open>The id used here is that of \<open>LongValue\<close>.\<close>

definition native_read_caps :: "'c jcaps_ops \<Rightarrow> nat \<Rightarrow> jobject \<Rightarrow> 'c jni \<Rightarrow> (i32 \<times> jobject \<times> 'c jni) option" where
  "native_read_caps C = read_into JAVA_FIELD_LONG_VALUE (\<lambda>v s. apfst JHandle (new_handle v s)) (jc_read_caps C)"

text \<open>The handles made and used by \<open>com_rokid_flora_Client.cpp\<close> for messages: one for a message that arrives, and
  the assignment of one handle's pointer to another.\<close>

definition recv_post_handle :: "'c option \<Rightarrow> 'c jni \<Rightarrow> nat \<times> 'c jni" where
  "recv_post_handle msg s = new_handle msg s"

definition native_set_pointer :: "nat \<Rightarrow> nat \<Rightarrow> 'c jni \<Rightarrow> 'c jni option" where
  "native_set_pointer src dst s =
     (case (j_handles s src, j_handles s dst) of
        (Some p, Some _) \<Rightarrow> Some (s\<lparr>j_handles := (j_handles s)(dst := Some p)\<rparr>)
      | _ \<Rightarrow> None)"

end
