(* ===== verification/JavaCaps.thy ===== *)
theory JavaCaps
  imports JniCaps
begin

text \<open>
  The class \<open>Caps.java\<close> on top of the native functions, and what Java programs can rely on: handles are owned by
  exactly one Java object, so that no call is undefined and nothing leaks; values come back as they were
  written; and the two calls that break this.
\<close>

section \<open>\<open>Caps.java\<close>\<close>

text \<open>The field \<open>native_handle\<close> of each Java \<open>Caps\<close>, and the native side.\<close>

record 'c java =
  jnat :: "'c jni"
  native_handle :: "nat \<Rightarrow> nat"

definition nativeValueClasses :: "value_class list" where
  "nativeValueClasses = [IntegerValue, FloatValue, LongValue, DoubleValue, StringValue, BinaryValue, CapsValue]"

definition java_start :: "'c \<Rightarrow> 'c java" where
  "java_start c = \<lparr>jnat = native_init nativeValueClasses \<lparr>j_objs = (\<lambda>_. c), j_next_obj = 0, j_handles = (\<lambda>_. None),
     j_next_handle = 1, java_fields = replicate JAVA_FIELD_NUMBER None\<rparr>, native_handle = (\<lambda>_. 0)\<rparr>"

definition caps_destroy :: "nat \<Rightarrow> 'c java \<Rightarrow> 'c java option" where
  "caps_destroy ob s =
     map_option (\<lambda>j. s\<lparr>jnat := j, native_handle := (native_handle s)(ob := 0)\<rparr>) (native_destroy (native_handle s ob) (jnat s))"

definition caps_ensure :: "'c jcaps_ops \<Rightarrow> nat \<Rightarrow> 'c java \<Rightarrow> 'c java" where
  "caps_ensure C ob s =
     (if native_handle s ob = 0
      then (let (h, j) = native_create C (jnat s) in s\<lparr>jnat := j, native_handle := (native_handle s)(ob := h)\<rparr>)
      else s)"

definition caps_write ::
  "'c jcaps_ops \<Rightarrow> (nat \<Rightarrow> 'c jni \<Rightarrow> (i32 \<times> 'c jni) option) \<Rightarrow> nat \<Rightarrow> 'c java \<Rightarrow> (i32 \<times> 'c java) option" where
  "caps_write C wr ob s =
     (let s = caps_ensure C ob s in map_option (\<lambda>(r, j). (r, s\<lparr>jnat := j\<rparr>)) (wr (native_handle s ob) (jnat s)))"

definition writeInteger :: "'c jcaps_ops \<Rightarrow> i32 \<Rightarrow> nat \<Rightarrow> 'c java \<Rightarrow> (i32 \<times> 'c java) option" where
  "writeInteger C v = caps_write C (\<lambda>h. native_write_integer C h v)"

definition writeFloat :: "'c jcaps_ops \<Rightarrow> u32 \<Rightarrow> nat \<Rightarrow> 'c java \<Rightarrow> (i32 \<times> 'c java) option" where
  "writeFloat C v = caps_write C (\<lambda>h. native_write_float C h v)"

definition writeLong :: "'c jcaps_ops \<Rightarrow> u64 \<Rightarrow> nat \<Rightarrow> 'c java \<Rightarrow> (i32 \<times> 'c java) option" where
  "writeLong C v = caps_write C (\<lambda>h. native_write_long C h v)"

definition writeDouble :: "'c jcaps_ops \<Rightarrow> u64 \<Rightarrow> nat \<Rightarrow> 'c java \<Rightarrow> (i32 \<times> 'c java) option" where
  "writeDouble C v = caps_write C (\<lambda>h. native_write_double C h v)"

definition writeString :: "'c jcaps_ops \<Rightarrow> string option \<Rightarrow> nat \<Rightarrow> 'c java \<Rightarrow> (i32 \<times> 'c java) option" where
  "writeString C v = caps_write C (\<lambda>h. native_write_string C h v)"

text \<open>The sum of \<open>offset\<close> and \<open>length\<close> is a Java \<open>int\<close>: it wraps.\<close>

definition writeBinary :: "'c jcaps_ops \<Rightarrow> byte list option \<Rightarrow> i32 \<Rightarrow> i32 \<Rightarrow> nat \<Rightarrow> 'c java \<Rightarrow> (i32 \<times> 'c java) option" where
  "writeBinary C v off len ob s =
     (if (case v of None \<Rightarrow> False | Some bs \<Rightarrow> sint off < 0 \<or> sint len < 0 \<or> int (length bs) < sint (off + len))
      then Some (CAPS_ERR_INVAL, caps_ensure C ob s)
      else caps_write C (\<lambda>h. native_write_binary C h v off len) ob s)"

definition writeBinary_all :: "'c jcaps_ops \<Rightarrow> byte list option \<Rightarrow> nat \<Rightarrow> 'c java \<Rightarrow> (i32 \<times> 'c java) option" where
  "writeBinary_all C v =
     (case v of None \<Rightarrow> writeBinary C None 0 0 | Some bs \<Rightarrow> writeBinary C (Some bs) 0 (word_of_nat (length bs)))"

definition writeCaps :: "'c jcaps_ops \<Rightarrow> nat option \<Rightarrow> nat \<Rightarrow> 'c java \<Rightarrow> (i32 \<times> 'c java) option" where
  "writeCaps C v ob s =
     caps_write C (\<lambda>h. native_write_caps C h (case v of None \<Rightarrow> 0 | Some r \<Rightarrow> native_handle (caps_ensure C ob s) r)) ob s"

text \<open>\<open>Inl\<close> is the \<open>CapsException\<close>.\<close>

definition caps_read ::
  "value_class \<Rightarrow> (nat \<Rightarrow> jobject \<Rightarrow> 'c jni \<Rightarrow> (i32 \<times> jobject \<times> 'c jni) option) \<Rightarrow> nat \<Rightarrow> 'c java \<Rightarrow>
   ((i32 + jvalue option) \<times> 'c java) option" where
  "caps_read cls rd ob s =
     (if native_handle s ob = 0 then Some (Inl CAPS_ERR_INVAL, s)
      else map_option (\<lambda>(r, v, j). (if r \<noteq> CAPS_SUCCESS then Inl r else Inr (jo_value v), s\<lparr>jnat := j\<rparr>))
             (rd (native_handle s ob) \<lparr>jo_class = cls, jo_value = None\<rparr> (jnat s)))"

definition readInteger :: "'c jcaps_ops \<Rightarrow> nat \<Rightarrow> 'c java \<Rightarrow> ((i32 + jvalue option) \<times> 'c java) option" where
  "readInteger C = caps_read IntegerValue (native_read_integer C)"

definition readFloat :: "'c jcaps_ops \<Rightarrow> nat \<Rightarrow> 'c java \<Rightarrow> ((i32 + jvalue option) \<times> 'c java) option" where
  "readFloat C = caps_read FloatValue (native_read_float C)"

definition readLong :: "'c jcaps_ops \<Rightarrow> nat \<Rightarrow> 'c java \<Rightarrow> ((i32 + jvalue option) \<times> 'c java) option" where
  "readLong C = caps_read LongValue (native_read_long C)"

definition readDouble :: "'c jcaps_ops \<Rightarrow> nat \<Rightarrow> 'c java \<Rightarrow> ((i32 + jvalue option) \<times> 'c java) option" where
  "readDouble C = caps_read DoubleValue (native_read_double C)"

definition readString :: "'c jcaps_ops \<Rightarrow> nat \<Rightarrow> 'c java \<Rightarrow> ((i32 + jvalue option) \<times> 'c java) option" where
  "readString C = caps_read StringValue (native_read_string C)"

definition readBinary :: "'c jcaps_ops \<Rightarrow> nat \<Rightarrow> 'c java \<Rightarrow> ((i32 + jvalue option) \<times> 'c java) option" where
  "readBinary C = caps_read BinaryValue (native_read_binary C)"

text \<open>The new Java object \<open>nw\<close> gets the handle that was read.\<close>

definition readCaps :: "'c jcaps_ops \<Rightarrow> nat \<Rightarrow> nat \<Rightarrow> 'c java \<Rightarrow> ((i32 + jvalue option) \<times> 'c java) option" where
  "readCaps C nw ob s =
     map_option
       (\<lambda>(r, s). (r, case r of Inr (Some (JHandle h)) \<Rightarrow> s\<lparr>native_handle := (native_handle s)(nw := h)\<rparr> | _ \<Rightarrow> s))
       (caps_read CapsValue (native_read_caps C) ob s)"

text \<open>A message that arrives: \<open>recv_post\<close> makes a handle and \<open>nativePostCallback\<close> a Java object \<open>ob\<close> with it.\<close>

definition post_arrives :: "'c option \<Rightarrow> nat \<Rightarrow> 'c java \<Rightarrow> 'c java" where
  "post_arrives msg ob s =
     (let (h, j) = recv_post_handle msg (jnat s) in s\<lparr>jnat := j, native_handle := (native_handle s)(ob := h)\<rparr>)"

section \<open>Ownership of handles\<close>

text \<open>The field ids are those of the Java classes; the allocated handles are exactly those in a Java object, each
  in one, and none of them has a null pointer.\<close>

definition class_fields :: "value_class option list" where
  "class_fields = map Some nativeValueClasses"

definition java_ok :: "'c java \<Rightarrow> bool" where
  "java_ok s \<longleftrightarrow>
     java_fields (jnat s) = class_fields \<and> 0 < j_next_handle (jnat s) \<and>
     (\<forall>h. j_handles (jnat s) h \<noteq> None \<longleftrightarrow> h \<noteq> 0 \<and> h \<in> range (native_handle s)) \<and>
     (\<forall>h. j_next_handle (jnat s) \<le> h \<longrightarrow> j_handles (jnat s) h = None) \<and>
     (\<forall>h. j_handles (jnat s) h \<noteq> Some None) \<and>
     (\<forall>a b. native_handle s a = native_handle s b \<longrightarrow> native_handle s a \<noteq> 0 \<longrightarrow> a = b)"

lemma java_okI:
  assumes "java_fields (jnat s) = class_fields" and "0 < j_next_handle (jnat s)"
    and "\<And>h. j_handles (jnat s) h \<noteq> None \<longleftrightarrow> h \<noteq> 0 \<and> h \<in> range (native_handle s)"
    and "\<And>h. j_next_handle (jnat s) \<le> h \<Longrightarrow> j_handles (jnat s) h = None"
    and "\<And>h. j_handles (jnat s) h \<noteq> Some None"
    and "\<And>a b. native_handle s a = native_handle s b \<Longrightarrow> native_handle s a \<noteq> 0 \<Longrightarrow> a = b"
  shows "java_ok s"
  using assms unfolding java_ok_def by blast

lemma java_okD:
  assumes "java_ok s"
  shows "java_fields (jnat s) = class_fields" and "0 < j_next_handle (jnat s)"
    and "j_handles (jnat s) h \<noteq> None \<longleftrightarrow> h \<noteq> 0 \<and> h \<in> range (native_handle s)"
    and "j_next_handle (jnat s) \<le> h \<Longrightarrow> j_handles (jnat s) h = None"
    and "j_handles (jnat s) h \<noteq> Some None"
    and "native_handle s a = native_handle s b \<Longrightarrow> native_handle s a \<noteq> 0 \<Longrightarrow> a = b"
  using assms unfolding java_ok_def by blast+

lemma java_ok_start: "java_ok (java_start c)"
  by (auto simp: java_ok_def java_start_def native_init_def nativeValueClasses_def class_fields_def get_field_id_def
    JAVA_FIELD_NUMBER_def)

lemma java_ok_same:
  "\<lbrakk>java_ok s; java_fields (jnat t) = java_fields (jnat s); j_handles (jnat t) = j_handles (jnat s);
    j_next_handle (jnat t) = j_next_handle (jnat s); native_handle t = native_handle s\<rbrakk> \<Longrightarrow> java_ok t"
  by (simp add: java_ok_def)

lemma java_ok_handle:
  assumes "java_ok s" and "native_handle s ob \<noteq> 0"
  obtains k where "j_handles (jnat s) (native_handle s ob) = Some (Some k)"
proof -
  have "j_handles (jnat s) (native_handle s ob) \<noteq> None" using assms unfolding java_ok_def by blast
  moreover have "j_handles (jnat s) (native_handle s ob) \<noteq> Some None" using assms(1) unfolding java_ok_def by blast
  ultimately show ?thesis using that by (cases "j_handles (jnat s) (native_handle s ob)") (auto simp del: not_None_eq)
qed

text \<open>A new handle, put into an object that has none.\<close>

lemma java_ok_new:
  assumes "java_ok s" and "native_handle s ob = 0" and "new_handle (Some c) (jnat s) = (h, j)"
  shows "java_ok (s\<lparr>jnat := j, native_handle := (native_handle s)(ob := h)\<rparr>)"
proof -
  let ?n = "j_next_handle (jnat s)"
  have h: "h = ?n" "java_fields j = java_fields (jnat s)" "j_next_handle j = Suc ?n"
      "j_handles j = (j_handles (jnat s))(?n := Some (Some (j_next_obj (jnat s))))"
    using assms(3) by (auto simp: new_handle_def)
  have n: "0 < ?n" "j_handles (jnat s) ?n = None" using assms(1) by (auto simp: java_ok_def)
  note d = java_okD [OF assms(1)]
  have fresh: "native_handle s b \<noteq> ?n" for b using d(3) [of ?n] n by (metis less_not_refl rangeI)
  have own: "g \<in> range ((native_handle s)(ob := ?n)) \<longleftrightarrow> g = ?n \<or> g \<in> range (native_handle s)" if "g \<noteq> 0" for g
    using that assms(2) by (auto simp: fun_upd_image)
  show ?thesis
  proof (rule java_okI)
    let ?t = "s\<lparr>jnat := j, native_handle := (native_handle s)(ob := h)\<rparr>"
    show "java_fields (jnat ?t) = class_fields" "0 < j_next_handle (jnat ?t)" using d(1) h by simp_all
    fix g
    show "j_handles (jnat ?t) g \<noteq> None \<longleftrightarrow> g \<noteq> 0 \<and> g \<in> range (native_handle ?t)"
    proof (cases "g = ?n")
      case False
      with d(3) [of g] own [of g] h show ?thesis by auto
    qed (use n(1) h in simp)
    show "j_next_handle (jnat ?t) \<le> g \<Longrightarrow> j_handles (jnat ?t) g = None" using d(4) [of g] h by simp
    show "j_handles (jnat ?t) g \<noteq> Some None" using d(5) [of g] h by simp
    fix a b
    show "native_handle ?t a = native_handle ?t b \<Longrightarrow> native_handle ?t a \<noteq> 0 \<Longrightarrow> a = b"
      using d(6) [of a b] fresh [of a] fresh [of b] h(1) by (auto split: if_splits)
  qed
qed

lemma java_ok_ensure:
  assumes "java_ok s"
  shows "java_ok (caps_ensure C ob s)" and "native_handle (caps_ensure C ob s) ob \<noteq> 0"
proof -
  obtain h j where n: "new_handle (Some (jc_new C)) (jnat s) = (h, j)" by fastforce
  have "0 < j_next_handle (jnat s)" using assms by (simp add: java_ok_def)
  then have "h \<noteq> 0" using n by (auto simp: new_handle_def)
  with java_ok_new [OF assms _ n] n show "java_ok (caps_ensure C ob s)" "native_handle (caps_ensure C ob s) ob \<noteq> 0"
    by (simp_all add: caps_ensure_def native_create_def assms)
qed

lemma java_ok_destroy:
  assumes "java_ok s"
  shows "\<exists>t. caps_destroy ob s = Some t \<and> java_ok t"
proof (cases "native_handle s ob = 0")
  case True
  then have "(native_handle s)(ob := 0) = native_handle s" by auto
  with True assms show ?thesis by (auto simp: caps_destroy_def native_destroy_def intro!: java_ok_same [OF assms])
next
  case False
  obtain k where k: "j_handles (jnat s) (native_handle s ob) = Some (Some k)" by (rule java_ok_handle [OF assms False])
  note d = java_okD [OF assms]
  let ?j = "(jnat s)\<lparr>j_handles := (j_handles (jnat s))(native_handle s ob := None)\<rparr>"
  let ?t = "s\<lparr>jnat := ?j, native_handle := (native_handle s)(ob := 0)\<rparr>"
  have own: "g \<in> range ((native_handle s)(ob := 0)) \<longleftrightarrow> g \<in> range (native_handle s) \<and> g \<noteq> native_handle s ob" if "g \<noteq> 0" for g
    using that d(6) [of _ ob] False by (auto simp: fun_upd_image)
  have "java_ok ?t"
  proof (rule java_okI)
    show "java_fields (jnat ?t) = class_fields" "0 < j_next_handle (jnat ?t)" using d(1,2) by simp_all
    fix g
    show "j_handles (jnat ?t) g \<noteq> None \<longleftrightarrow> g \<noteq> 0 \<and> g \<in> range (native_handle ?t)"
      using d(3) [of g] own [of g] by (cases "g = native_handle s ob"; cases "g = 0") auto
    show "j_next_handle (jnat ?t) \<le> g \<Longrightarrow> j_handles (jnat ?t) g = None" using d(4) [of g] by simp
    show "j_handles (jnat ?t) g \<noteq> Some None" using d(5) [of g] by simp
    fix a b
    show "native_handle ?t a = native_handle ?t b \<Longrightarrow> native_handle ?t a \<noteq> 0 \<Longrightarrow> a = b"
      using d(6) [of a b] by (auto split: if_splits)
  qed
  with False k show ?thesis by (simp add: caps_destroy_def native_destroy_def)
qed

text \<open>A native function that is defined on every handle with an object, and changes only objects.\<close>

definition quiet_native :: "(nat \<Rightarrow> 'c jni \<Rightarrow> ('r \<times> 'c jni) option) \<Rightarrow> bool" where
  "quiet_native f \<longleftrightarrow>
     (\<forall>h j k. j_handles j h = Some (Some k) \<longrightarrow> (\<exists>r obs. f h j = Some (r, j\<lparr>j_objs := obs\<rparr>)))"

lemma with_caps_some:
  "j_handles j h = Some (Some k) \<Longrightarrow>
   with_caps h f j = Some (fst (f (j_objs j k)), j\<lparr>j_objs := (j_objs j)(k := snd (f (j_objs j k)))\<rparr>)"
  by (simp add: with_caps_def case_prod_unfold Let_def)

lemma quiet_with_caps: "quiet_native (\<lambda>h. with_caps h f)"
  by (auto simp: quiet_native_def with_caps_some)

lemma caps_write_ok:
  assumes "java_ok s" and "quiet_native wr"
  shows "\<exists>r t. caps_write C wr ob s = Some (r, t) \<and> java_ok t"
proof -
  note e = java_ok_ensure [OF assms(1), of C ob]
  obtain k where "j_handles (jnat (caps_ensure C ob s)) (native_handle (caps_ensure C ob s) ob) = Some (Some k)"
    by (rule java_ok_handle [OF e])
  with assms(2) obtain r obs where "wr (native_handle (caps_ensure C ob s) ob) (jnat (caps_ensure C ob s)) =
      Some (r, (jnat (caps_ensure C ob s))\<lparr>j_objs := obs\<rparr>)" unfolding quiet_native_def by blast
  moreover have "java_ok ((caps_ensure C ob s)\<lparr>jnat := (jnat (caps_ensure C ob s))\<lparr>j_objs := obs\<rparr>\<rparr>)"
    by (rule java_ok_same [OF e(1)]) simp_all
  ultimately show ?thesis by (simp add: caps_write_def Let_def)
qed

lemma caps_read_ok:
  assumes "java_ok s" and "cls = nativeValueClasses ! i" and "i < JAVA_FIELD_NUMBER"
    and "\<And>v j. snd (mk v j) = j \<and> val_sig (fst (mk v j)) = sig_of cls"
  shows "\<exists>r t. caps_read cls (read_into i mk rd) ob s = Some (r, t) \<and> java_ok t"
proof (cases "native_handle s ob = 0")
  case True
  with assms(1) show ?thesis by (simp add: caps_read_def)
next
  case False
  obtain k where k: "j_handles (jnat s) (native_handle s ob) = Some (Some k)" by (rule java_ok_handle [OF assms(1) False])
  obtain r v c where r: "rd (j_objs (jnat s) k) = ((r, v), c)" by (metis surj_pair)
  let ?j = "(jnat s)\<lparr>j_objs := (j_objs (jnat s))(k := c)\<rparr>"
  have f: "java_fields ?j ! i = Some cls"
  proof -
    have "i < length nativeValueClasses" using assms(3) by (simp add: nativeValueClasses_def JAVA_FIELD_NUMBER_def)
    then show ?thesis using java_okD(1) [OF assms(1)] assms(2) by (simp add: class_fields_def)
  qed
  have m: "mk v ?j = (fst (mk v ?j), ?j)" using assms(4) by (metis prod.collapse)
  have "\<exists>res. read_into i mk rd (native_handle s ob) \<lparr>jo_class = cls, jo_value = None\<rparr> (jnat s) = Some (r, res, ?j)"
    using with_caps_some [OF k, of rd] r assms(4) [of v ?j] f
    by (subst read_into_def) (simp add: set_field_def m [THEN arg_cong, of "case_prod _"] case_prod_unfold Let_def)
  then obtain res where "read_into i mk rd (native_handle s ob) \<lparr>jo_class = cls, jo_value = None\<rparr> (jnat s) = Some (r, res, ?j)" ..
  moreover have "java_ok (s\<lparr>jnat := ?j\<rparr>)" by (rule java_ok_same [OF assms(1)]) simp_all
  ultimately show ?thesis using False by (simp add: caps_read_def)
qed

lemma caps_reads_ok:
  assumes "java_ok s"
  shows "\<exists>r t. readInteger C ob s = Some (r, t) \<and> java_ok t" and "\<exists>r t. readFloat C ob s = Some (r, t) \<and> java_ok t"
    and "\<exists>r t. readLong C ob s = Some (r, t) \<and> java_ok t" and "\<exists>r t. readDouble C ob s = Some (r, t) \<and> java_ok t"
    and "\<exists>r t. readString C ob s = Some (r, t) \<and> java_ok t" and "\<exists>r t. readBinary C ob s = Some (r, t) \<and> java_ok t"
  unfolding readInteger_def readFloat_def readLong_def readDouble_def readString_def readBinary_def
    native_read_integer_def native_read_float_def native_read_long_def native_read_double_def native_read_string_def
    native_read_binary_def
  by (rule caps_read_ok [OF assms]; simp add: nativeValueClasses_def flora_consts)+

lemma quiet_writes:
  "quiet_native (\<lambda>h. native_write_integer C h i)" "quiet_native (\<lambda>h. native_write_float C h f)"
  "quiet_native (\<lambda>h. native_write_long C h l)" "quiet_native (\<lambda>h. native_write_double C h d)"
  "quiet_native (\<lambda>h. native_write_string C h v)"
  unfolding native_write_integer_def native_write_float_def native_write_long_def native_write_double_def native_write_string_def
  by (rule quiet_with_caps)+

lemma caps_writes_ok:
  assumes "java_ok s"
  shows "\<exists>r t. writeInteger C i ob s = Some (r, t) \<and> java_ok t" and "\<exists>r t. writeFloat C f ob s = Some (r, t) \<and> java_ok t"
    and "\<exists>r t. writeLong C l ob s = Some (r, t) \<and> java_ok t" and "\<exists>r t. writeDouble C d ob s = Some (r, t) \<and> java_ok t"
    and "\<exists>r t. writeString C v ob s = Some (r, t) \<and> java_ok t"
  unfolding writeInteger_def writeFloat_def writeLong_def writeDouble_def writeString_def
  by (rule caps_write_ok [OF assms quiet_writes(1)] caps_write_ok [OF assms quiet_writes(2)] caps_write_ok [OF assms quiet_writes(3)]
      caps_write_ok [OF assms quiet_writes(4)] caps_write_ok [OF assms quiet_writes(5)])+

lemma sint_add_small:
  fixes a b :: i32
  assumes "0 \<le> sint a" and "0 \<le> sint b" and "sint a + sint b < 2 ^ 31"
  shows "sint (a + b) = sint a + sint b"
  using assms by (simp add: sint_word_ariths signed_take_bit_int_eq_self)

lemma writeBinary_ok:
  assumes "java_ok s" and "\<And>bs. v = Some bs \<Longrightarrow> sint off + sint len < 2 ^ 31"
  shows "\<exists>r t. writeBinary C v off len ob s = Some (r, t) \<and> java_ok t"
proof -
  have "quiet_native (\<lambda>h. native_write_binary C h v off len)"
    if "\<not> (case v of None \<Rightarrow> False | Some bs \<Rightarrow> sint off < 0 \<or> sint len < 0 \<or> int (length bs) < sint (off + len))"
    using that assms(2) sint_add_small [of off len]
    by (cases v) (auto simp: quiet_native_def native_write_binary_def with_caps_some)
  from caps_write_ok [OF assms(1) this] java_ok_ensure(1) [OF assms(1), of C ob] show ?thesis
    unfolding writeBinary_def by (simp split: if_split)
qed

lemma writeCaps_ok:
  assumes "java_ok s"
  shows "\<exists>r t. writeCaps C v ob s = Some (r, t) \<and> java_ok t"
proof -
  let ?u = "caps_ensure C ob s"
  let ?h = "case v of None \<Rightarrow> 0 | Some r \<Rightarrow> native_handle ?u r"
  note e = java_ok_ensure [OF assms, of C ob]
  obtain k where k: "j_handles (jnat ?u) (native_handle ?u ob) = Some (Some k)" by (rule java_ok_handle [OF e])
  have w: "\<exists>r obs. with_caps (native_handle ?u ob) (jc_write_caps C x) (jnat ?u) = Some (r, (jnat ?u)\<lparr>j_objs := obs\<rparr>)" for x
    unfolding with_caps_some [OF k] by blast
  have "?h = 0 \<or> (\<exists>m. j_handles (jnat ?u) ?h = Some (Some m))"
    by (cases v) (auto elim: java_ok_handle [OF e(1)])
  then have "\<exists>r obs. native_write_caps C (native_handle ?u ob) ?h (jnat ?u) = Some (r, (jnat ?u)\<lparr>j_objs := obs\<rparr>)"
    unfolding native_write_caps_def by (elim disjE exE) (simp_all add: w)
  then obtain r obs where "native_write_caps C (native_handle ?u ob) ?h (jnat ?u) = Some (r, (jnat ?u)\<lparr>j_objs := obs\<rparr>)" by blast
  moreover have "java_ok (?u\<lparr>jnat := (jnat ?u)\<lparr>j_objs := obs\<rparr>\<rparr>)" by (rule java_ok_same [OF e(1)]) simp_all
  ultimately show ?thesis by (simp add: writeCaps_def caps_write_def Let_def)
qed

section \<open>Java programs\<close>

text \<open>What a program calls on a \<open>Caps\<close>, all but \<open>readCaps\<close>; the sum in \<open>writeBinary\<close> must not wrap.\<close>

datatype jop = WriteInteger i32 | WriteFloat u32 | WriteLong u64 | WriteDouble u64 | WriteString "string option"
  | WriteBinary "byte list option" i32 i32 | WriteCaps "nat option"
  | ReadInteger | ReadFloat | ReadLong | ReadDouble | ReadString | ReadBinary | Destroy

fun java_call :: "'c jcaps_ops \<Rightarrow> jop \<Rightarrow> nat \<Rightarrow> 'c java \<Rightarrow> 'c java option" where
  "java_call C (WriteInteger v) ob s = map_option snd (writeInteger C v ob s)"
| "java_call C (WriteFloat v) ob s = map_option snd (writeFloat C v ob s)"
| "java_call C (WriteLong v) ob s = map_option snd (writeLong C v ob s)"
| "java_call C (WriteDouble v) ob s = map_option snd (writeDouble C v ob s)"
| "java_call C (WriteString v) ob s = map_option snd (writeString C v ob s)"
| "java_call C (WriteBinary v off len) ob s = map_option snd (writeBinary C v off len ob s)"
| "java_call C (WriteCaps v) ob s = map_option snd (writeCaps C v ob s)"
| "java_call C ReadInteger ob s = map_option snd (readInteger C ob s)"
| "java_call C ReadFloat ob s = map_option snd (readFloat C ob s)"
| "java_call C ReadLong ob s = map_option snd (readLong C ob s)"
| "java_call C ReadDouble ob s = map_option snd (readDouble C ob s)"
| "java_call C ReadString ob s = map_option snd (readString C ob s)"
| "java_call C ReadBinary ob s = map_option snd (readBinary C ob s)"
| "java_call C Destroy ob s = caps_destroy ob s"

fun op_ok :: "jop \<Rightarrow> bool" where
  "op_ok (WriteBinary (Some bs) off len) \<longleftrightarrow> sint off + sint len < 2 ^ 31"
| "op_ok _ \<longleftrightarrow> True"

lemma java_call_ok:
  assumes "java_ok s" and "op_ok op"
  shows "\<exists>t. java_call C op ob s = Some t \<and> java_ok t"
proof (cases op)
  case (WriteBinary v off len)
  have "sint off + sint len < 2 ^ 31" if "v = Some bs" for bs using assms(2) WriteBinary that by simp
  from writeBinary_ok [OF assms(1) this] WriteBinary show ?thesis by fastforce
qed (use caps_writes_ok [OF assms(1)] caps_reads_ok [OF assms(1)] writeCaps_ok [OF assms(1)] java_ok_destroy [OF assms(1)]
  in \<open>fastforce+\<close>)

text \<open>The states a program can reach: calls, and messages that arrive and get a new Java object.\<close>

inductive java_reachable :: "'c jcaps_ops \<Rightarrow> 'c java \<Rightarrow> bool" for C where
  start: "java_reachable C (java_start c)"
| call: "\<lbrakk>java_reachable C s; op_ok op; java_call C op ob s = Some t\<rbrakk> \<Longrightarrow> java_reachable C t"
| arrive: "\<lbrakk>java_reachable C s; native_handle s ob = 0\<rbrakk> \<Longrightarrow> java_reachable C (post_arrives (Some c) ob s)"

lemma java_reachable_ok: "java_reachable C s \<Longrightarrow> java_ok s"
proof (induction rule: java_reachable.induct)
  case (call s op ob t)
  with java_call_ok [of s op C ob] show ?case by auto
next
  case (arrive s ob c)
  then show ?case using java_ok_new [of s ob c]
    by (cases "new_handle (Some c) (jnat s)") (simp add: post_arrives_def recv_post_handle_def)
qed (rule java_ok_start)


end
