(* ===== verification/JavaValues.thy ===== *)
theory JavaValues
  imports JavaCaps
begin

text \<open>
  Values through the Java binding: what is written to a \<open>Caps\<close> and sent is read back from the one that
  arrives; and the calls of the class that are undefined.
\<close>

section \<open>Writing and reading values\<close>

fun writeValue :: "'c jcaps_ops \<Rightarrow> jvalue \<Rightarrow> nat \<Rightarrow> 'c java \<Rightarrow> (i32 \<times> 'c java) option" where
  "writeValue C (JInt v) ob s = writeInteger C v ob s"
| "writeValue C (JFloat v) ob s = writeFloat C v ob s"
| "writeValue C (JLong v) ob s = writeLong C v ob s"
| "writeValue C (JDouble v) ob s = writeDouble C v ob s"
| "writeValue C (JString v) ob s = writeString C (Some v) ob s"
| "writeValue C (JBytes v) ob s = writeBinary_all C (Some v) ob s"
| "writeValue C (JHandle h) ob s = None"

fun readValue :: "'c jcaps_ops \<Rightarrow> jvalue \<Rightarrow> nat \<Rightarrow> 'c java \<Rightarrow> ((i32 + jvalue option) \<times> 'c java) option" where
  "readValue C (JInt _) ob s = readInteger C ob s"
| "readValue C (JFloat _) ob s = readFloat C ob s"
| "readValue C (JLong _) ob s = readLong C ob s"
| "readValue C (JDouble _) ob s = readDouble C ob s"
| "readValue C (JString _) ob s = readString C ob s"
| "readValue C (JBytes _) ob s = readBinary C ob s"
| "readValue C (JHandle _) ob s = None"

fun write_all :: "'c jcaps_ops \<Rightarrow> jvalue list \<Rightarrow> nat \<Rightarrow> 'c java \<Rightarrow> (i32 list \<times> 'c java) option" where
  "write_all C [] ob s = Some ([], s)"
| "write_all C (v # vs) ob s =
     Option.bind (writeValue C v ob s) (\<lambda>(r, s). map_option (apfst (Cons r)) (write_all C vs ob s))"

fun read_all :: "'c jcaps_ops \<Rightarrow> jvalue list \<Rightarrow> nat \<Rightarrow> 'c java \<Rightarrow> ((i32 + jvalue option) list \<times> 'c java) option" where
  "read_all C [] ob s = Some ([], s)"
| "read_all C (v # vs) ob s =
     Option.bind (readValue C v ob s) (\<lambda>(r, s). map_option (apfst (Cons r)) (read_all C vs ob s))"

text \<open>Java strings have no NUL in modified UTF-8, Java arrays less than \<open>2\<^sup>3\<^sup>1\<close> elements.\<close>

fun java_value :: "jvalue \<Rightarrow> bool" where
  "java_value (JString t) \<longleftrightarrow> nul_free t"
| "java_value (JBytes bs) \<longleftrightarrow> length bs < 2 ^ 31"
| "java_value (JHandle h) \<longleftrightarrow> False"
| "java_value _ \<longleftrightarrow> True"

text \<open>What the binding needs of the Caps library: a new object can be written, writing appends a value, and
  reading takes the values in order.\<close>

definition jcaps_laws :: "'c jcaps_ops \<Rightarrow> ('c \<Rightarrow> bool) \<Rightarrow> ('c \<Rightarrow> jvalue list) \<Rightarrow> ('c \<Rightarrow> jvalue list) \<Rightarrow> bool" where
  "jcaps_laws C writable content rest \<longleftrightarrow>
     writable (jc_new C) \<and> content (jc_new C) = [] \<and>
     (\<forall>c. writable c \<longrightarrow>
        (let appends = (\<lambda>v (r, c'). r = CAPS_SUCCESS \<and> writable c' \<and> content c' = content c @ [v]) in
         (\<forall>v. appends (JInt v) (jc_write_i32 C v c)) \<and> (\<forall>v. appends (JFloat v) (jc_write_float C v c)) \<and>
         (\<forall>v. appends (JLong v) (jc_write_i64 C v c)) \<and> (\<forall>v. appends (JDouble v) (jc_write_double C v c)) \<and>
         (\<forall>v. appends (JString v) (jc_write_cstr C (Some v) c)) \<and> (\<forall>v. appends (JBytes v) (jc_write_binary C (Some v) c)))) \<and>
     (\<forall>c v vs. rest c = v # vs \<longrightarrow>
        (case v of
           JInt i \<Rightarrow> (\<exists>c'. jc_read_i32 C c = ((CAPS_SUCCESS, i), c') \<and> rest c' = vs)
         | JFloat i \<Rightarrow> (\<exists>c'. jc_read_float C c = ((CAPS_SUCCESS, i), c') \<and> rest c' = vs)
         | JLong i \<Rightarrow> (\<exists>c'. jc_read_i64 C c = ((CAPS_SUCCESS, i), c') \<and> rest c' = vs)
         | JDouble i \<Rightarrow> (\<exists>c'. jc_read_double C c = ((CAPS_SUCCESS, i), c') \<and> rest c' = vs)
         | JString i \<Rightarrow> (\<exists>c'. jc_read_string C c = ((CAPS_SUCCESS, i), c') \<and> rest c' = vs)
         | JBytes i \<Rightarrow> (\<exists>c'. jc_read_binary C c = ((CAPS_SUCCESS, i), c') \<and> rest c' = vs)
         | JHandle h \<Rightarrow> True))"

lemma jcaps_writes:
  assumes "jcaps_laws C writable content rest" and "writable c"
  shows "case jc_write_i32 C i c of (r, c') \<Rightarrow> r = CAPS_SUCCESS \<and> writable c' \<and> content c' = content c @ [JInt i]"
    and "case jc_write_float C f c of (r, c') \<Rightarrow> r = CAPS_SUCCESS \<and> writable c' \<and> content c' = content c @ [JFloat f]"
    and "case jc_write_i64 C l c of (r, c') \<Rightarrow> r = CAPS_SUCCESS \<and> writable c' \<and> content c' = content c @ [JLong l]"
    and "case jc_write_double C d c of (r, c') \<Rightarrow> r = CAPS_SUCCESS \<and> writable c' \<and> content c' = content c @ [JDouble d]"
    and "case jc_write_cstr C (Some t) c of (r, c') \<Rightarrow> r = CAPS_SUCCESS \<and> writable c' \<and> content c' = content c @ [JString t]"
    and "case jc_write_binary C (Some b) c of (r, c') \<Rightarrow> r = CAPS_SUCCESS \<and> writable c' \<and> content c' = content c @ [JBytes b]"
  using assms by (simp_all add: jcaps_laws_def Let_def)

lemma jcaps_reads:
  assumes "jcaps_laws C writable content rest"
  shows "rest c = JInt i # vs \<Longrightarrow> \<exists>c'. jc_read_i32 C c = ((CAPS_SUCCESS, i), c') \<and> rest c' = vs"
    and "rest c = JFloat f # vs \<Longrightarrow> \<exists>c'. jc_read_float C c = ((CAPS_SUCCESS, f), c') \<and> rest c' = vs"
    and "rest c = JLong l # vs \<Longrightarrow> \<exists>c'. jc_read_i64 C c = ((CAPS_SUCCESS, l), c') \<and> rest c' = vs"
    and "rest c = JDouble d # vs \<Longrightarrow> \<exists>c'. jc_read_double C c = ((CAPS_SUCCESS, d), c') \<and> rest c' = vs"
    and "rest c = JString t # vs \<Longrightarrow> \<exists>c'. jc_read_string C c = ((CAPS_SUCCESS, t), c') \<and> rest c' = vs"
    and "rest c = JBytes b # vs \<Longrightarrow> \<exists>c'. jc_read_binary C c = ((CAPS_SUCCESS, b), c') \<and> rest c' = vs"
  using assms unfolding jcaps_laws_def by fastforce+

text \<open>The object of a Java \<open>Caps\<close> that is being written, and of one that is being read.\<close>

definition caps_of :: "nat \<Rightarrow> 'c java \<Rightarrow> 'c option" where
  "caps_of ob s = Option.bind (j_handles (jnat s) (native_handle s ob)) (map_option (j_objs (jnat s)))"

lemma caps_of_Some: "j_handles (jnat s) (native_handle s ob) = Some (Some k) \<Longrightarrow> caps_of ob s = Some (j_objs (jnat s) k)"
  by (simp add: caps_of_def)

lemma caps_write_object:
  assumes "java_ok s" and "wr = (\<lambda>h. with_caps h f)"
  obtains c t where "caps_of ob (caps_ensure C ob s) = Some c" "caps_write C wr ob s = Some (fst (f c), t)"
    "java_ok t" "caps_of ob t = Some (snd (f c))" "native_handle t ob \<noteq> 0"
proof -
  let ?u = "caps_ensure C ob s"
  note e = java_ok_ensure [OF assms(1), of C ob]
  obtain k where k: "j_handles (jnat ?u) (native_handle ?u ob) = Some (Some k)" by (rule java_ok_handle [OF e])
  let ?c = "j_objs (jnat ?u) k"
  let ?t = "?u\<lparr>jnat := (jnat ?u)\<lparr>j_objs := (j_objs (jnat ?u))(k := snd (f ?c))\<rparr>\<rparr>"
  have "java_ok ?t" by (rule java_ok_same [OF e(1)]) simp_all
  then show ?thesis using k e(2) assms(2)
    by (intro that [of ?c ?t]) (simp_all add: caps_of_def caps_write_def with_caps_some Let_def)
qed

lemma ensure_object:
  assumes "java_ok s" and "native_handle s ob = 0"
  shows "caps_of ob (caps_ensure C ob s) = Some (jc_new C)"
  using assms by (simp add: caps_of_def caps_ensure_def native_create_def new_handle_def)

lemma ensure_same: "native_handle s ob \<noteq> 0 \<Longrightarrow> caps_ensure C ob s = s"
  by (simp add: caps_ensure_def)

definition java_written :: "('c \<Rightarrow> bool) \<Rightarrow> ('c \<Rightarrow> jvalue list) \<Rightarrow> nat \<Rightarrow> jvalue list \<Rightarrow> 'c java \<Rightarrow> bool" where
  "java_written writable content ob xs s \<longleftrightarrow>
     (if native_handle s ob = 0 then xs = [] else \<exists>c. caps_of ob s = Some c \<and> writable c \<and> content c = xs)"

lemma write_appends:
  assumes laws: "jcaps_laws C writable content rest" and "java_ok s" and "java_written writable content ob xs s"
    and wr: "wr = (\<lambda>h. with_caps h f)"
    and f: "\<And>c. writable c \<Longrightarrow> (case f c of (r, c') \<Rightarrow> r = CAPS_SUCCESS \<and> writable c' \<and> content c' = content c @ [v])"
  shows "\<exists>t. caps_write C wr ob s = Some (CAPS_SUCCESS, t) \<and> java_ok t \<and> java_written writable content ob (xs @ [v]) t"
proof -
  obtain c t where c: "caps_of ob (caps_ensure C ob s) = Some c" "caps_write C wr ob s = Some (fst (f c), t)"
    "java_ok t" "caps_of ob t = Some (snd (f c))" "native_handle t ob \<noteq> 0" by (rule caps_write_object [OF assms(2) wr])
  have "writable c \<and> content c = xs"
  proof (cases "native_handle s ob = 0")
    case True
    with ensure_object [OF assms(2) True] c(1) assms(1,3) show ?thesis by (auto simp: java_written_def jcaps_laws_def)
  next
    case False
    with c(1) assms(3) show ?thesis by (auto simp: java_written_def ensure_same)
  qed
  with f [of c] c(2-5) show ?thesis by (auto simp: java_written_def case_prod_unfold)
qed

lemma writeValue_appends:
  assumes laws: "jcaps_laws C writable content rest" and "java_ok s" and "java_written writable content ob xs s" and "java_value v"
  shows "\<exists>t. writeValue C v ob s = Some (CAPS_SUCCESS, t) \<and> java_ok t \<and> java_written writable content ob (xs @ [v]) t"
proof -
  note a = write_appends [OF assms(1-3)] and w = jcaps_writes [OF laws]
  show ?thesis
  proof (cases v)
    case (JInt i)
    then show ?thesis using a [OF _ w(1)] by (simp add: writeInteger_def native_write_integer_def)
  next
    case (JFloat f)
    then show ?thesis using a [OF _ w(2)] by (simp add: writeFloat_def native_write_float_def)
  next
    case (JLong l)
    then show ?thesis using a [OF _ w(3)] by (simp add: writeLong_def native_write_long_def)
  next
    case (JDouble d)
    then show ?thesis using a [OF _ w(4)] by (simp add: writeDouble_def native_write_double_def)
  next
    case (JString t)
    then show ?thesis using a [OF _ w(5)] assms(4) by (simp add: writeString_def native_write_string_def)
  next
    case (JBytes bs)
    with assms(4) have n: "sint (word_of_nat (length bs) :: i32) = int (length bs)"
      by (simp add: signed_of_nat signed_take_bit_int_eq_self)
    then have "(\<lambda>h. native_write_binary C h (Some bs) 0 (word_of_nat (length bs))) = (\<lambda>h. with_caps h (jc_write_binary C (Some bs)))"
      by (simp add: fun_eq_iff native_write_binary_def)
    from a [OF this w(6)] JBytes n show ?thesis by (simp add: writeBinary_all_def writeBinary_def)
  qed (use assms(4) in simp)
qed

lemma write_all_appends:
  assumes laws: "jcaps_laws C writable content rest"
  shows "\<lbrakk>java_ok s; java_written writable content ob xs s; \<forall>v\<in>set vs. java_value v\<rbrakk> \<Longrightarrow>
    \<exists>t. write_all C vs ob s = Some (replicate (length vs) CAPS_SUCCESS, t) \<and> java_ok t \<and> java_written writable content ob (xs @ vs) t"
proof (induction vs arbitrary: s xs)
  case (Cons v vs)
  from writeValue_appends [OF laws Cons.prems(1,2)] Cons.prems(3) obtain u where
    u: "writeValue C v ob s = Some (CAPS_SUCCESS, u)" "java_ok u" "java_written writable content ob (xs @ [v]) u" by auto
  from Cons.IH [OF u(2,3)] Cons.prems(3) u(1) show ?case by auto
qed simp

definition java_unread :: "('c \<Rightarrow> jvalue list) \<Rightarrow> nat \<Rightarrow> jvalue list \<Rightarrow> 'c java \<Rightarrow> bool" where
  "java_unread rest ob vs s \<longleftrightarrow> native_handle s ob \<noteq> 0 \<and> (\<exists>c. caps_of ob s = Some c \<and> rest c = vs)"

lemma read_takes:
  assumes "java_ok s" and "java_unread rest ob (v # vs) s" and "cls = nativeValueClasses ! i" and "i < JAVA_FIELD_NUMBER"
    and "\<And>c. rest c = v # vs \<Longrightarrow> \<exists>c'. rd c = ((CAPS_SUCCESS, x), c') \<and> rest c' = vs" and "\<And>j. mk x j = (v, j)" and "val_sig v = sig_of cls"
  shows "\<exists>t. caps_read cls (read_into i mk rd) ob s = Some (Inr (Some v), t) \<and> java_ok t \<and> java_unread rest ob vs t"
proof -
  from assms(2) have h: "native_handle s ob \<noteq> 0" by (simp add: java_unread_def)
  obtain k where k: "j_handles (jnat s) (native_handle s ob) = Some (Some k)" by (rule java_ok_handle [OF assms(1) h])
  with assms(2) have "rest (j_objs (jnat s) k) = v # vs" by (simp add: java_unread_def caps_of_def)
  with assms(5) obtain c where c: "rd (j_objs (jnat s) k) = ((CAPS_SUCCESS, x), c)" "rest c = vs" by blast
  let ?t = "s\<lparr>jnat := (jnat s)\<lparr>j_objs := (j_objs (jnat s))(k := c)\<rparr>\<rparr>"
  have "i < length nativeValueClasses" using assms(4) by (simp add: nativeValueClasses_def JAVA_FIELD_NUMBER_def)
  then have f: "java_fields (jnat s) ! i = Some cls" using java_okD(1) [OF assms(1)] assms(3) by (simp add: class_fields_def)
  have "caps_read cls (read_into i mk rd) ob s = Some (Inr (Some v), ?t)"
    using h c(1) f assms(6,7) by (simp add: caps_read_def read_into_def with_caps_some [OF k] set_field_def)
  moreover have "java_ok ?t" by (rule java_ok_same [OF assms(1)]) simp_all
  moreover have "java_unread rest ob vs ?t" using h k c(2) by (simp add: java_unread_def caps_of_def)
  ultimately show ?thesis by blast
qed

lemma readValue_takes:
  assumes laws: "jcaps_laws C writable content rest" and "java_ok s" and "java_unread rest ob (v # vs) s" and "java_value v"
  shows "\<exists>t. readValue C v ob s = Some (Inr (Some v), t) \<and> java_ok t \<and> java_unread rest ob vs t"
proof -
  note r = read_takes [OF assms(2,3)] and l = jcaps_reads [OF laws] and c = nativeValueClasses_def flora_consts
  show ?thesis
  proof (cases v)
    case (JInt i)
    then show ?thesis unfolding JInt readValue.simps readInteger_def native_read_integer_def
      by (intro r [unfolded JInt, where x = i]) (use l(1) assms(4) \<open>v = _\<close> in \<open>simp_all add: c\<close>)
  next
    case (JFloat f)
    then show ?thesis unfolding JFloat readValue.simps readFloat_def native_read_float_def
      by (intro r [unfolded JFloat, where x = f]) (use l(2) assms(4) \<open>v = _\<close> in \<open>simp_all add: c\<close>)
  next
    case (JLong i)
    then show ?thesis unfolding JLong readValue.simps readLong_def native_read_long_def
      by (intro r [unfolded JLong, where x = i]) (use l(3) assms(4) \<open>v = _\<close> in \<open>simp_all add: c\<close>)
  next
    case (JDouble d)
    then show ?thesis unfolding JDouble readValue.simps readDouble_def native_read_double_def
      by (intro r [unfolded JDouble, where x = d]) (use l(4) assms(4) \<open>v = _\<close> in \<open>simp_all add: c\<close>)
  next
    case (JString t)
    then show ?thesis unfolding JString readValue.simps readString_def native_read_string_def
      by (intro r [unfolded JString, where x = t]) (use l(5) assms(4) \<open>v = _\<close> in \<open>simp_all add: c\<close>)
  next
    case (JBytes bs)
    then show ?thesis unfolding JBytes readValue.simps readBinary_def native_read_binary_def
      by (intro r [unfolded JBytes, where x = bs]) (use l(6) assms(4) \<open>v = _\<close> in \<open>simp_all add: c\<close>)
  qed (use assms(4) in simp)
qed

lemma read_all_takes:
  assumes laws: "jcaps_laws C writable content rest"
  shows "\<lbrakk>java_ok s; java_unread rest ob vs s; \<forall>v\<in>set vs. java_value v\<rbrakk> \<Longrightarrow>
    \<exists>t. read_all C vs ob s = Some (map (Inr \<circ> Some) vs, t)"
proof (induction vs arbitrary: s)
  case (Cons v vs)
  from readValue_takes [OF laws Cons.prems(1,2)] Cons.prems(3) obtain u where
    u: "readValue C v ob s = Some (Inr (Some v), u)" "java_ok u" "java_unread rest ob vs u" by auto
  from Cons.IH [OF u(2,3)] Cons.prems(3) u(1) show ?case by auto
qed simp

lemma arrives_unread:
  assumes "java_ok s" and "native_handle s ob = 0"
  shows "java_ok (post_arrives (Some c) ob s)" and "java_unread rest ob (rest c) (post_arrives (Some c) ob s)"
proof -
  have n: "0 < j_next_handle (jnat s)" using java_okD(2) [OF assms(1)] .
  show "java_ok (post_arrives (Some c) ob s)"
    using java_ok_new [OF assms, of c] by (cases "new_handle (Some c) (jnat s)") (simp add: post_arrives_def recv_post_handle_def)
  show "java_unread rest ob (rest c) (post_arrives (Some c) ob s)"
    using n by (simp add: java_unread_def caps_of_def post_arrives_def recv_post_handle_def new_handle_def)
qed


section \<open>Undefined calls\<close>

text \<open>\<open>readCaps\<close> is undefined whenever there is a Caps to read. In every reachable state, if the native read of a
  nested Caps from a Java \<open>Caps\<close> succeeds, the native function sets the field of a \<open>CapsValue\<close> with the field id of
  \<open>LongValue\<close>, which JNI does not allow.\<close>

lemma read_caps_undefined:
  assumes "java_reachable C s" and "native_handle s ob \<noteq> 0" and "caps_of ob s = Some c" and "fst (fst (jc_read_caps C c)) = CAPS_SUCCESS"
  shows "readCaps C nw ob s = None"
proof -
  note ok = java_reachable_ok [OF assms(1)]
  obtain k where k: "j_handles (jnat s) (native_handle s ob) = Some (Some k)" by (rule java_ok_handle [OF ok assms(2)])
  with assms(3) have c: "c = j_objs (jnat s) k" by (simp add: caps_of_def)
  have f: "java_fields (jnat s) ! 2 = Some LongValue" using java_okD(1) [OF ok] by (simp add: class_fields_def nativeValueClasses_def)
  have n: "java_fields (snd (new_handle v j)) = java_fields j" for v and j :: "'a jni" by (simp add: new_handle_def split: option.split)
  show ?thesis
    using assms(2,4) c f
    by (simp add: readCaps_def caps_read_def native_read_caps_def read_into_def with_caps_some [OF k] set_field_def case_prod_unfold
        Let_def n flora_consts)
qed

text \<open>A message without content arrives as a handle with a null pointer; reading from it is undefined.\<close>

lemma null_message_undefined:
  assumes "java_ok s"
  shows "readInteger C ob (post_arrives None ob s) = None"
  using java_okD(2) [OF assms]
  by (simp add: readInteger_def caps_read_def native_read_integer_def read_into_def with_caps_def post_arrives_def
      recv_post_handle_def new_handle_def)

text \<open>The check of \<open>writeBinary\<close> lets a range through whose end wraps; the native function's copy then raises a Java
  exception and fills nothing, and what it goes on to write is the uninitialised buffer.\<close>

lemma binary_range_wraps:
  fixes off len :: i32
  assumes "0 \<le> sint off" and "0 \<le> sint len" and "2 ^ 31 \<le> sint off + sint len" and "length bs < 2 ^ 31"
  shows "writeBinary C (Some bs) off len ob s = None"
proof -
  have b: "sint off < 2 ^ 31" "sint len < 2 ^ 31" using sint_lt [of off] sint_lt [of len] by simp_all
  have "sint (off + len) = sint off + sint len - 2 ^ 32"
  proof -
    have "sint (off + len) = signed_take_bit 31 (sint off + sint len)" by (simp add: sint_word_ariths)
    also have "\<dots> = signed_take_bit 31 (sint off + sint len - 2 ^ 32)"
      by (subst signed_take_bit_eq_iff_take_bit_eq) (simp add: take_bit_eq_mod)
    also have "\<dots> = sint off + sint len - 2 ^ 32" using assms(3) b by (intro signed_take_bit_int_eq_self) simp_all
    finally show ?thesis .
  qed
  with assms b show ?thesis
    by (simp add: writeBinary_def caps_write_def native_write_binary_def Let_def)
qed

section \<open>Witnesses\<close>

text \<open>A Caps object as the values written and the values to read.\<close>

type_synonym jlite = "jvalue list \<times> jvalue list"

definition jl_write :: "jvalue \<Rightarrow> jlite \<Rightarrow> i32 \<times> jlite" where
  "jl_write v c = (CAPS_SUCCESS, fst c @ [v], snd c)"

definition jl_read :: "(jvalue \<Rightarrow> 'v option) \<Rightarrow> 'v \<Rightarrow> jlite \<Rightarrow> (i32 \<times> 'v) \<times> jlite" where
  "jl_read sel d c =
     (case snd c of
        [] \<Rightarrow> ((- 7, d), c)
      | v # vs \<Rightarrow> (case sel v of None \<Rightarrow> ((- 6, d), c) | Some x \<Rightarrow> ((CAPS_SUCCESS, x), fst c, vs)))"

definition jlite_ops :: "jlite jcaps_ops" where
  "jlite_ops = \<lparr>jc_new = ([], []), jc_write_i32 = (\<lambda>v. jl_write (JInt v)), jc_write_float = (\<lambda>v. jl_write (JFloat v)),
     jc_write_i64 = (\<lambda>v. jl_write (JLong v)), jc_write_double = (\<lambda>v. jl_write (JDouble v)),
     jc_write_cstr = (\<lambda>v. jl_write (JString (case v of None \<Rightarrow> [] | Some t \<Rightarrow> t))),
     jc_write_binary = (\<lambda>v. jl_write (JBytes (case v of None \<Rightarrow> [] | Some b \<Rightarrow> b))),
     jc_write_caps = (\<lambda>_ c. (CAPS_SUCCESS, c)),
     jc_read_i32 = jl_read (\<lambda>v. case v of JInt i \<Rightarrow> Some i | _ \<Rightarrow> None) 0,
     jc_read_float = jl_read (\<lambda>v. case v of JFloat i \<Rightarrow> Some i | _ \<Rightarrow> None) 0,
     jc_read_i64 = jl_read (\<lambda>v. case v of JLong i \<Rightarrow> Some i | _ \<Rightarrow> None) 0,
     jc_read_double = jl_read (\<lambda>v. case v of JDouble i \<Rightarrow> Some i | _ \<Rightarrow> None) 0,
     jc_read_string = jl_read (\<lambda>v. case v of JString i \<Rightarrow> Some i | _ \<Rightarrow> None) [],
     jc_read_binary = jl_read (\<lambda>v. case v of JBytes i \<Rightarrow> Some i | _ \<Rightarrow> None) [],
     jc_read_caps = jl_read (\<lambda>v. Some (Some ([], []))) None\<rparr>"

lemma jlite_laws: "jcaps_laws jlite_ops (\<lambda>_. True) fst snd"
  by (simp add: jcaps_laws_def jlite_ops_def jl_write_def jl_read_def split: jvalue.split)

definition jdemo_values :: "jvalue list" where
  "jdemo_values = [JInt 5, JString ''hi'', JBytes [1, 2], JLong 9]"



lemma read_caps_undefined_witness:
  "readCaps jlite_ops 2 1 (post_arrives (Some ([], [JInt 1])) 1 (java_start ([], []))) = None"
proof -
  let ?s = "post_arrives (Some ([], [JInt 1])) 1 (java_start ([], [])) :: jlite java"
  have "java_reachable jlite_ops ?s" by (intro java_reachable.arrive java_reachable.start) (simp add: java_start_def)
  moreover have "native_handle ?s 1 \<noteq> 0" "caps_of 1 ?s = Some ([], [JInt 1])" by code_simp+
  moreover have "fst (fst (jc_read_caps jlite_ops ([], [JInt 1]))) = CAPS_SUCCESS" by code_simp
  ultimately show ?thesis by (rule read_caps_undefined)
qed

end
