(* ===== verification/Spec2Isabelle.thy ===== *)
theory Spec2Isabelle
  imports Defects DispCalls DispProps ClientDefects PollLife CallDemo AgentDemo MonitorDemo PostOrder JavaValues
begin

text \<open>
  A verification development for flora, a service that passes messages and remote calls between the
  processes of a device (\<open>src/\<close>, C++).

  \<^bold>\<open>The program.\<close> Clients connect to the service over a unix or TCP socket. A poll thread of the
  service (\<open>SocketPoll\<close>, \<open>BeepSocketPoll\<close>) accepts connections, reads from them, cuts the bytes into
  messages and puts these, with the \<open>Adapter\<close> of the connection, into the queue of the \<open>Dispatcher\<close>.
  The dispatcher's thread takes the messages out and handles them: authentication, subscriptions,
  posts, method declarations, calls and replies, pings; it answers by writing to adapters. A client
  (\<open>flora::Client\<close>) has one thread that receives what the service sends and calls the application
  back, and one that pings; the application's threads send requests and wait for the replies of their
  synchronous calls. Messages are objects of the Caps library on the wire. An \<open>Agent\<close> keeps a client
  connected: its thread connects, sends the registered subscriptions and method declarations, waits
  until the connection is lost and starts again. The monitor tool is an agent that shows the table of
  connected clients.

  \<^bold>\<open>The theories\<close>, in the order of their imports:
  \<^item> \<open>Prelude\<close>: machine integers, C strings, ordered maps as association lists, loops that can fail
    (\<open>iterate\<close>), the collections of facts. \<open>Protocol\<close>: the constants of \<open>defs.h\<close>, \<open>flora-cli.h\<close>,
    \<open>flora-svc.h\<close>. \<open>Tag\<close>: \<open>TagHelper\<close> of \<open>ser-helper.h\<close>, the 64-bit identity of a peer.
  \<^item> \<open>CapsLib\<close>: the Caps library as a parameter, with its documented behaviour as \<open>caps_laws\<close>;
    \<open>CapsRef\<close>: an instance that satisfies the laws. \<open>Framing\<close>: what both ends do with a byte stream,
    and the contract \<open>stream_receiver\<close>.
  \<^item> \<open>Adapter\<close>: \<open>adap.h\<close>, \<open>sock-adap.*\<close>, the service's end of a connection, and the contract \<open>closable\<close>.
    \<open>SockConn\<close>: \<open>conn.h\<close>, \<open>sock-conn.*\<close>, the client's end.
  \<^item> \<open>SerHelper\<close>: \<open>ser-helper.*\<close>, every serialiser and parser, and their round trips.
  \<^item> \<open>Disp\<close>: \<open>disp.*\<close>, one definition per method of the dispatcher. \<open>DispInv\<close>: the invariant of its
    state. \<open>DispAuth\<close>: authentication and erasure keep it. \<open>Service\<close>: the service as a transition
    system of the poll thread and the dispatcher thread, with its reachable states; memory safety and
    consistency of the registry. \<open>DispProps\<close>, \<open>DispCalls\<close>, \<open>DispAdmin\<close>: what posts and subscriptions,
    calls and replies, and the administrative requests do, branch by branch.
  \<^item> \<open>SockPoll\<close>: \<open>sock-poll.*\<close>, \<open>beep-sock-poll.h\<close>, \<open>poll.cc\<close>: reading, framing, keep-alive, and the
    refinement to the transition system of \<open>Service\<close>. \<open>Defects\<close>: runs outside the conditions of the
    safety theorems.
  \<^item> \<open>Client\<close>: \<open>cli.h\<close> and the first part of \<open>cli.cc\<close>, one definition per method; an operation that
    blocks is split where it waits. \<open>ClientC\<close>: the C interface in the rest of \<open>cli.cc\<close>. \<open>ClientInv\<close>:
    the client as a transition system of the application's calls and the two threads, and the invariant
    of its pending requests. \<open>ClientProps\<close>: the receiving thread survives every input. \<open>ClientStream\<close>:
    the client meets \<open>stream_receiver\<close>. \<open>ClientCalls\<close>, \<open>ClientReply\<close>: synchronous calls return, with
    their reply if it arrives; asynchronous ones are answered exactly once. \<open>ClientLife\<close>: connecting and
    closing. \<open>ClientDemo\<close>: concrete inputs. \<open>ClientDefects\<close>: inputs on which the client goes wrong.
  \<^item> \<open>EndToEnd\<close>: a post of one client through the service to the application of another.
    \<open>CallEndToEnd\<close>: a call through the service to the callee's application, and its reply back to the
    waiting caller. \<open>CallDemo\<close>: concrete runs of both. \<open>PostOrder\<close>: a sequence of posts reaches the
    application of a subscriber in the order in which the service handled it, without gaps.
  \<^item> \<open>PollLife\<close>: the rest of \<open>sock-poll.cc\<close>, \<open>beep-sock-poll.h\<close>, \<open>poll.cc\<close>: opening the listening socket,
    starting and stopping, waiting, the whole run of the thread, and the C functions of the service's
    side. Every run of the thread returns, and is a run of the transition system of \<open>Service\<close>.
  \<^item> \<open>Agent\<close>: \<open>flora-agent.*\<close>, one definition per method and per part of the thread's loop between two
    waits. \<open>AgentProps\<close>: the contract \<open>closing_pool\<close> of a set of objects that are closed one by one,
    the agent as a transition system together with its clients, and its invariant. \<open>AgentRun\<close>: no
    operation is undefined, clients are closed, a lost connection is replaced, handlers get their
    messages, and where a notification is lost. \<open>AgentDemo\<close>: concrete agents.
  \<^item> \<open>MonitorTool\<close>: \<open>monitor/main.cc\<close>, the table, the text it prints and its buffers. \<open>MonitorTrack\<close>: the
    table follows the registry of the service, through what the dispatcher writes and the monitor's
    client receives. \<open>MonitorDemo\<close>: concrete inputs.
  \<^item> \<open>JniCaps\<close>: \<open>android/jni/com_rokid_flora_Caps.cpp\<close>, the native functions behind the Java class \<open>Caps\<close>.
    \<open>JavaCaps\<close>: \<open>Caps.java\<close>, and the ownership of native handles by Java objects. \<open>JavaValues\<close>: what is
    written to a Java \<open>Caps\<close> is read from one that arrives, and the calls that are undefined.

  \<^bold>\<open>How the code is represented.\<close> Objects are records; \<open>int32_t\<close>, \<open>uint32_t\<close>, \<open>uint64_t\<close> are words of
  their width. Pointers to shared objects are addresses (\<open>aid\<close> of an adapter, the node of a pending
  request, the \<open>Response\<close> of a caller); an object exists while something owns it. The value \<open>None\<close> of an
  operation is undefined behaviour, an uncaught exception or a loop that does not end, so that a
  theorem that says \<open>= Some t\<close> excludes these. The kernel is a parameter: what \<open>::write\<close> returns is a
  function of the history, what \<open>::read\<close> returns, the clock, the result of \<open>::connect\<close> are arguments.
  Everything written is recorded (\<open>iolog\<close>, \<open>conn_io\<close>), as is every call of the application
  (\<open>upcalls\<close>). Log messages are modelled where their arguments follow pointers; \<open>KLOGD\<close> is compiled
  out. The parts of an operation between two locks are taken as one step. The message counters
  \<open>reqseq\<close> are signed: theorems about calls assume that the counter has not reached its maximum.

  \<^bold>\<open>Loops and fuel.\<close> No fuel is used. Loops over lists are structural recursion; the loops that cut
  buffers into messages are \<open>partial_function (option)\<close>, and the theorems state that they return. A thread's
  loop runs over a list of rounds, one for each return of its wait.

  \<^bold>\<open>Not modelled.\<close> The logging configuration of \<open>file-log.h\<close>, which only sets up an external library;
  the examples and the tests. Of the Java binding, \<open>com_rokid_flora_Client.cpp\<close> with \<open>Client.java\<close>: it
  calls members that \<open>flora::Client\<close> does not have any more (\<open>subscribe\<close> and \<open>unsubscribe\<close> with a message
  type, \<open>get\<close>), so that only the handles it makes for messages have a meaning, and these are in \<open>JniCaps\<close>;
  the tables that register native methods are configuration of JNI.
  Of the monitor tool, the command line, parsed by an external library, and curses beyond the text
  printed since the last \<open>clear\<close>. Timers: a deadline, a wake-up of a waiting thread and a time read from
  the clock are arguments or steps that may happen.
\<close>

end
